(* ===== verification/Prelude.thy ===== *)
theory Prelude
  imports Main "HOL-Library.Code_Target_Nat"
begin

text \<open>
  Shared vocabulary of the development: how Go values are represented, the error values every
  component returns, and the generic list, option and sum facts the component proofs rewrite with.

  A Go \<^verbatim>\<open>string\<close> and a Go \<^verbatim>\<open>[]byte\<close> are both byte sequences, so both are \<open>string\<close> (a list of
  8-bit characters) and a conversion between them is the identity. A Go
  \<^verbatim>\<open>map[string]string\<close> is an association list: \<open>m[k]\<close> is \<open>lookup_or_empty\<close>, the two-value form is
  \<open>map_of\<close>, and the order of the list stands for the (unspecified) order in which a
  \<^verbatim>\<open>range\<close> loop visits the map. A Go function that returns \<^verbatim>\<open>(T, error)\<close> returns a
  value of \<open>'a res\<close>, with \<open>Inl\<close> for a non-nil error.
\<close>

section \<open>Collections of rewrite rules\<close>

named_theorems model_defs \<open>definitions that a proof about the model unfolds\<close>
named_theorems bounds \<open>size bounds of operations\<close>

section \<open>Go values\<close>

type_synonym bytes = string
type_synonym strmap = "(string \<times> string) list"

text \<open>
  Errors. \<open>ErrNew\<close> is \<^verbatim>\<open>errors.New\<close> (and \<^verbatim>\<open>fmt.Errorf\<close> without \<^verbatim>\<open>%w\<close>),
  \<open>ErrWrap\<close> is \<^verbatim>\<open>fmt.Errorf("...: %w", err)\<close>; \<open>ErrHTTP\<close> carries the three fields of
  \<^verbatim>\<open>auth.HTTPError\<close>; \<open>ErrGRPC\<close> is an error with a gRPC status code; \<open>ErrExt\<close> is an error
  value that a library or the operating system returned.
\<close>

datatype go_error =
    ErrNew string
  | ErrWrap string go_error
  | ErrHTTP int string string
  | ErrGRPC nat string
  | ErrExt string

type_synonym 'a res = "go_error + 'a"

text \<open>A computation that may also panic: the goroutine (and with it the process) dies.\<close>

datatype 'a outcome = Done 'a | Panic

definition res_ok :: "'a res \<Rightarrow> bool" where
  "res_ok r = (case r of Inl _ \<Rightarrow> False | Inr _ \<Rightarrow> True)"

lemma res_ok_simps [simp]: "res_ok (Inr x)" "\<not> res_ok (Inl e)"
  by (simp_all add: res_ok_def)

lemma res_okE: "res_ok r \<Longrightarrow> (\<And>x. r = Inr x \<Longrightarrow> P) \<Longrightarrow> P"
  by (cases r) auto

text \<open>\<^verbatim>\<open>m[k]\<close> on a \<^verbatim>\<open>map[string]string\<close>: the zero value when the key is absent.\<close>

definition lookup_or_empty :: "strmap \<Rightarrow> string \<Rightarrow> string" where
  "lookup_or_empty m k = (case map_of m k of None \<Rightarrow> '''' | Some v \<Rightarrow> v)"

lemma lookup_or_empty_Nil [simp]: "lookup_or_empty [] k = ''''"
  by (simp add: lookup_or_empty_def)

lemma lookup_or_empty_Cons [simp]:
  "lookup_or_empty ((a, b) # m) k = (if k = a then b else lookup_or_empty m k)"
  by (simp add: lookup_or_empty_def)

section \<open>Generic list facts\<close>

lemma find_upt_Some_iff:
  "List.find P [a..<b] = Some i \<longleftrightarrow> a \<le> i \<and> i < b \<and> P i \<and> (\<forall>j. a \<le> j \<and> j < i \<longrightarrow> \<not> P j)"
proof (induction "b - a" arbitrary: a)
  case 0
  then show ?case by auto
next
  case (Suc n)
  then have ab: "a < b" and IH: "List.find P [Suc a..<b] = Some i \<longleftrightarrow>
      Suc a \<le> i \<and> i < b \<and> P i \<and> (\<forall>j. Suc a \<le> j \<and> j < i \<longrightarrow> \<not> P j)"
    by auto
  show ?case
  proof (cases "P a")
    case True
    then show ?thesis using ab by (auto simp: upt_conv_Cons)
  next
    case False
    have "(\<forall>j. a \<le> j \<and> j < i \<longrightarrow> \<not> P j) \<longleftrightarrow> (\<forall>j. Suc a \<le> j \<and> j < i \<longrightarrow> \<not> P j)"
      using False by (metis Suc_leI le_neq_implies_less Suc_leD)
    then show ?thesis using ab False IH by (auto simp: upt_conv_Cons Suc_le_eq le_less)
  qed
qed

lemma find_upt_None_iff: "List.find P [a..<b] = None \<longleftrightarrow> (\<forall>j. a \<le> j \<and> j < b \<longrightarrow> \<not> P j)"
  by (auto simp: find_None_iff)

lemma take_drop_gap: "(l::nat) \<le> a \<Longrightarrow> take (a - l) (drop l ts) @ drop a ts = drop l ts"
  by (metis append_take_drop_id drop_drop le_add_diff_inverse2)

lemma sum_list_map_mono_nat:
  "(\<And>x. x \<in> set xs \<Longrightarrow> f x \<le> (g x :: nat)) \<Longrightarrow> sum_list (map f xs) \<le> sum_list (map g xs)"
  by (induction xs) (auto simp: add_mono)

end
