(* ===== verification/Metrics.thy ===== *)
theory Metrics
  imports Prelude
begin

text \<open>
  \<^verbatim>\<open>internal/metrics/metrics.go\<close>: the collector's instrumentation as explicit state. A counter is a
  number, a counter vector is a function from the label value to a number, and a histogram is the
  number of observations made (the observed durations are wall-clock time). Operations of the other
  components take the registry and return it updated, so a theorem can say which events are counted.
\<close>

record metrics =
  AlertsReceived :: "string \<Rightarrow> nat"
  Forwards :: "string \<Rightarrow> nat"
  ForwardRetries :: nat
  ForwardDuration :: nat
  EnrichDuration :: "string \<Rightarrow> nat"
  EnrichErrors :: "string \<Rightarrow> nat"
  LinesDropped :: "string \<Rightarrow> nat"
  AlertsDropped :: nat
  RedactReplacements :: "string \<Rightarrow> nat"

definition no_metrics :: metrics where
  "no_metrics =
    \<lparr>AlertsReceived = (\<lambda>_. 0), Forwards = (\<lambda>_. 0), ForwardRetries = 0, ForwardDuration = 0,
     EnrichDuration = (\<lambda>_. 0), EnrichErrors = (\<lambda>_. 0), LinesDropped = (\<lambda>_. 0), AlertsDropped = 0,
     RedactReplacements = (\<lambda>_. 0)\<rparr>"

text \<open>\<^verbatim>\<open>vec.WithLabelValues(l).Add(n)\<close>.\<close>

definition add_at :: "string \<Rightarrow> nat \<Rightarrow> (string \<Rightarrow> nat) \<Rightarrow> string \<Rightarrow> nat" where
  "add_at l n f = f(l := f l + n)"

lemma add_at_apply [simp]: "add_at l n f k = (if k = l then f k + n else f k)"
  by (simp add: add_at_def)

definition inc_AlertsReceived :: "string \<Rightarrow> metrics \<Rightarrow> metrics" where
  [simp]: "inc_AlertsReceived l m = m\<lparr>AlertsReceived := add_at l 1 (AlertsReceived m)\<rparr>"

definition inc_Forwards :: "string \<Rightarrow> metrics \<Rightarrow> metrics" where
  [simp]: "inc_Forwards l m = m\<lparr>Forwards := add_at l 1 (Forwards m)\<rparr>"

definition inc_ForwardRetries :: "metrics \<Rightarrow> metrics" where
  [simp]: "inc_ForwardRetries m = m\<lparr>ForwardRetries := ForwardRetries m + 1\<rparr>"

definition observe_ForwardDuration :: "metrics \<Rightarrow> metrics" where
  [simp]: "observe_ForwardDuration m = m\<lparr>ForwardDuration := ForwardDuration m + 1\<rparr>"

definition observe_EnrichDuration :: "string \<Rightarrow> metrics \<Rightarrow> metrics" where
  [simp]: "observe_EnrichDuration l m = m\<lparr>EnrichDuration := add_at l 1 (EnrichDuration m)\<rparr>"

definition inc_EnrichErrors :: "string \<Rightarrow> metrics \<Rightarrow> metrics" where
  [simp]: "inc_EnrichErrors l m = m\<lparr>EnrichErrors := add_at l 1 (EnrichErrors m)\<rparr>"

definition inc_LinesDropped :: "string \<Rightarrow> metrics \<Rightarrow> metrics" where
  [simp]: "inc_LinesDropped l m = m\<lparr>LinesDropped := add_at l 1 (LinesDropped m)\<rparr>"

definition inc_AlertsDropped :: "metrics \<Rightarrow> metrics" where
  [simp]: "inc_AlertsDropped m = m\<lparr>AlertsDropped := AlertsDropped m + 1\<rparr>"

definition add_RedactReplacements :: "string \<Rightarrow> nat \<Rightarrow> metrics \<Rightarrow> metrics" where
  [simp]: "add_RedactReplacements l n m = m\<lparr>RedactReplacements := add_at l n (RedactReplacements m)\<rparr>"

end
