(* ===== verification/GoUtf8.thy ===== *)
theory GoUtf8
  imports Prelude
begin

text \<open>
  Go's \<^verbatim>\<open>unicode/utf8\<close> as the regular expression engine reads its input: the decoder
  \<open>decode_rune\<close> (\<^verbatim>\<open>utf8.DecodeRuneInString\<close>), the sequence of runes of a string, and the facts
  that make decoding compositional: decoding is invertible (\<open>bytes_of_runes\<close>), commutes with taking
  and dropping runes, and is undisturbed by an inserted text with ASCII ends (\<open>runes_around\<close>).
\<close>

section \<open>The decoder\<close>

text \<open>
  A rune together with the bytes it was decoded from. Go's decoder reads an invalid byte as the
  replacement character U+FFFD of width one, so the bytes are kept beside the code point.
\<close>

datatype rune = Rune (rune_code: nat) (rune_raw: string)

definition byte_of :: "char \<Rightarrow> nat" where
  "byte_of c = of_char c"

definition is_cont :: "char \<Rightarrow> bool" where
  "is_cont c = (128 \<le> byte_of c \<and> byte_of c \<le> 191)"

text \<open>Length of the sequence a leading byte announces (0: not a leading byte).\<close>

definition utf8_len :: "nat \<Rightarrow> nat" where
  "utf8_len b =
    (if b < 128 then 1
     else if 194 \<le> b \<and> b \<le> 223 then 2
     else if 224 \<le> b \<and> b \<le> 239 then 3
     else if 240 \<le> b \<and> b \<le> 244 then 4
     else 0)"

text \<open>Accepted range of the second byte (rules out overlong forms, surrogates and U+110000 up).\<close>

definition utf8_lo :: "nat \<Rightarrow> nat" where
  "utf8_lo b = (if b = 224 then 160 else if b = 240 then 144 else 128)"

definition utf8_hi :: "nat \<Rightarrow> nat" where
  "utf8_hi b = (if b = 237 then 159 else if b = 244 then 143 else 191)"

definition utf8_tail_ok :: "nat \<Rightarrow> string \<Rightarrow> bool" where
  "utf8_tail_ok b cs =
    (case cs of [] \<Rightarrow> False
     | c # cs' \<Rightarrow> utf8_lo b \<le> byte_of c \<and> byte_of c \<le> utf8_hi b \<and> list_all is_cont cs')"

definition utf8_value :: "nat \<Rightarrow> string \<Rightarrow> nat" where
  "utf8_value b cs =
    foldl (\<lambda>v c. v * 64 + byte_of c mod 64) (b mod 2 ^ (7 - utf8_len b)) cs"

definition rune_error :: nat where
  "rune_error = 65533"

definition decode_rune :: "char \<Rightarrow> string \<Rightarrow> rune" where
  "decode_rune c cs =
    (let b = byte_of c; n = utf8_len b; t = take (n - 1) cs in
     if n = 1 then Rune b [c]
     else if 2 \<le> n \<and> length t = n - 1 \<and> utf8_tail_ok b t then Rune (utf8_value b t) (c # t)
     else Rune rune_error [c])"

function runes :: "string \<Rightarrow> rune list" where
  "runes [] = []"
| "runes (c # cs) = (let r = decode_rune c cs in r # runes (drop (length (rune_raw r) - 1) cs))"
  by pat_completeness auto
termination
  by (relation "measure length") auto

declare runes.simps(2) [simp del]

definition bytes_of :: "rune list \<Rightarrow> string" where
  "bytes_of rs = concat (map rune_raw rs)"

lemma bytes_of_simps [simp]:
  "bytes_of [] = []" "bytes_of (r # rs) = rune_raw r @ bytes_of rs"
  "bytes_of (xs @ ys) = bytes_of xs @ bytes_of ys"
  by (simp_all add: bytes_of_def)

section \<open>Decoding is invertible and compositional\<close>

lemma decode_rune_raw: "\<exists>t rest. rune_raw (decode_rune c cs) = c # t \<and> cs = t @ rest"
proof -
  have "take n cs @ drop n cs = cs" for n by simp
  then show ?thesis by (auto simp: decode_rune_def Let_def) (metis append_take_drop_id)+
qed

lemma runes_Cons:
  "\<exists>t rest. rune_raw (decode_rune c cs) = c # t \<and> cs = t @ rest \<and> runes (c # cs) = decode_rune c cs # runes rest"
proof -
  from decode_rune_raw[of c cs] obtain t rest where "rune_raw (decode_rune c cs) = c # t" "cs = t @ rest"
    by blast
  then show ?thesis by (auto simp: runes.simps(2) Let_def)
qed

lemma runesE:
  assumes "s \<noteq> []"
  obtains c t rest where "s = c # t @ rest" "runes s = decode_rune c (t @ rest) # runes rest"
    "rune_raw (decode_rune c (t @ rest)) = c # t"
  using assms runes_Cons by (metis list.exhaust)

lemma bytes_of_runes [simp]: "bytes_of (runes s) = s"
proof (induction "length s" arbitrary: s rule: less_induct)
  case less
  show ?case
  proof (cases "s = []")
    case False
    then obtain c t rest where s: "s = c # t @ rest" "runes s = decode_rune c (t @ rest) # runes rest"
      "rune_raw (decode_rune c (t @ rest)) = c # t" by (rule runesE)
    then have "bytes_of (runes rest) = rest" by (intro less) simp
    then show ?thesis using s by simp
  qed simp
qed


lemma tail_ok_cont: "utf8_tail_ok b t \<Longrightarrow> list_all is_cont t"
proof -
  have "128 \<le> utf8_lo b" "utf8_hi b \<le> 191" by (auto simp: utf8_lo_def utf8_hi_def)
  then show "utf8_tail_ok b t \<Longrightarrow> list_all is_cont t"
    by (cases t) (auto simp: utf8_tail_ok_def is_cont_def)
qed

text \<open>The decoder reads at most the announced number of bytes.\<close>

lemma decode_rune_cong:
  "take (utf8_len (byte_of c) - 1) cs = take (utf8_len (byte_of c) - 1) cs' \<Longrightarrow>
   decode_rune c cs = decode_rune c cs'"
  by (simp add: decode_rune_def Let_def)

lemma decode_rune_bad:
  assumes "utf8_len (byte_of c) \<noteq> 1"
    and "\<not> (2 \<le> utf8_len (byte_of c)
      \<and> length (take (utf8_len (byte_of c) - 1) cs) = utf8_len (byte_of c) - 1
      \<and> utf8_tail_ok (byte_of c) (take (utf8_len (byte_of c) - 1) cs))"
  shows "decode_rune c cs = Rune rune_error [c]"
  unfolding decode_rune_def Let_def using assms by argo

lemma decode_rune_append:
  assumes w: "w = [] \<or> \<not> is_cont (hd w)"
  shows "decode_rune c (cs @ w) = decode_rune c cs"
proof (cases "utf8_len (byte_of c) - 1 \<le> length cs \<or> w = []")
  case True
  then show ?thesis by (intro decode_rune_cong) auto
next
  case False
  let ?n = "utf8_len (byte_of c)"
  let ?t = "take (?n - 1) (cs @ w)"
  have "\<not> utf8_tail_ok (byte_of c) ?t"
  proof
    assume "utf8_tail_ok (byte_of c) ?t"
    then have "list_all is_cont ?t" by (rule tail_ok_cont)
    moreover obtain x ws where wx: "w = x # ws" using False by (cases w) auto
    moreover obtain k where "?n - 1 - length cs = Suc k" using False by (cases "?n - 1 - length cs") auto
    then have "hd w \<in> set ?t" by (simp add: wx)
    ultimately show False using w wx by (simp add: list_all_iff)
  qed
  moreover have "length (take (?n - 1) cs) \<noteq> ?n - 1" "?n \<noteq> 1" using False by auto
  ultimately show ?thesis using decode_rune_bad[of c "cs @ w"] decode_rune_bad[of c cs] by metis
qed

lemma runes_append:
  assumes w: "w = [] \<or> \<not> is_cont (hd w)"
  shows "runes (s @ w) = runes s @ runes w"
proof (induction "length s" arbitrary: s rule: less_induct)
  case less
  show ?case
  proof (cases "s = []")
    case False
    then obtain c t rest where s: "s = c # t @ rest" "runes s = decode_rune c (t @ rest) # runes rest"
      "rune_raw (decode_rune c (t @ rest)) = c # t" by (rule runesE)
    have "decode_rune c ((t @ rest) @ w) = decode_rune c (t @ rest)"
      using w by (rule decode_rune_append)
    then have "runes (s @ w) = decode_rune c (t @ rest) # runes (rest @ w)"
      using s by (simp add: runes.simps(2) Let_def)
    also have "runes (rest @ w) = runes rest @ runes w" using s by (intro less) simp
    finally show ?thesis using s by simp
  qed simp
qed

lemma decode_rune_prefix:
  assumes raw: "rune_raw (decode_rune c (t @ x @ y)) = c # t"
  shows "decode_rune c (t @ x) = decode_rune c (t @ x @ y)"
proof -
  let ?b = "byte_of c" let ?n = "utf8_len ?b" let ?full = "take (?n - 1) (t @ x @ y)"
  let ?ok = "2 \<le> ?n \<and> length ?full = ?n - 1 \<and> utf8_tail_ok ?b ?full"
  consider (one) "?n = 1" | (valid) "?n \<noteq> 1" ?ok | (bad) "?n \<noteq> 1" "\<not> ?ok"
    by blast
  then show ?thesis
  proof cases
    case one
    then show ?thesis by (simp add: decode_rune_def)
  next
    case valid
    then have "rune_raw (decode_rune c (t @ x @ y)) = c # ?full"
      by (simp add: decode_rune_def Let_def del: take_append)
    then have t: "?full = t" using raw by simp
    then have "length t = ?n - 1" using valid by metis
    then show ?thesis by (intro decode_rune_cong) simp
  next
    case bad
    then have d: "decode_rune c (t @ x @ y) = Rune rune_error [c]"
      by (rule decode_rune_bad)
    then have "t = []" using raw by simp
    then have "\<not> (2 \<le> ?n \<and> length (take (?n - 1) (t @ x)) = ?n - 1 \<and> utf8_tail_ok ?b (take (?n - 1) (t @ x)))"
      using bad by auto
    then show ?thesis using bad(1) d decode_rune_bad by metis
  qed
qed

lemma runes_take [simp]: "runes (bytes_of (take k (runes s))) = take k (runes s)"
proof (induction "length s" arbitrary: s k rule: less_induct)
  case less
  show ?case
  proof (cases "s = [] \<or> k = 0")
    case False
    then obtain k' where k: "k = Suc k'" by (cases k) auto
    from False obtain c t rest where s: "s = c # t @ rest"
      "runes s = decode_rune c (t @ rest) # runes rest"
      "rune_raw (decode_rune c (t @ rest)) = c # t" using runesE by blast
    let ?x = "bytes_of (take k' (runes rest))"
    have "rest = ?x @ bytes_of (drop k' (runes rest))"
      by (metis append_take_drop_id bytes_of_runes bytes_of_simps(3))
    then have d: "decode_rune c (t @ ?x) = decode_rune c (t @ rest)"
      using s(3) by (metis decode_rune_prefix)
    have "runes (c # t @ ?x) = decode_rune c (t @ rest) # runes ?x"
      using s(3) by (simp add: runes.simps(2) Let_def d)
    also have "runes ?x = take k' (runes rest)" using s by (intro less) simp
    finally show ?thesis using s k by simp
  qed auto
qed

lemma runes_drop [simp]: "runes (bytes_of (drop k (runes s))) = drop k (runes s)"
proof (induction k arbitrary: s)
  case (Suc k)
  show ?case
  proof (cases "s = []")
    case False
    then obtain c t rest where "runes s = decode_rune c (t @ rest) # runes rest" by (rule runesE)
    then show ?thesis using Suc by simp
  qed simp
qed simp

definition wf_runes :: "rune list \<Rightarrow> bool" where
  "wf_runes ts = (runes (bytes_of ts) = ts)"

lemma wf_runes_runes [simp]: "wf_runes (runes s)"
  by (simp add: wf_runes_def)

lemma wf_runes_take [intro]: "wf_runes ts \<Longrightarrow> wf_runes (take k ts)"
  using runes_take[of k "bytes_of ts"] by (simp add: wf_runes_def)

lemma wf_runes_drop [intro]: "wf_runes ts \<Longrightarrow> wf_runes (drop k ts)"
  using runes_drop[of k "bytes_of ts"] by (simp add: wf_runes_def)

lemma runes_ascii: "byte_of c < 128 \<Longrightarrow> runes (c # w) = Rune (byte_of c) [c] # runes w"
  by (simp add: runes.simps(2) decode_rune_def utf8_len_def Let_def)

text \<open>A replacement that starts and ends with an ASCII byte does not disturb the decoding of the
  text around it.\<close>

definition ascii_ends :: "string \<Rightarrow> bool" where
  "ascii_ends s = (s \<noteq> [] \<and> byte_of (hd s) < 128 \<and> byte_of (last s) < 128)"

lemma not_cont_ascii: "byte_of c < 128 \<Longrightarrow> \<not> is_cont c"
  by (simp add: is_cont_def)

lemma runes_around:
  assumes "ascii_ends s"
  shows "runes (u @ s @ v) = runes u @ runes s @ runes v"
proof -
  from assms obtain s' c where s: "s = s' @ [c]" and c: "byte_of c < 128"
    by (metis append_butlast_last_id ascii_ends_def)
  have "runes (s @ v) = runes s' @ runes (c # v)"
    using c by (simp add: s runes_append not_cont_ascii)
  also have "\<dots> = (runes s' @ runes [c]) @ runes v" using c by (simp add: runes_ascii)
  also have "runes s' @ runes [c] = runes s"
    using c by (simp add: s runes_append not_cont_ascii)
  finally have 1: "runes (s @ v) = runes s @ runes v" .
  have "s @ v \<noteq> [] \<and> \<not> is_cont (hd (s @ v))"
    using assms by (auto simp: ascii_ends_def is_cont_def hd_append)
  then show ?thesis using runes_append[of "s @ v" u] 1 by simp
qed

lemma wf_runes_around:
  assumes "wf_runes u" "wf_runes v" "ascii_ends s"
  shows "wf_runes (u @ runes s @ v)"
  using assms runes_around[of s "bytes_of u" "bytes_of v"] by (simp add: wf_runes_def)

end
