(* ===== verification/GoStrings.thy ===== *)
theory GoStrings
  imports GoUtf8
begin

text \<open>
  The functions of Go's \<^verbatim>\<open>strings\<close> and \<^verbatim>\<open>strconv\<close> packages the collector calls: splitting,
  trimming, prefixes, decimal printing and parsing. Each is executable; the lemmas are the round
  trips the callers rely on (\<open>parse_int_itoa\<close>) and the shape facts of their results.
\<close>

section \<open>strings\<close>

text \<open>\<^verbatim>\<open>strings.Split\<close> with a one-byte separator.\<close>

fun Split :: "string \<Rightarrow> char \<Rightarrow> string list" where
  "Split [] sep = [[]]"
| "Split (c # cs) sep =
    (if c = sep then [] # Split cs sep
     else case Split cs sep of [] \<Rightarrow> [[c]] | w # ws \<Rightarrow> (c # w) # ws)"

text \<open>\<^verbatim>\<open>unicode.IsSpace\<close>.\<close>

definition is_space :: "rune \<Rightarrow> bool" where
  "is_space r =
    (let c = rune_code r in
     9 \<le> c \<and> c \<le> 13 \<or> c = 32 \<or> c = 133 \<or> c = 160 \<or> c = 5760 \<or> 8192 \<le> c \<and> c \<le> 8202
     \<or> c = 8232 \<or> c = 8233 \<or> c = 8239 \<or> c = 8287 \<or> c = 12288)"

definition TrimSpace :: "string \<Rightarrow> string" where
  "TrimSpace s = bytes_of (rev (dropWhile is_space (rev (dropWhile is_space (runes s)))))"

fun HasPrefix :: "string \<Rightarrow> string \<Rightarrow> bool" where
  "HasPrefix s [] = True"
| "HasPrefix [] (p # ps) = False"
| "HasPrefix (c # cs) (p # ps) = (c = p \<and> HasPrefix cs ps)"

definition CutPrefix :: "string \<Rightarrow> string \<Rightarrow> string option" where
  "CutPrefix s p = (if HasPrefix s p then Some (drop (length p) s) else None)"

text \<open>\<^verbatim>\<open>strings.IndexByte\<close>: \<open>None\<close> stands for -1.\<close>

fun IndexByte :: "string \<Rightarrow> char \<Rightarrow> nat option" where
  "IndexByte [] c = None"
| "IndexByte (x # xs) c = (if x = c then Some 0 else map_option Suc (IndexByte xs c))"

text \<open>\<^verbatim>\<open>strings.Cut\<close> at the first occurrence of a one-byte separator.\<close>

definition Cut :: "string \<Rightarrow> char \<Rightarrow> (string \<times> string) option" where
  "Cut s c = map_option (\<lambda>i. (take i s, drop (Suc i) s)) (IndexByte s c)"

fun Join :: "string list \<Rightarrow> string \<Rightarrow> string" where
  "Join [] sep = []"
| "Join [x] sep = x"
| "Join (x # xs) sep = x @ sep @ Join xs sep"

lemma Split_not_Nil [simp]: "Split s c \<noteq> []"
  by (cases s) (auto split: list.splits)

lemma Split_no_sep: "c \<notin> set s \<Longrightarrow> Split s c = [s]"
  by (induction s) auto

lemma Split_append: "c \<notin> set a \<Longrightarrow> Split (a @ c # b) c = a # Split b c"
  by (induction a) auto

lemma HasPrefix_append [simp]: "HasPrefix (p @ s) p"
  by (induction p) auto

lemma HasPrefix_iff: "HasPrefix s p \<longleftrightarrow> (\<exists>t. s = p @ t)"
  by (induction s p rule: HasPrefix.induct) auto

lemma CutPrefix_append [simp]: "CutPrefix (p @ s) p = Some s"
  by (simp add: CutPrefix_def)

lemma CutPrefix_Some_iff: "CutPrefix s p = Some t \<longleftrightarrow> s = p @ t"
  by (auto simp: CutPrefix_def HasPrefix_iff)

lemma IndexByte_append [simp]: "c \<notin> set a \<Longrightarrow> IndexByte (a @ c # b) c = Some (length a)"
  by (induction a) auto

lemma IndexByte_None [simp]: "c \<notin> set a \<Longrightarrow> IndexByte a c = None"
  by (induction a) auto

lemma Cut_append [simp]: "c \<notin> set a \<Longrightarrow> Cut (a @ c # b) c = Some (a, b)"
  by (simp add: Cut_def)

lemma TrimSpace_id:
  assumes "s \<noteq> []" "byte_of (hd s) < 128" "byte_of (last s) < 128"
    and "\<not> is_space (Rune (byte_of (hd s)) [hd s])" "\<not> is_space (Rune (byte_of (last s)) [last s])"
  shows "TrimSpace s = s"
proof -
  obtain c cs where s: "s = c # cs" using assms(1) by (cases s) auto
  have "runes s = Rune (byte_of c) [c] # runes cs" using assms(2) by (simp add: s runes_ascii)
  then have 1: "dropWhile is_space (runes s) = runes s" using assms(4) by (simp add: s)
  obtain t d where t: "s = t @ [d]" using assms(1) by (metis append_butlast_last_id)
  have d: "byte_of d < 128" "last s = d" using assms(3) by (simp_all add: t)
  then have "runes s = runes t @ [Rune (byte_of d) [d]]"
    by (simp add: t runes_append not_cont_ascii runes_ascii)
  then have "dropWhile is_space (rev (runes s)) = rev (runes s)" using assms(5) d by simp
  then show ?thesis by (simp add: TrimSpace_def 1)
qed

lemma TrimSpace_Nil [simp]: "TrimSpace [] = []"
  by (simp add: TrimSpace_def)

section \<open>strconv\<close>

definition digit_char :: "nat \<Rightarrow> char" where
  "digit_char d = char_of (48 + d)"

function nat_str :: "nat \<Rightarrow> string" where
  "nat_str n = (if n < 10 then [digit_char n] else nat_str (n div 10) @ [digit_char (n mod 10)])"
  by pat_completeness auto
termination
  by (relation "measure id") auto

declare nat_str.simps [simp del]

text \<open>\<^verbatim>\<open>strconv.FormatInt(i, 10)\<close>, also the \<^verbatim>\<open>%d\<close> verb.\<close>

definition itoa :: "int \<Rightarrow> string" where
  "itoa i = (if i < 0 then CHR ''-'' # nat_str (nat (- i)) else nat_str (nat i))"

definition is_digit :: "char \<Rightarrow> bool" where
  "is_digit c = (48 \<le> byte_of c \<and> byte_of c \<le> 57)"

datatype num_error = ErrSyntax | ErrRange

text \<open>\<^verbatim>\<open>strconv.ParseUint(s, 10, 64)\<close> from an accumulator: digits left to right, range first.\<close>

fun parse_digits :: "nat \<Rightarrow> string \<Rightarrow> num_error + nat" where
  "parse_digits acc [] = Inr acc"
| "parse_digits acc (c # cs) =
    (if \<not> is_digit c then Inl ErrSyntax
     else let n = acc * 10 + (byte_of c - 48) in
          if 2 ^ 64 \<le> n then Inl ErrRange else parse_digits n cs)"

definition ParseUint :: "string \<Rightarrow> num_error + nat" where
  "ParseUint s = (if s = [] then Inl ErrSyntax else parse_digits 0 s)"

text \<open>
  \<^verbatim>\<open>strconv.ParseInt(s, 10, 64)\<close> and \<^verbatim>\<open>strconv.Atoi\<close>: the value returned beside the error is 0 for
  a syntax error and the nearest representable integer for a range error.
\<close>

definition ParseInt :: "string \<Rightarrow> int \<times> num_error option" where
  "ParseInt s =
    (case s of [] \<Rightarrow> (0, Some ErrSyntax)
     | c # cs \<Rightarrow>
        (let neg = (c = CHR ''-''); body = (if c = CHR ''+'' \<or> c = CHR ''-'' then cs else s) in
         case ParseUint body of
           Inl ErrSyntax \<Rightarrow> (0, Some ErrSyntax)
         | Inl ErrRange \<Rightarrow> (if neg then - (2 ^ 63) else 2 ^ 63 - 1, Some ErrRange)
         | Inr n \<Rightarrow>
            if \<not> neg \<and> 2 ^ 63 \<le> n then (2 ^ 63 - 1, Some ErrRange)
            else if neg \<and> 2 ^ 63 < n then (- (2 ^ 63), Some ErrRange)
            else (if neg then - int n else int n, None)))"

text \<open>\<^verbatim>\<open>strconv.ParseBool\<close>: \<open>None\<close> is a syntax error (and the value \<^verbatim>\<open>false\<close>).\<close>

definition ParseBool :: "string \<Rightarrow> bool option" where
  "ParseBool s =
    (if s \<in> {''1'', ''t'', ''T'', ''TRUE'', ''true'', ''True''} then Some True
     else if s \<in> {''0'', ''f'', ''F'', ''FALSE'', ''false'', ''False''} then Some False
     else None)"

lemma byte_of_char_of [simp]: "n < 256 \<Longrightarrow> byte_of (char_of n) = n"
  by (simp add: byte_of_def)

lemma digit_char_simps [simp]:
  "d < 10 \<Longrightarrow> is_digit (digit_char d)" "d < 10 \<Longrightarrow> byte_of (digit_char d) = 48 + d"
  by (simp_all add: digit_char_def is_digit_def)

lemma nat_str_digits: "\<forall>c \<in> set (nat_str n). is_digit c"
proof (induction n rule: nat_str.induct)
  case (1 n)
  then show ?case by (cases "n < 10") (auto simp: nat_str.simps[of n])
qed

lemma nat_str_not_Nil [simp]: "nat_str n \<noteq> []"
  by (subst nat_str.simps) simp

lemma nat_str_head: "is_digit (hd (nat_str n))" "hd (nat_str n) \<in> set (nat_str n)"
  using nat_str_digits[of n] by (simp_all add: hd_in_set)

lemma parse_digits_append:
  "parse_digits a (xs @ ys) = (case parse_digits a xs of Inl e \<Rightarrow> Inl e | Inr b \<Rightarrow> parse_digits b ys)"
  by (induction xs arbitrary: a) (auto simp: Let_def)

lemma parse_digits_nat_str: "n < 2 ^ 64 \<Longrightarrow> parse_digits 0 (nat_str n) = Inr n"
proof (induction n rule: nat_str.induct)
  case (1 n)
  show ?case
  proof (cases "n < 10")
    case True
    then show ?thesis using "1.prems" by (simp add: nat_str.simps[of n] Let_def)
  next
    case False
    then have "parse_digits 0 (nat_str (n div 10)) = Inr (n div 10)" using "1.IH" "1.prems" by auto
    moreover have "n mod 10 < 10" by simp
    moreover have "n div 10 * 10 + n mod 10 = n" by simp
    ultimately show ?thesis using False "1.prems"
      by (subst nat_str.simps) (simp add: parse_digits_append Let_def del: mod_less_divisor)
  qed
qed

lemma is_digit_not_sign: "is_digit c \<Longrightarrow> c \<noteq> CHR ''+'' \<and> c \<noteq> CHR ''-''"
  by (auto simp: is_digit_def byte_of_def)

lemma parse_int_itoa:
  assumes "- (2 ^ 63) \<le> i" "i < 2 ^ 63"
  shows "ParseInt (itoa i) = (i, None)"
proof (cases "i < 0")
  case True
  then have "nat (- i) < 2 ^ 64" "\<not> 2 ^ 63 < nat (- i)" using assms by auto
  then show ?thesis using True
    by (simp add: itoa_def ParseInt_def ParseUint_def parse_digits_nat_str)
next
  case False
  have "nat i < 2 ^ 64" "\<not> 2 ^ 63 \<le> nat i" using assms False by auto
  moreover obtain c cs where n: "nat_str (nat i) = c # cs" by (cases "nat_str (nat i)") auto
  moreover have "is_digit c" using nat_str_head[of "nat i"] n by simp
  ultimately show ?thesis using False is_digit_not_sign[of c] parse_digits_nat_str[of "nat i"]
    by (simp add: itoa_def ParseInt_def ParseUint_def)
qed

lemma itoa_chars: "c \<in> set (itoa i) \<Longrightarrow> is_digit c \<or> c = CHR ''-''"
  using nat_str_digits by (auto simp: itoa_def split: if_splits)

lemma itoa_not_Nil [simp]: "itoa i \<noteq> []"
  by (simp add: itoa_def)

end
