(* ===== verification/GoFormat.thy ===== *)
theory GoFormat
  imports GoStrings "HOL-Library.Char_ord" "HOL-Library.List_Lexorder"
begin

text \<open>
  The formatting functions the collector builds requests with: hexadecimal digits, the \<^verbatim>\<open>%q\<close> verb
  (\<^verbatim>\<open>strconv.Quote\<close>), \<^verbatim>\<open>url.QueryEscape\<close> and \<^verbatim>\<open>url.Values.Encode\<close>, and conversions
  between integer widths. The lemmas are what the callers rely on: escaping is invertible, and a
  quoted operand reads back as one string literal whatever the operand contains.
\<close>

section \<open>Hexadecimal\<close>

definition lower_hex :: string where "lower_hex = ''0123456789abcdef''"
definition upper_hex :: string where "upper_hex = ''0123456789ABCDEF''"

definition hex2 :: "string \<Rightarrow> nat \<Rightarrow> string" where
  "hex2 ds b = [ds ! (b div 16), ds ! (b mod 16)]"

definition hex4 :: "string \<Rightarrow> nat \<Rightarrow> string" where
  "hex4 ds n = hex2 ds (n div 256) @ hex2 ds (n mod 256)"

definition hex8 :: "string \<Rightarrow> nat \<Rightarrow> string" where
  "hex8 ds n = hex4 ds (n div 65536) @ hex4 ds (n mod 65536)"

text \<open>\<^verbatim>\<open>unhex\<close>: the value of a hexadecimal digit of either case.\<close>

definition unhex :: "char \<Rightarrow> nat option" where
  "unhex c =
    (let b = byte_of c in
     if 48 \<le> b \<and> b \<le> 57 then Some (b - 48)
     else if 97 \<le> b \<and> b \<le> 102 then Some (b - 87)
     else if 65 \<le> b \<and> b \<le> 70 then Some (b - 55)
     else None)"

lemma unhex_hex: "n < 16 \<Longrightarrow> unhex (upper_hex ! n) = Some n \<and> unhex (lower_hex ! n) = Some n"
proof -
  have "\<forall>n\<in>set [0..<16]. unhex (upper_hex ! n) = Some n \<and> unhex (lower_hex ! n) = Some n"
    by code_simp
  then show "n < 16 \<Longrightarrow> ?thesis" by simp
qed

lemma byte_of_less: "byte_of c < 256"
  by (simp add: byte_of_def of_char_def)

lemma char_of_byte_of [simp]: "char_of (byte_of c) = c"
  by (simp add: byte_of_def)

section \<open>url.QueryEscape\<close>

definition unreserved :: "char \<Rightarrow> bool" where
  "unreserved c =
    (let b = byte_of c in
     65 \<le> b \<and> b \<le> 90 \<or> 97 \<le> b \<and> b \<le> 122 \<or> 48 \<le> b \<and> b \<le> 57 \<or> c \<in> set ''-_.~'')"

definition escape_byte :: "char \<Rightarrow> string" where
  "escape_byte c =
    (if c = CHR '' '' then ''+''
     else if unreserved c then [c]
     else CHR ''%'' # hex2 upper_hex (byte_of c))"

definition QueryEscape :: "string \<Rightarrow> string" where
  "QueryEscape s = concat (map escape_byte s)"

text \<open>\<^verbatim>\<open>url.QueryUnescape\<close>, what the receiving server applies.\<close>

fun QueryUnescape :: "string \<Rightarrow> string option" where
  "QueryUnescape [] = Some []"
| "QueryUnescape (c # cs) =
    (if c = CHR ''%'' then
       case cs of
         a # b # rest \<Rightarrow>
           (case (unhex a, unhex b) of
              (Some x, Some y) \<Rightarrow> map_option (Cons (char_of (x * 16 + y))) (QueryUnescape rest)
            | _ \<Rightarrow> None)
       | _ \<Rightarrow> None
     else if c = CHR ''+'' then map_option (Cons (CHR '' '')) (QueryUnescape cs)
     else map_option (Cons c) (QueryUnescape cs))"

lemma unescape_escape_byte:
  "QueryUnescape (escape_byte c @ rest) = map_option (Cons c) (QueryUnescape rest)"
proof -
  have "byte_of c div 16 < 16" "byte_of c mod 16 < 16" using byte_of_less[of c] by auto
  then have "unhex (upper_hex ! (byte_of c div 16)) = Some (byte_of c div 16)"
    "unhex (upper_hex ! (byte_of c mod 16)) = Some (byte_of c mod 16)"
    using unhex_hex by auto
  moreover have "char_of (byte_of c div 16 * 16 + byte_of c mod 16) = c" by simp
  moreover have "unreserved c \<Longrightarrow> c \<noteq> CHR ''%'' \<and> c \<noteq> CHR ''+''"
    by (auto simp: unreserved_def byte_of_def Let_def)
  ultimately show ?thesis by (auto simp: escape_byte_def hex2_def)
qed

lemma QueryUnescape_QueryEscape: "QueryUnescape (QueryEscape s) = Some s"
  by (induction s) (auto simp: QueryEscape_def unescape_escape_byte)

lemma hex_unreserved: "n < 16 \<Longrightarrow> unreserved (upper_hex ! n)"
proof -
  have "\<forall>n\<in>set [0..<16]. unreserved (upper_hex ! n)" by code_simp
  then show "n < 16 \<Longrightarrow> ?thesis" by simp
qed

lemma nibbles [simp]: "byte_of c div 16 < 16" "byte_of c mod 16 < 16"
  using byte_of_less[of c] by auto

lemma escape_byte_chars: "x \<in> set (escape_byte c) \<Longrightarrow> unreserved x \<or> x = CHR ''%'' \<or> x = CHR ''+''"
  by (auto simp: escape_byte_def hex2_def hex_unreserved split: if_splits)

lemma QueryEscape_chars: "x \<in> set (QueryEscape s) \<Longrightarrow> unreserved x \<or> x = CHR ''%'' \<or> x = CHR ''+''"
  using escape_byte_chars by (auto simp: QueryEscape_def)

lemma QueryEscape_no_sep [simp]: "CHR ''&'' \<notin> set (QueryEscape s)" "CHR ''='' \<notin> set (QueryEscape s)"
  by (auto dest!: QueryEscape_chars simp: unreserved_def byte_of_def Let_def)

section \<open>url.Values\<close>

text \<open>\<^verbatim>\<open>Values.Encode\<close> of values with one entry per key: pairs sorted by key.\<close>

definition encode_pair :: "string \<times> string \<Rightarrow> string" where
  "encode_pair kv = QueryEscape (fst kv) @ ''='' @ QueryEscape (snd kv)"

definition Encode :: "(string \<times> string) list \<Rightarrow> string" where
  "Encode kvs = Join (map encode_pair (sort_key fst kvs)) ''&''"

text \<open>How a server reads the query back.\<close>

definition parse_pair :: "string \<Rightarrow> (string option \<times> string option) option" where
  "parse_pair p = map_option (\<lambda>(k, v). (QueryUnescape k, QueryUnescape v)) (Cut p (CHR ''=''))"

lemma parse_encode_pair: "parse_pair (encode_pair kv) = Some (Some (fst kv), Some (snd kv))"
  by (simp add: parse_pair_def encode_pair_def QueryUnescape_QueryEscape)

lemma Split_Join:
  "ws \<noteq> [] \<Longrightarrow> list_all (\<lambda>w. c \<notin> set w) ws \<Longrightarrow> Split (Join ws [c]) c = ws"
  by (induction ws "[c]" rule: Join.induct) (auto simp: Split_no_sep Split_append)

lemma Encode_readable:
  assumes "kvs \<noteq> []"
  shows "map parse_pair (Split (Encode kvs) (CHR ''&''))
    = map (\<lambda>kv. Some (Some (fst kv), Some (snd kv))) (sort_key fst kvs)"
proof -
  have "list_all (\<lambda>w. CHR ''&'' \<notin> set w) (map encode_pair (sort_key fst kvs))"
    by (auto simp: list_all_iff encode_pair_def)
  moreover have "sort_key fst kvs \<noteq> []" using assms by (metis length_0_conv length_sort)
  ultimately have "Split (Encode kvs) (CHR ''&'') = map encode_pair (sort_key fst kvs)"
    by (simp add: Encode_def Split_Join)
  then show ?thesis by (simp add: parse_encode_pair)
qed

section \<open>strconv.Quote\<close>

text \<open>
  The \<^verbatim>\<open>%q\<close> verb. Which code points from U+0080 on are printable is Unicode data and stays the
  parameter \<open>isPrint\<close>; below that, the printable ones are 0x20 to 0x7e.
\<close>

definition quote_rune :: "(nat \<Rightarrow> bool) \<Rightarrow> rune \<Rightarrow> string" where
  "quote_rune isPrint r =
    (let c = rune_code r in
     if c = rune_error \<and> length (rune_raw r) = 1 then [CHR 0x5C, CHR ''x''] @ hex2 lower_hex (byte_of (hd (rune_raw r)))
     else if c = 34 \<or> c = 92 then CHR 0x5C # rune_raw r
     else if (if c < 128 then 32 \<le> c \<and> c \<le> 126 else isPrint c) then rune_raw r
     else if c = 7 then [CHR 0x5C, CHR ''a''] else if c = 8 then [CHR 0x5C, CHR ''b''] else if c = 12 then [CHR 0x5C, CHR ''f'']
     else if c = 10 then [CHR 0x5C, CHR ''n''] else if c = 13 then [CHR 0x5C, CHR ''r''] else if c = 9 then [CHR 0x5C, CHR ''t'']
     else if c = 11 then [CHR 0x5C, CHR ''v'']
     else if c < 32 \<or> c = 127 then [CHR 0x5C, CHR ''x''] @ hex2 lower_hex c
     else if c < 65536 then [CHR 0x5C, CHR ''u''] @ hex4 lower_hex c
     else [CHR 0x5C, CHR ''U''] @ hex8 lower_hex c)"

definition Quote :: "(nat \<Rightarrow> bool) \<Rightarrow> string \<Rightarrow> string" where
  "Quote isPrint s = CHR 0x22 # concat (map (quote_rune isPrint) (runes s)) @ [CHR 0x22]"

text \<open>
  How a query language finds the end of a string literal: at the first quotation mark that no
  backslash precedes. The result is the text behind the literal.
\<close>

fun skip_literal :: "string \<Rightarrow> string option" where
  "skip_literal [] = None"
| "skip_literal (c # cs) =
    (if c = CHR 0x22 then Some cs
     else if c = CHR 0x5C then (case cs of [] \<Rightarrow> None | d # ds \<Rightarrow> skip_literal ds)
     else skip_literal cs)"

definition plain :: "char \<Rightarrow> bool" where
  "plain c = (c \<noteq> CHR 0x22 \<and> c \<noteq> CHR 0x5C)"

lemma skip_plain: "list_all plain p \<Longrightarrow> skip_literal (p @ rest) = skip_literal rest"
  by (induction p) (auto simp: plain_def)

lemma hex_plain: "n < 16 \<Longrightarrow> plain (lower_hex ! n)"
proof -
  have "\<forall>n\<in>set [0..<16]. plain (lower_hex ! n)" by code_simp
  then show "n < 16 \<Longrightarrow> ?thesis" by simp
qed

lemma hex_digits_plain:
  "b < 256 \<Longrightarrow> list_all plain (hex2 lower_hex b)"
  "n < 65536 \<Longrightarrow> list_all plain (hex4 lower_hex n)"
  "k < 4294967296 \<Longrightarrow> list_all plain (hex8 lower_hex k)"
  by (auto simp: hex8_def hex4_def hex2_def intro!: hex_plain)

lemma utf8_value_bound: "utf8_value b t < 128 * 64 ^ length t"
proof -
  have "foldl (\<lambda>v c. v * 64 + byte_of c mod 64) a t < (a + 1) * 64 ^ length t" for a
  proof (induction t arbitrary: a)
    case (Cons c t)
    let ?a = "a * 64 + byte_of c mod 64"
    have "foldl (\<lambda>v c. v * 64 + byte_of c mod 64) ?a t < (?a + 1) * 64 ^ length t" by (rule Cons)
    also have "\<dots> \<le> ((a + 1) * 64) * 64 ^ length t" by (rule mult_le_mono1) (simp add: Suc_leI)
    finally show ?case by (simp add: algebra_simps)
  qed simp
  moreover have "b mod 2 ^ (7 - utf8_len b) + 1 \<le> (128::nat)"
  proof -
    have "b mod 2 ^ (7 - utf8_len b) < 2 ^ (7 - utf8_len b)" by simp
    also have "\<dots> \<le> (2::nat) ^ 7" by (rule power_increasing) auto
    finally show ?thesis by simp
  qed
  ultimately show ?thesis unfolding utf8_value_def
    by (meson less_le_trans mult_le_mono1)
qed


text \<open>The runes of a string: an ASCII byte for itself, or a group of bytes above 0x7f.\<close>

lemma decode_rune_shape:
  "byte_of c < 128 \<and> decode_rune c cs = Rune (byte_of c) [c]
   \<or> list_all (\<lambda>x. 128 \<le> byte_of x) (rune_raw (decode_rune c cs))
     \<and> rune_code (decode_rune c cs) < 4294967296"
proof -
  consider "utf8_len (byte_of c) = 1" | "utf8_len (byte_of c) \<noteq> 1" by blast
  then show ?thesis
  proof cases
    case 1
    then show ?thesis by (auto simp: decode_rune_def utf8_len_def Let_def split: if_splits)
  next
    case 2
    let ?t = "take (utf8_len (byte_of c) - 1) cs"
    have b: "128 \<le> byte_of c" using 2 by (auto simp: utf8_len_def split: if_splits)
    have "length ?t \<le> 3" by (auto simp: utf8_len_def)
    then have "(64::nat) ^ length ?t \<le> 64 ^ 3" by (rule power_increasing) simp
    then have "utf8_value (byte_of c) ?t < 4294967296"
      using utf8_value_bound[of "byte_of c" ?t] by simp
    moreover have "utf8_tail_ok (byte_of c) ?t \<Longrightarrow> list_all (\<lambda>x. 128 \<le> byte_of x) ?t"
      using tail_ok_cont[of "byte_of c" ?t] by (auto simp: list_all_iff is_cont_def)
    ultimately show ?thesis using b 2 by (auto simp: decode_rune_def rune_error_def Let_def)
  qed
qed

lemma runes_shape:
  "r \<in> set (runes s) \<Longrightarrow>
   (\<exists>c. byte_of c < 128 \<and> r = Rune (byte_of c) [c])
   \<or> list_all (\<lambda>x. 128 \<le> byte_of x) (rune_raw r) \<and> rune_code r < 4294967296"
proof (induction s rule: runes.induct)
  case (2 c cs)
  then show ?case using decode_rune_shape[of c cs] by (auto simp: runes.simps(2) Let_def)
qed simp

lemma runes_raw: "r \<in> set (runes s) \<Longrightarrow> rune_raw r \<noteq> []"
proof (induction s rule: runes.induct)
  case (2 c cs)
  then show ?case using decode_rune_raw[of c cs] by (auto simp: runes.simps(2) Let_def)
qed simp

definition skippable :: "string \<Rightarrow> bool" where
  "skippable q = (\<forall>rest. skip_literal (q @ rest) = skip_literal rest)"

lemma skippable_plain: "list_all plain p \<Longrightarrow> skippable p"
  by (simp add: skippable_def skip_plain)

lemma skippable_escape: "list_all plain p \<Longrightarrow> skippable ([CHR 0x5C, d] @ p)"
  "skippable [CHR 0x5C, d]"
  by (simp_all add: skippable_def skip_plain)

lemma skippable_if:
  "(b \<Longrightarrow> skippable p) \<Longrightarrow> (\<not> b \<Longrightarrow> skippable q) \<Longrightarrow> skippable (if b then p else q)"
  by simp

lemmas skippable_intros = skippable_if skippable_escape hex_digits_plain

lemma quote_rune_skippable:
  assumes "r \<in> set (runes s)"
  shows "skippable (quote_rune isPrint r)"
proof -
  have "rune_code r < 4294967296" using runes_shape[OF assms] by auto
  moreover have "skippable (CHR 0x5C # rune_raw r)" if "rune_code r = 34 \<or> rune_code r = 92"
  proof -
    obtain d p where "rune_raw r = d # p" using runes_raw[OF assms] by (cases "rune_raw r") auto
    moreover from this have "list_all plain p"
      using runes_shape[OF assms] by (auto simp: list_all_iff plain_def byte_of_def)
    ultimately show ?thesis using skippable_escape(1)[of p d] by simp
  qed
  moreover have "skippable (rune_raw r)" if "rune_code r \<noteq> 34" "rune_code r \<noteq> 92"
    using runes_shape[OF assms] that
    by (intro skippable_plain) (auto simp: list_all_iff plain_def byte_of_def)
  ultimately show ?thesis unfolding quote_rune_def Let_def
    by (intro skippable_intros) (simp_all add: byte_of_less, linarith)
qed

lemma Quote_closed: "skip_literal (tl (Quote isPrint s) @ rest) = Some rest"
proof -
  have "set rs \<subseteq> set (runes s) \<Longrightarrow>
      skip_literal (concat (map (quote_rune isPrint) rs) @ CHR 0x22 # rest) = Some rest" for rs
    by (induction rs) (auto simp: quote_rune_skippable[unfolded skippable_def])
  then show ?thesis by (simp add: Quote_def)
qed

section \<open>Integer widths\<close>

text \<open>\<^verbatim>\<open>int32(x)\<close> of a wider signed integer keeps the low 32 bits.\<close>

definition to_int32 :: "int \<Rightarrow> int" where
  "to_int32 x = (x + 2 ^ 31) mod 2 ^ 32 - 2 ^ 31"

lemma to_int32_id: "- (2 ^ 31) \<le> x \<Longrightarrow> x < 2 ^ 31 \<Longrightarrow> to_int32 x = x"
  by (simp add: to_int32_def)

lemma to_int32_range: "- (2 ^ 31) \<le> to_int32 x \<and> to_int32 x < 2 ^ 31"
  by (simp add: to_int32_def)

text \<open>\<^verbatim>\<open>int64\<close> arithmetic wraps around; so does \<^verbatim>\<open>time.Duration\<close>.\<close>

definition to_int64 :: "int \<Rightarrow> int" where
  "to_int64 x = (x + 2 ^ 63) mod 2 ^ 64 - 2 ^ 63"

lemma to_int64_id: "- (2 ^ 63) \<le> x \<Longrightarrow> x < 2 ^ 63 \<Longrightarrow> to_int64 x = x"
  by (simp add: to_int64_def)

section \<open>strconv.Unquote\<close>

text \<open>\<^verbatim>\<open>utf8.AppendRune\<close>: a code point that is no Unicode scalar value becomes U+FFFD.\<close>

definition valid_rune :: "nat \<Rightarrow> bool" where
  "valid_rune r = (r < 55296 \<or> 57343 < r \<and> r \<le> 1114111)"

definition encode_rune :: "nat \<Rightarrow> string" where
  "encode_rune r =
    (if r < 128 then [char_of r]
     else if r < 2048 then [char_of (192 + r div 64), char_of (128 + r mod 64)]
     else if \<not> valid_rune r then [CHR 0xEF, CHR 0xBF, CHR 0xBD]
     else if r < 65536 then [char_of (224 + r div 4096), char_of (128 + r div 64 mod 64), char_of (128 + r mod 64)]
     else [char_of (240 + r div 262144), char_of (128 + r div 4096 mod 64), char_of (128 + r div 64 mod 64),
           char_of (128 + r mod 64)])"

fun unhex_all :: "nat \<Rightarrow> string \<Rightarrow> nat option" where
  "unhex_all v [] = Some v"
| "unhex_all v (c # cs) = (case unhex c of None \<Rightarrow> None | Some x \<Rightarrow> unhex_all (v * 16 + x) cs)"

definition octal :: "char \<Rightarrow> nat option" where
  "octal c = (if 48 \<le> byte_of c \<and> byte_of c \<le> 55 then Some (byte_of c - 48) else None)"

text \<open>The escapes of \<^verbatim>\<open>UnquoteChar\<close> behind a backslash: the bytes denoted and the rest.\<close>

definition unquote_escape :: "char \<Rightarrow> char \<Rightarrow> string \<Rightarrow> (string \<times> string) option" where
  "unquote_escape quote c s =
    (let hexadecimal = (\<lambda>n. if length s < n then None else unhex_all 0 (take n s)) in
     if c = CHR ''a'' then Some ([CHR 0x07], s) else if c = CHR ''b'' then Some ([CHR 0x08], s)
     else if c = CHR ''f'' then Some ([CHR 0x0C], s) else if c = CHR ''n'' then Some ([CHR 0x0A], s)
     else if c = CHR ''r'' then Some ([CHR 0x0D], s) else if c = CHR ''t'' then Some ([CHR 0x09], s)
     else if c = CHR ''v'' then Some ([CHR 0x0B], s)
     else if c = CHR ''x'' then map_option (\<lambda>v. ([char_of v], drop 2 s)) (hexadecimal 2)
     else if c = CHR ''u'' \<or> c = CHR ''U'' then
       (let n = (if c = CHR ''u'' then 4 else 8) in
        case hexadecimal n of None \<Rightarrow> None
        | Some v \<Rightarrow> if valid_rune v then Some (encode_rune v, drop n s) else None)
     else if octal c \<noteq> None then
       (case s of
          d # e # rest \<Rightarrow>
            (case (octal d, octal e) of
               (Some x, Some y) \<Rightarrow>
                 (let v = (the (octal c) * 8 + x) * 8 + y in if v > 255 then None else Some ([char_of v], rest))
             | _ \<Rightarrow> None)
        | _ \<Rightarrow> None)
     else if c = CHR 0x5C then Some ([CHR 0x5C], s)
     else if c = CHR 0x22 \<or> c = CHR 0x27 then (if c = quote then Some ([c], s) else None)
     else None)"

definition unquote_char :: "char \<Rightarrow> string \<Rightarrow> (string \<times> string) option" where
  "unquote_char quote s =
    (case s of [] \<Rightarrow> None
     | c # cs \<Rightarrow>
        if c = quote then None
        else if 128 \<le> byte_of c then
          (let r = decode_rune c cs in Some (encode_rune (rune_code r), drop (length (rune_raw r)) s))
        else if c \<noteq> CHR 0x5C then Some ([c], cs)
        else case cs of [] \<Rightarrow> None | d # ds \<Rightarrow> unquote_escape quote d ds)"

lemma unquote_escape_length: "unquote_escape q c s = Some (b, t) \<Longrightarrow> length t \<le> length s"
  by (auto simp: unquote_escape_def Let_def split: if_splits option.splits list.splits)

lemma unquote_char_length: "unquote_char q s = Some (b, t) \<Longrightarrow> length t < length s"
proof -
  have "length (drop (length (rune_raw (decode_rune c cs))) (c # cs)) < length (c # cs)" for c cs
    using decode_rune_raw[of c cs] by fastforce
  then show "unquote_char q s = Some (b, t) \<Longrightarrow> ?thesis"
    by (auto simp: unquote_char_def Let_def split: if_splits list.splits dest!: unquote_escape_length)
qed

text \<open>The loop over the body of a literal: the bytes denoted and what follows the closing quote.\<close>

function unquote_body :: "char \<Rightarrow> string \<Rightarrow> string \<Rightarrow> (string \<times> string) option" where
  "unquote_body q acc s =
    (case s of [] \<Rightarrow> None
     | c # cs \<Rightarrow>
        if c = q then Some (acc, cs)
        else if c = CHR 0x0A then None
        else case unquote_char q s of
               None \<Rightarrow> None
             | Some (b, t) \<Rightarrow>
                 if q = CHR 0x27
                 then (case t of [] \<Rightarrow> None | d # ds \<Rightarrow> if d = q then Some (acc @ b, ds) else None)
                 else unquote_body q (acc @ b) t)"
  by pat_completeness auto
termination
  by (relation "measure (\<lambda>(q, acc, s). length s)") (auto dest: unquote_char_length)

declare unquote_body.simps [simp del]

definition Unquote :: "string \<Rightarrow> string option" where
  "Unquote s =
    (case s of
       q # rest \<Rightarrow>
         if q = CHR 0x60 then
           (case Cut rest q of
              Some (body, []) \<Rightarrow> Some (filter (\<lambda>c. c \<noteq> CHR 0x0D) body)
            | _ \<Rightarrow> None)
         else if q = CHR 0x22 \<or> q = CHR 0x27 then
           (case unquote_body q [] rest of Some (b, []) \<Rightarrow> Some b | _ \<Rightarrow> None)
         else None
     | [] \<Rightarrow> None)"

definition bare :: "char \<Rightarrow> bool" where
  "bare c = (32 \<le> byte_of c \<and> byte_of c \<le> 126 \<and> c \<noteq> CHR 0x22 \<and> c \<noteq> CHR 0x5C)"

lemma unquote_body_bare:
  "list_all bare s \<Longrightarrow> unquote_body (CHR 0x22) acc (s @ CHR 0x22 # rest) = Some (acc @ s, rest)"
proof (induction s arbitrary: acc)
  case (Cons c s)
  then have "bare c" by simp
  then have "c \<noteq> CHR 0x22" "c \<noteq> CHR 0x0A" "c \<noteq> CHR 0x5C" "byte_of c < 128"
    by (auto simp: bare_def byte_of_def)
  then show ?case using Cons
    by (subst unquote_body.simps) (simp add: unquote_char_def)
qed (subst unquote_body.simps, simp)

lemma Unquote_bare: "list_all bare s \<Longrightarrow> Unquote (CHR 0x22 # s @ [CHR 0x22]) = Some s"
  by (simp add: Unquote_def unquote_body_bare)

lemma runes_bare: "list_all bare s \<Longrightarrow> runes s = map (\<lambda>c. Rune (byte_of c) [c]) s"
  by (induction s) (auto simp: runes_ascii bare_def)

lemma quote_rune_bare:
  assumes "bare c"
  shows "quote_rune isPrint (Rune (byte_of c) [c]) = [c]"
proof -
  have "char_of (34::nat) = CHR 0x22" "char_of (92::nat) = CHR 0x5C" by code_simp+
  then have "byte_of c \<noteq> 34" "byte_of c \<noteq> 92"
    using assms by (metis bare_def char_of_byte_of)+
  then show ?thesis using assms by (auto simp: quote_rune_def bare_def rune_error_def Let_def)
qed

lemma Quote_bare: "list_all bare s \<Longrightarrow> Quote isPrint s = CHR 0x22 # s @ [CHR 0x22]"
proof -
  assume a: "list_all bare s"
  then have "concat (map (quote_rune isPrint) (map (\<lambda>c. Rune (byte_of c) [c]) s)) = s"
    by (induction s) (auto simp: quote_rune_bare)
  then show ?thesis using runes_bare[OF a] by (simp add: Quote_def)
qed

end
