(* ===== verification/Proto.thy ===== *)
theory Proto
  imports GoFormat "HOL-Library.Word"
begin

text \<open>
  The messages of \<^verbatim>\<open>proto/alert.proto\<close> as the generated Go structs of \<^verbatim>\<open>proto/alert.pb.go\<close> hold
  them, without the bookkeeping fields of the protobuf runtime. A \<^verbatim>\<open>float64\<close> is only carried, so it
  is its 64-bit pattern; an \<^verbatim>\<open>int64\<close> or \<^verbatim>\<open>int32\<close> is an \<open>int\<close>, converted explicitly where the
  source converts. \<open>go_time\<close> is what the collector uses of \<^verbatim>\<open>time.Time\<close>.
\<close>

section \<open>Time\<close>

record go_time =
  unix_sec :: int
  unix_nsec :: nat

text \<open>The zero \<^verbatim>\<open>time.Time\<close> is January 1, year 1, 00:00:00 UTC.\<close>

definition zero_time :: go_time where
  "zero_time = \<lparr>unix_sec = -62135596800, unix_nsec = 0\<rparr>"

definition IsZero :: "go_time \<Rightarrow> bool" where
  "IsZero t = (t = zero_time)"

definition Unix :: "go_time \<Rightarrow> int" where
  "Unix t = unix_sec t"

section \<open>Messages\<close>

type_synonym float64 = "64 word"

record DataPoint =
  dp_Timestamp :: int
  dp_Value :: float64

record MetricSeries =
  ms_MetricName :: string
  ms_Description :: string
  ms_Unit :: string
  ms_Points :: "DataPoint list"

record PodMeta =
  pm_PodName :: string
  pm_MemoryLimit :: string
  pm_MemoryRequest :: string
  pm_CpuLimit :: string
  pm_CpuRequest :: string
  pm_NodeName :: string
  pm_RestartCount :: int
  pm_Phase :: string

record Label =
  lb_Name :: string
  lb_Value :: string

record KubernetesEvent =
  ev_Type :: string
  ev_Reason :: string
  ev_Message :: string
  ev_FirstTimestamp :: int
  ev_LastTimestamp :: int
  ev_Count :: int
  ev_InvolvedObjectName :: string

record AlertTarget =
  tg_TargetType :: string
  tg_PodName :: string
  tg_Deployment :: string
  tg_Daemonset :: string
  tg_Node :: string
  tg_Pvc :: string
  tg_Namespace :: string
  tg_ResolvedPods :: "string list"

record AlertPayload =
  ap_ClusterId :: string
  ap_AlertName :: string
  ap_Severity :: string
  ap_Namespace :: string
  ap_PodName :: string
  ap_FiredAt :: int
  ap_Summary :: string
  ap_Description :: string
  ap_Target :: AlertTarget
  ap_RedactedLogs :: "string list"
  ap_Metrics :: "MetricSeries list"
  ap_PodMetas :: "PodMeta list"
  ap_Labels :: "Label list"
  ap_TotalLogLines :: int
  ap_RedactedLogLines :: int
  ap_TotalReplacements :: int
  ap_Status :: string
  ap_GrafanaBaseUrl :: string
  ap_Events :: "KubernetesEvent list"

record BootstrapRequest =
  br_ClusterId :: string
  br_BootstrapToken :: string
  br_Csr :: string

record BootstrapResponse =
  brs_Certificate :: string
  brs_Ca :: string

record SignCSRRequest =
  sr_Csr :: string

record SignCSRResponse =
  srs_Certificate :: string
  srs_Ca :: string

text \<open>\<^verbatim>\<open>&pb.AlertTarget{Namespace: ns}\<close> and \<^verbatim>\<open>&pb.PodMeta{}\<close>: the other fields are zero.\<close>

definition empty_target :: "string \<Rightarrow> AlertTarget" where
  "empty_target ns =
    \<lparr>tg_TargetType = '''', tg_PodName = '''', tg_Deployment = '''', tg_Daemonset = '''', tg_Node = '''',
     tg_Pvc = '''', tg_Namespace = ns, tg_ResolvedPods = []\<rparr>"

end
