(* ===== verification/Webhook.thy ===== *)
theory Webhook
  imports Metrics Proto "HOL-Library.Multiset"
begin

text \<open>
  \<^verbatim>\<open>internal/webhook\<close>: the AlertManager endpoint. Requests are served by concurrent handlers that
  share the semaphore channel of the \<^verbatim>\<open>Handler\<close>, and every admitted alert runs in its own
  goroutine. The operations of the code are the functions \<open>ServeHTTP_body\<close> (everything before the loop)
  and \<open>offer\<close> (the body of the loop); \<open>webhook_step\<close> interleaves them with the workers in any order.
  \<open>semaphore\<close> is the interface the workers rely on, interpreted on the buffered channel.
\<close>

section \<open>Data\<close>

record Alert =
  al_Status :: string
  al_Labels :: strmap
  al_Annotations :: strmap
  al_StartsAt :: go_time
  al_EndsAt :: go_time

record AlertManagerPayload =
  am_Alerts :: "Alert list"

text \<open>An incoming request: its method and what reading its body to the end gives.\<close>

record incoming =
  in_Method :: string
  in_Body :: "bytes res"

type_synonym reply = "int \<times> string"

text \<open>A buffered channel of empty structs is its capacity and the number of elements in it. A send in a
  \<^verbatim>\<open>select\<close> with a \<^verbatim>\<open>default\<close> branch is \<open>try_send\<close>; a receive on an empty channel blocks,
  which is \<open>None\<close>.\<close>

record channel =
  ch_cap :: nat
  ch_len :: nat

definition try_send :: "channel \<Rightarrow> channel option" where
  "try_send c = (if ch_len c < ch_cap c then Some (c\<lparr>ch_len := ch_len c + 1\<rparr>) else None)"

definition receive :: "channel \<Rightarrow> channel option" where
  "receive c = (if ch_len c > 0 then Some (c\<lparr>ch_len := ch_len c - 1\<rparr>) else None)"

record Handler =
  hn_sem :: channel

section \<open>Operations\<close>

definition NewHandler :: "int \<Rightarrow> Handler" where
  "NewHandler maxConcurrent =
    (let maxConcurrent' = (if maxConcurrent \<le> 0 then 50 else maxConcurrent) in
     \<lparr>hn_sem = \<lparr>ch_cap = nat maxConcurrent', ch_len = 0\<rparr>\<rparr>)"

text \<open>\<^verbatim>\<open>ServeHTTP\<close> up to the loop: the reply that ends it, or the alerts to offer. \<open>unmarshal\<close> is
  \<^verbatim>\<open>json.Unmarshal\<close> into an \<^verbatim>\<open>AlertManagerPayload\<close>; \<^verbatim>\<open>http.Error\<close> ends the text with a newline.\<close>

definition ServeHTTP_body :: "(bytes \<Rightarrow> AlertManagerPayload res) \<Rightarrow> incoming \<Rightarrow> reply + Alert list" where
  "ServeHTTP_body unmarshal r =
    (if in_Method r \<noteq> ''POST'' then Inl (405, ''method not allowed'' @ [CHR 0x0A])
     else case in_Body r of
       Inl e \<Rightarrow> Inl (400, ''bad request'' @ [CHR 0x0A])
     | Inr body \<Rightarrow>
        (case unmarshal body of
           Inl e \<Rightarrow> Inl (400, ''bad request'' @ [CHR 0x0A])
         | Inr payload \<Rightarrow> Inr (am_Alerts payload)))"

text \<open>The loop body: a goroutine is started for the alert exactly when the send succeeds.\<close>

definition offer :: "Handler \<Rightarrow> metrics \<Rightarrow> bool \<times> Handler \<times> metrics" where
  "offer h m =
    (case try_send (hn_sem h) of
       Some sem \<Rightarrow> (True, h\<lparr>hn_sem := sem\<rparr>, m)
     | None \<Rightarrow> (False, h, inc_AlertsDropped m))"

section \<open>The semaphore interface\<close>

locale semaphore =
  fixes acquire :: "'s \<Rightarrow> 's option"
    and release :: "'s \<Rightarrow> 's option"
    and held :: "'s \<Rightarrow> nat"
    and limit :: "'s \<Rightarrow> nat"
  assumes acquire_Some: "acquire s = Some s' \<Longrightarrow> held s < limit s \<and> held s' = Suc (held s) \<and> limit s' = limit s"
    and acquire_None: "acquire s = None \<Longrightarrow> limit s \<le> held s"
    and release_Some: "release s = Some s' \<Longrightarrow> held s = Suc (held s') \<and> limit s' = limit s"
    and release_None: "release s = None \<Longrightarrow> held s = 0"
begin

lemma acquire_iff: "acquire s = None \<longleftrightarrow> limit s \<le> held s"
  using acquire_None acquire_Some by (metis leD option.exhaust)

text \<open>A pool of workers that each hold one unit.\<close>

lemma admit_keeps:
  "acquire s = Some s' \<Longrightarrow> held s = size pool \<Longrightarrow> held s \<le> limit s
   \<Longrightarrow> held s' = size (add_mset a pool) \<and> held s' \<le> limit s'"
  using acquire_Some by fastforce

lemma leave_keeps:
  "release s = Some s' \<Longrightarrow> held s = size pool \<Longrightarrow> held s \<le> limit s \<Longrightarrow> a \<in># pool
   \<Longrightarrow> held s' = size (pool - {#a#}) \<and> held s' \<le> limit s'"
  using release_Some by (fastforce simp: size_Diff_singleton)

lemma leave_never_blocks: "held s = size pool \<Longrightarrow> a \<in># pool \<Longrightarrow> \<exists>s'. release s = Some s'"
  using release_None by (metis empty_iff option.exhaust set_mset_empty size_eq_0_iff_empty)

end

interpretation sem: semaphore try_send receive ch_len ch_cap
  by unfold_locales (auto simp: try_send_def receive_def split: if_splits)

section \<open>Interleavings\<close>

text \<open>\<open>wh_pending\<close> has one entry per handler at work: the alerts it has still to offer.\<close>

record webhook =
  wh_handler :: Handler
  wh_metrics :: metrics
  wh_pending :: "Alert list list"
  wh_accepted :: "Alert multiset"
  wh_running :: "Alert multiset"
  wh_finished :: "Alert multiset"
  wh_dropped :: "Alert multiset"
  wh_replies :: "reply list"
  wh_crashed :: bool

definition webhook_init :: "int \<Rightarrow> metrics \<Rightarrow> webhook" where
  "webhook_init maxConcurrent m =
    \<lparr>wh_handler = NewHandler maxConcurrent, wh_metrics = m, wh_pending = [], wh_accepted = {#},
     wh_running = {#}, wh_finished = {#}, wh_dropped = {#}, wh_replies = [], wh_crashed = False\<rparr>"

text \<open>The steps of a handler at work: offer the next alert, or reply when none is left.\<close>

inductive handler_step :: "webhook \<Rightarrow> webhook \<Rightarrow> bool" where
  admit: "\<lbrakk>wh_pending s = xs @ (a # as) # ys; offer (wh_handler s) (wh_metrics s) = (True, h, m)\<rbrakk>
    \<Longrightarrow> handler_step s (s\<lparr>wh_handler := h, wh_metrics := m, wh_pending := xs @ as # ys,
          wh_running := add_mset a (wh_running s)\<rparr>)"
| drop: "\<lbrakk>wh_pending s = xs @ (a # as) # ys; offer (wh_handler s) (wh_metrics s) = (False, h, m)\<rbrakk>
    \<Longrightarrow> handler_step s (s\<lparr>wh_handler := h, wh_metrics := m, wh_pending := xs @ as # ys,
          wh_dropped := add_mset a (wh_dropped s)\<rparr>)"
| ack: "wh_pending s = xs @ [] # ys
    \<Longrightarrow> handler_step s (s\<lparr>wh_pending := xs @ ys, wh_replies := wh_replies s @ [(200, ''ok'')]\<rparr>)"

text \<open>All steps: requests come in, handlers work, workers return their slot or panic, which ends the
  process.\<close>

inductive webhook_step :: "(bytes \<Rightarrow> AlertManagerPayload res) \<Rightarrow> webhook \<Rightarrow> webhook \<Rightarrow> bool"
  for unmarshal :: "bytes \<Rightarrow> AlertManagerPayload res" where
  refuse: "\<lbrakk>\<not> wh_crashed s; ServeHTTP_body unmarshal r = Inl reply\<rbrakk>
    \<Longrightarrow> webhook_step unmarshal s (s\<lparr>wh_replies := wh_replies s @ [reply]\<rparr>)"
| accept: "\<lbrakk>\<not> wh_crashed s; ServeHTTP_body unmarshal r = Inr alerts\<rbrakk>
    \<Longrightarrow> webhook_step unmarshal s (s\<lparr>wh_pending := wh_pending s @ [alerts],
          wh_accepted := wh_accepted s + mset alerts\<rparr>)"
| handle: "\<lbrakk>\<not> wh_crashed s; handler_step s s'\<rbrakk> \<Longrightarrow> webhook_step unmarshal s s'"
| finish: "\<lbrakk>\<not> wh_crashed s; a \<in># wh_running s; receive (hn_sem (wh_handler s)) = Some c\<rbrakk>
    \<Longrightarrow> webhook_step unmarshal s (s\<lparr>wh_handler := (wh_handler s)\<lparr>hn_sem := c\<rparr>,
          wh_running := wh_running s - {#a#}, wh_finished := add_mset a (wh_finished s)\<rparr>)"
| crash: "\<lbrakk>\<not> wh_crashed s; a \<in># wh_running s\<rbrakk> \<Longrightarrow> webhook_step unmarshal s (s\<lparr>wh_crashed := True\<rparr>)"

definition webhook_reachable :: "(bytes \<Rightarrow> AlertManagerPayload res) \<Rightarrow> int \<Rightarrow> metrics \<Rightarrow> webhook \<Rightarrow> bool" where
  "webhook_reachable unmarshal n m s = (webhook_step unmarshal)\<^sup>*\<^sup>* (webhook_init n m) s"

section \<open>Facts\<close>

lemma offer_cases:
  "offer h m = (b, h', m') \<Longrightarrow>
     (b \<and> try_send (hn_sem h) = Some (hn_sem h') \<and> m' = m)
   \<or> (\<not> b \<and> try_send (hn_sem h) = None \<and> h' = h \<and> m' = inc_AlertsDropped m)"
  by (auto simp: offer_def split: option.splits)

definition pool_ok :: "nat \<Rightarrow> webhook \<Rightarrow> bool" where
  "pool_ok cap s = (let c = hn_sem (wh_handler s) in
     ch_cap c = cap \<and> ch_len c = size (wh_running s) \<and> ch_len c \<le> ch_cap c)"

definition accounts_ok :: "nat \<Rightarrow> webhook \<Rightarrow> bool" where
  "accounts_ok d s =
    (wh_accepted s = mset (concat (wh_pending s)) + wh_running s + wh_finished s + wh_dropped s
     \<and> AlertsDropped (wh_metrics s) = d + size (wh_dropped s))"

lemma handler_step_pool: "handler_step s s' \<Longrightarrow> pool_ok cap s \<Longrightarrow> pool_ok cap s'"
proof (induction rule: handler_step.induct)
  case (admit s xs a as ys h m)
  then show ?case
    using offer_cases[OF admit(2)] sem.admit_keeps[of _ "hn_sem h" "wh_running s" a]
      sem.acquire_Some[of "hn_sem (wh_handler s)" "hn_sem h"]
    by (auto simp: pool_ok_def Let_def)
next
  case (drop s xs a as ys h m)
  then show ?case using offer_cases[OF drop(2)] by (auto simp: pool_ok_def Let_def)
qed (simp add: pool_ok_def)

lemma handler_step_accounts: "handler_step s s' \<Longrightarrow> accounts_ok d s \<Longrightarrow> accounts_ok d s'"
proof (induction rule: handler_step.induct)
  case (admit s xs a as ys h m)
  then show ?case using offer_cases[OF admit(2)] by (auto simp: accounts_ok_def)
next
  case (drop s xs a as ys h m)
  then show ?case using offer_cases[OF drop(2)] by (auto simp: accounts_ok_def)
qed (simp add: accounts_ok_def)

lemma webhook_step_pool: "webhook_step u s s' \<Longrightarrow> pool_ok cap s \<Longrightarrow> pool_ok cap s'"
proof (induction rule: webhook_step.induct)
  case (finish s a c)
  then show ?case
    using sem.leave_keeps[of _ c "wh_running s" a] sem.release_Some[of _ c] by (auto simp: pool_ok_def Let_def)
qed (auto simp: pool_ok_def handler_step_pool[unfolded pool_ok_def])

lemma webhook_step_accounts: "webhook_step u s s' \<Longrightarrow> accounts_ok d s \<Longrightarrow> accounts_ok d s'"
proof (induction rule: webhook_step.induct)
  case (handle s s')
  then show ?case by (simp add: handler_step_accounts)
qed (auto simp: accounts_ok_def)

lemma reachable_ok:
  assumes "webhook_reachable u n m s"
  shows "pool_ok (if n \<le> 0 then 50 else nat n) s" "accounts_ok (AlertsDropped m) s"
proof -
  have i: "pool_ok (if n \<le> 0 then 50 else nat n) (webhook_init n m)" "accounts_ok (AlertsDropped m) (webhook_init n m)"
    by (auto simp: pool_ok_def accounts_ok_def webhook_init_def NewHandler_def Let_def)
  have "(webhook_step u)\<^sup>*\<^sup>* (webhook_init n m) s" using assms by (simp add: webhook_reachable_def)
  then have "pool_ok (if n \<le> 0 then 50 else nat n) s \<and> accounts_ok (AlertsDropped m) s"
    by (induction rule: rtranclp_induct) (use i webhook_step_pool webhook_step_accounts in blast)+
  then show "pool_ok (if n \<le> 0 then 50 else nat n) s" "accounts_ok (AlertsDropped m) s" by auto
qed

text \<open>What the handlers at work still have to do: one step per alert and one for the reply.\<close>

definition work_left :: "webhook \<Rightarrow> nat" where
  "work_left s = sum_list (map (\<lambda>as. Suc (length as)) (wh_pending s))"

lemma handler_step_work: "handler_step s s' \<Longrightarrow> work_left s = Suc (work_left s')"
  by (induction rule: handler_step.induct) (auto simp: work_left_def)

lemma handler_steps_work: "(handler_step ^^ k) s s' \<Longrightarrow> work_left s = k + work_left s'"
  by (induction k arbitrary: s') (auto dest: handler_step_work)

lemma handler_step_enabled:
  assumes "as \<in> set (wh_pending s)"
  shows "\<exists>s'. handler_step s s'"
proof -
  obtain xs ys where p: "wh_pending s = xs @ as # ys" using assms by (meson split_list)
  show ?thesis
  proof (cases as)
    case (Cons a as')
    obtain b h m where "offer (wh_handler s) (wh_metrics s) = (b, h, m)" by (metis prod_cases3)
    then show ?thesis using p Cons by (cases b) (auto intro: handler_step.admit handler_step.drop)
  qed (use p handler_step.ack in blast)
qed

lemma work_left_0: "work_left s = 0 \<longleftrightarrow> wh_pending s = []"
  by (cases "wh_pending s") (auto simp: work_left_def)

lemma handler_step_replies:
  "handler_step s s' \<Longrightarrow> wh_replies s' @ replicate (length (wh_pending s')) (200, ''ok'')
     = wh_replies s @ replicate (length (wh_pending s)) (200, ''ok'')"
  by (induction rule: handler_step.induct) (auto simp: replicate_add)

lemma handler_steps_replies:
  "(handler_step ^^ k) s s' \<Longrightarrow> wh_replies s' @ replicate (length (wh_pending s')) (200, ''ok'')
     = wh_replies s @ replicate (length (wh_pending s)) (200, ''ok'')"
  by (induction k arbitrary: s') (auto dest: handler_step_replies)

text \<open>One request with two copies of an alert, at a ceiling of one worker: the first is admitted, the
  second dropped.\<close>

definition demo_alert :: Alert where
  "demo_alert = \<lparr>al_Status = ''firing'', al_Labels = [(''alertname'', ''X'')], al_Annotations = [],
     al_StartsAt = zero_time, al_EndsAt = zero_time\<rparr>"

definition demo_unmarshal :: "bytes \<Rightarrow> AlertManagerPayload res" where
  "demo_unmarshal b = Inr \<lparr>am_Alerts = [demo_alert, demo_alert]\<rparr>"

definition demo_webhook :: webhook where
  "demo_webhook = (webhook_init 1 no_metrics)
    \<lparr>wh_handler := \<lparr>hn_sem = \<lparr>ch_cap = 1, ch_len = 1\<rparr>\<rparr>, wh_metrics := inc_AlertsDropped no_metrics,
     wh_pending := [[]], wh_accepted := {#demo_alert, demo_alert#}, wh_running := {#demo_alert#},
     wh_dropped := {#demo_alert#}\<rparr>"

lemma demo_webhook_reachable: "webhook_reachable demo_unmarshal 1 no_metrics demo_webhook"
proof -
  let ?s0 = "webhook_init 1 no_metrics"
  let ?s1 = "?s0\<lparr>wh_pending := [[demo_alert, demo_alert]], wh_accepted := {#demo_alert, demo_alert#}\<rparr>"
  let ?s2 = "?s1\<lparr>wh_handler := \<lparr>hn_sem = \<lparr>ch_cap = 1, ch_len = 1\<rparr>\<rparr>, wh_pending := [[demo_alert]],
                 wh_running := {#demo_alert#}\<rparr>"
  note init = webhook_init_def NewHandler_def Let_def offer_def try_send_def
  have 1: "webhook_step demo_unmarshal ?s0 ?s1"
    using webhook_step.accept[of ?s0 demo_unmarshal "\<lparr>in_Method = ''POST'', in_Body = Inr ''x''\<rparr>" "[demo_alert, demo_alert]"]
    by (simp add: ServeHTTP_body_def demo_unmarshal_def init)
  have "handler_step ?s1 ?s2"
    using handler_step.admit[of ?s1 "[]" demo_alert "[demo_alert]" "[]" "\<lparr>hn_sem = \<lparr>ch_cap = 1, ch_len = 1\<rparr>\<rparr>" no_metrics]
    by (simp add: init)
  then have 2: "webhook_step demo_unmarshal ?s1 ?s2" by (rule webhook_step.handle[rotated]) (simp add: init)
  have "handler_step ?s2 demo_webhook"
    using handler_step.drop[of ?s2 "[]" demo_alert "[]" "[]" "\<lparr>hn_sem = \<lparr>ch_cap = 1, ch_len = 1\<rparr>\<rparr>" "inc_AlertsDropped no_metrics"]
    by (simp add: demo_webhook_def init)
  then have 3: "webhook_step demo_unmarshal ?s2 demo_webhook" by (rule webhook_step.handle[rotated]) (simp add: init)
  show ?thesis unfolding webhook_reachable_def
    using 1 2 3 by (meson converse_rtranclp_into_rtranclp rtranclp.rtrancl_refl)
qed

section \<open>Properties\<close>

text \<open>In every reachable interleaving of requests, handlers and workers the semaphore counts the
  running workers, which never exceed the configured ceiling (50 when it is not positive); no alert is
  lost or duplicated: each accepted one is waiting to be offered, running, finished or dropped, and
  each dropped one is counted. The next alert offered is admitted exactly when a worker slot is free.\<close>

theorem webhook_accounting:
  assumes "webhook_reachable unmarshal n m s"
  shows "ch_len (hn_sem (wh_handler s)) = size (wh_running s)
    \<and> size (wh_running s) \<le> (if n \<le> 0 then 50 else nat n)
    \<and> wh_accepted s = mset (concat (wh_pending s)) + wh_running s + wh_finished s + wh_dropped s
    \<and> AlertsDropped (wh_metrics s) = AlertsDropped m + size (wh_dropped s)
    \<and> (fst (offer (wh_handler s) (wh_metrics s)) \<longleftrightarrow> size (wh_running s) < (if n \<le> 0 then 50 else nat n))"
proof -
  have "fst (offer h m') \<longleftrightarrow> ch_len (hn_sem h) < ch_cap (hn_sem h)" for h m'
    by (simp add: offer_def try_send_def)
  then show ?thesis using reachable_ok[OF assms] by (auto simp: pool_ok_def accounts_ok_def Let_def)
qed

theorem webhook_accounting_witness:
  "webhook_reachable demo_unmarshal 1 no_metrics demo_webhook
   \<and> wh_dropped demo_webhook = {#demo_alert#} \<and> AlertsDropped (wh_metrics demo_webhook) = 1
   \<and> \<not> fst (offer (wh_handler demo_webhook) (wh_metrics demo_webhook))"
  using webhook_accounting[OF demo_webhook_reachable] demo_webhook_reachable
  by (simp add: demo_webhook_def no_metrics_def)

text \<open>The endpoint never wedges. Whatever the workers do, the handlers at work can always go on; any
  schedule of them ends within one step per alert and one per reply, and when it has ended every
  accepted request has been answered with 200. No handler waits for a worker, and a worker that ends
  is never blocked on returning its slot.\<close>

theorem webhook_never_wedges:
  assumes "webhook_reachable unmarshal n m s"
  shows "(wh_pending s \<noteq> [] \<longrightarrow> (\<exists>s'. handler_step s s'))
    \<and> (\<forall>k s'. (handler_step ^^ k) s s' \<longrightarrow> k \<le> work_left s)
    \<and> (\<forall>k s'. (handler_step ^^ k) s s' \<and> (\<nexists>s''. handler_step s' s'') \<longrightarrow>
         wh_pending s' = [] \<and> wh_replies s' = wh_replies s @ replicate (length (wh_pending s)) (200, ''ok''))
    \<and> (\<forall>a \<in># wh_running s. \<exists>c. receive (hn_sem (wh_handler s)) = Some c)"
proof (intro conjI allI impI ballI)
  show "\<exists>s'. handler_step s s'" if "wh_pending s \<noteq> []"
    using that handler_step_enabled by (metis list.set_intros(1) neq_Nil_conv)
  show "k \<le> work_left s" if "(handler_step ^^ k) s s'" for k s'
    using handler_steps_work[OF that] by simp
  show p: "wh_pending s' = []" if "(handler_step ^^ k) s s' \<and> (\<nexists>s''. handler_step s' s'')" for k s'
    using that handler_step_enabled by (metis list.set_intros(1) neq_Nil_conv)
  show "wh_replies s' = wh_replies s @ replicate (length (wh_pending s)) (200, ''ok'')"
    if "(handler_step ^^ k) s s' \<and> (\<nexists>s''. handler_step s' s'')" for k s'
    using handler_steps_replies[of k s s'] that p[OF that] by simp
  show "\<exists>c. receive (hn_sem (wh_handler s)) = Some c" if "a \<in># wh_running s" for a
    using sem.leave_never_blocks[OF _ that] reachable_ok(1)[OF assms] by (auto simp: pool_ok_def Let_def)
qed

theorem webhook_never_wedges_witness:
  "(\<exists>s'. handler_step demo_webhook s') \<and> (\<exists>c. receive (hn_sem (wh_handler demo_webhook)) = Some c)"
  using webhook_never_wedges[OF demo_webhook_reachable] by (simp add: demo_webhook_def)

end
