(* ===== verification/K8s.thy ===== *)
theory K8s
  imports Proto "HOL-Library.Multiset"
begin

text \<open>
  \<^verbatim>\<open>internal/k8s\<close>: pod lookup by workload or claim, pod metadata and events. The Kubernetes
  client library is the record \<open>clientset\<close> of API calls, each taking the state \<open>'w\<close> of the outside
  world and returning its answer and the next state. \<^verbatim>\<open>sort.Slice\<close> is not stable, so the sort of
  the events is the parameter \<open>sortSlice\<close>, of which \<open>sorts\<close> states the documented behaviour.
\<close>

section \<open>API objects\<close>

record container =
  cn_Limits :: "(string \<times> string) list option"
  cn_Requests :: "(string \<times> string) list option"

record pod =
  pod_Name :: string
  pod_NodeName :: string
  pod_Phase :: string
  pod_Containers :: "container list"
  pod_VolumeClaims :: "string option list"
  pod_RestartCounts :: "int list"

record event_series =
  es_Count :: int
  es_LastObservedTime :: go_time

record k8s_event =
  ke_InvolvedObjectName :: string
  ke_Type :: string
  ke_Reason :: string
  ke_Message :: string
  ke_FirstTimestamp :: go_time
  ke_LastTimestamp :: go_time
  ke_EventTime :: go_time
  ke_Count :: int
  ke_Series :: "event_series option"

record ('w, 'sel) clientset =
  getDeployment :: "string \<Rightarrow> string \<Rightarrow> 'w \<Rightarrow> 'sel res \<times> 'w"
  getDaemonSet :: "string \<Rightarrow> string \<Rightarrow> 'w \<Rightarrow> 'sel res \<times> 'w"
  getStatefulSet :: "string \<Rightarrow> string \<Rightarrow> 'w \<Rightarrow> 'sel res \<times> 'w"
  LabelSelectorAsSelector :: "'sel \<Rightarrow> string res"
  listPods :: "string \<Rightarrow> string \<Rightarrow> 'w \<Rightarrow> pod list res \<times> 'w"
  getPod :: "string \<Rightarrow> string \<Rightarrow> 'w \<Rightarrow> pod res \<times> 'w"
  listEvents :: "string \<Rightarrow> string \<Rightarrow> 'w \<Rightarrow> k8s_event list res \<times> 'w"

section \<open>Lookup\<close>

definition podNamesBySelector ::
    "('w, 'sel) clientset \<Rightarrow> string \<Rightarrow> string \<Rightarrow> 'w \<Rightarrow> string list res \<times> 'w" where
  "podNamesBySelector cs ns selector w =
    (case listPods cs ns selector w of
       (Inl e, w') \<Rightarrow> (Inl (ErrWrap ''list pods'' e), w')
     | (Inr pods, w') \<Rightarrow> (Inr (map pod_Name pods), w'))"

definition PodsForDeployment ::
    "('w, 'sel) clientset \<Rightarrow> string \<Rightarrow> string \<Rightarrow> 'w \<Rightarrow> string list res \<times> 'w" where
  "PodsForDeployment cs ns name w =
    (case getDeployment cs ns name w of
       (Inl e, w') \<Rightarrow> (Inl (ErrWrap (''get deployment '' @ name) e), w')
     | (Inr sel, w') \<Rightarrow>
        (case LabelSelectorAsSelector cs sel of
           Inl e \<Rightarrow> (Inl (ErrWrap ''parse selector'' e), w')
         | Inr selector \<Rightarrow> podNamesBySelector cs ns selector w'))"

definition PodsForDaemonSet ::
    "('w, 'sel) clientset \<Rightarrow> string \<Rightarrow> string \<Rightarrow> 'w \<Rightarrow> string list res \<times> 'w" where
  "PodsForDaemonSet cs ns name w =
    (case getDaemonSet cs ns name w of
       (Inl e, w') \<Rightarrow> (Inl (ErrWrap (''get daemonset '' @ name) e), w')
     | (Inr sel, w') \<Rightarrow>
        (case LabelSelectorAsSelector cs sel of
           Inl e \<Rightarrow> (Inl (ErrWrap ''parse selector'' e), w')
         | Inr selector \<Rightarrow> podNamesBySelector cs ns selector w'))"

definition PodsForStatefulSet ::
    "('w, 'sel) clientset \<Rightarrow> string \<Rightarrow> string \<Rightarrow> 'w \<Rightarrow> string list res \<times> 'w" where
  "PodsForStatefulSet cs ns name w =
    (case getStatefulSet cs ns name w of
       (Inl e, w') \<Rightarrow> (Inl (ErrWrap (''get statefulset '' @ name) e), w')
     | (Inr sel, w') \<Rightarrow>
        (case LabelSelectorAsSelector cs sel of
           Inl e \<Rightarrow> (Inl (ErrWrap ''parse selector'' e), w')
         | Inr selector \<Rightarrow> podNamesBySelector cs ns selector w'))"

text \<open>The inner loop over the volumes of a pod stops at the first that mounts the claim.\<close>

fun mounts_claim :: "string option list \<Rightarrow> string \<Rightarrow> bool" where
  "mounts_claim [] pvc = False"
| "mounts_claim (v # vs) pvc = (if v = Some pvc then True else mounts_claim vs pvc)"

fun pvc_pods :: "pod list \<Rightarrow> string \<Rightarrow> string list" where
  "pvc_pods [] pvc = []"
| "pvc_pods (p # ps) pvc =
    (if mounts_claim (pod_VolumeClaims p) pvc then pod_Name p # pvc_pods ps pvc else pvc_pods ps pvc)"

definition PodsForPVC ::
    "('w, 'sel) clientset \<Rightarrow> string \<Rightarrow> string \<Rightarrow> 'w \<Rightarrow> string list res \<times> 'w" where
  "PodsForPVC cs ns pvc w =
    (case listPods cs ns '''' w of
       (Inl e, w') \<Rightarrow> (Inl (ErrWrap ''list pods'' e), w')
     | (Inr pods, w') \<Rightarrow> (Inr (pvc_pods pods pvc), w'))"

section \<open>Pod metadata\<close>

text \<open>A resource list is a map; a quantity is held in its canonical text form.\<close>

definition quantity :: "(string \<times> string) list option \<Rightarrow> string \<Rightarrow> string" where
  "quantity rl k = (case rl of None \<Rightarrow> '''' | Some m \<Rightarrow> lookup_or_empty m k)"

definition PodMeta_of :: "pod \<Rightarrow> PodMeta" where
  "PodMeta_of p =
    (let (lim, req) = (case pod_Containers p of [] \<Rightarrow> (None, None)
                       | c # cs \<Rightarrow> (cn_Limits c, cn_Requests c)) in
     \<lparr>pm_PodName = pod_Name p, pm_MemoryLimit = quantity lim ''memory'',
      pm_MemoryRequest = quantity req ''memory'', pm_CpuLimit = quantity lim ''cpu'',
      pm_CpuRequest = quantity req ''cpu'', pm_NodeName = pod_NodeName p,
      pm_RestartCount = (case pod_RestartCounts p of [] \<Rightarrow> 0 | n # ns \<Rightarrow> n), pm_Phase = pod_Phase p\<rparr>)"

definition PodMeta_get ::
    "('w, 'sel) clientset \<Rightarrow> string \<Rightarrow> string \<Rightarrow> 'w \<Rightarrow> PodMeta res \<times> 'w" where
  "PodMeta_get cs ns podName w =
    (case getPod cs ns podName w of
       (Inl e, w') \<Rightarrow> (Inl (ErrWrap (''get pod '' @ podName) e), w')
     | (Inr p, w') \<Rightarrow> (Inr (PodMeta_of p), w'))"

section \<open>Events\<close>

definition maxEventsPerObject :: nat where "maxEventsPerObject = 25"

definition convert_event :: "string \<Rightarrow> k8s_event \<Rightarrow> KubernetesEvent" where
  "convert_event objectName e =
    (let first = (if IsZero (ke_FirstTimestamp e) then Unix (ke_EventTime e)
                  else Unix (ke_FirstTimestamp e));
         (lst, count) =
           (if IsZero (ke_LastTimestamp e) then
              case ke_Series e of
                Some s \<Rightarrow> (Unix (es_LastObservedTime s), es_Count s)
              | None \<Rightarrow> (Unix (ke_EventTime e), ke_Count e)
            else (Unix (ke_LastTimestamp e), ke_Count e)) in
     \<lparr>ev_Type = ke_Type e, ev_Reason = ke_Reason e, ev_Message = ke_Message e,
      ev_FirstTimestamp = (if first < 0 then 0 else first),
      ev_LastTimestamp = (if lst < 0 then 0 else lst),
      ev_Count = (if count = 0 then 1 else count), ev_InvolvedObjectName = objectName\<rparr>)"

fun collect_events :: "string \<Rightarrow> k8s_event list \<Rightarrow> KubernetesEvent list" where
  "collect_events objectName [] = []"
| "collect_events objectName (e # es) =
    (if ke_InvolvedObjectName e \<noteq> objectName then collect_events objectName es
     else convert_event objectName e # collect_events objectName es)"

definition cap_events :: "nat \<Rightarrow> 'e list \<Rightarrow> 'e list" where
  "cap_events n es = (if length es > n then take n es else es)"

definition newer :: "KubernetesEvent \<Rightarrow> KubernetesEvent \<Rightarrow> bool" where
  "newer a b = (ev_LastTimestamp a > ev_LastTimestamp b)"

definition FetchEvents ::
    "((KubernetesEvent \<Rightarrow> KubernetesEvent \<Rightarrow> bool) \<Rightarrow> KubernetesEvent list \<Rightarrow> KubernetesEvent list)
     \<Rightarrow> ('w, 'sel) clientset \<Rightarrow> string \<Rightarrow> string \<Rightarrow> 'w \<Rightarrow> KubernetesEvent list res \<times> 'w" where
  "FetchEvents sortSlice cs ns objectName w =
    (case listEvents cs ns (''involvedObject.name='' @ objectName) w of
       (Inl e, w') \<Rightarrow> (Inl (ErrWrap (''list events for '' @ objectName) e), w')
     | (Inr items, w') \<Rightarrow>
        (Inr (cap_events maxEventsPerObject (sortSlice newer (collect_events objectName items))), w'))"

section \<open>Facts\<close>

text \<open>What \<^verbatim>\<open>sort.Slice\<close> documents: a permutation in which no later element sorts before an earlier one.\<close>

definition sorts :: "(('e \<Rightarrow> 'e \<Rightarrow> bool) \<Rightarrow> 'e list \<Rightarrow> 'e list) \<Rightarrow> ('e \<Rightarrow> 'e \<Rightarrow> bool) \<Rightarrow> bool" where
  "sorts sortSlice lt =
    (\<forall>xs. mset (sortSlice lt xs) = mset xs \<and> sorted_wrt (\<lambda>a b. \<not> lt b a) (sortSlice lt xs))"

text \<open>Insertion by a comparison: one way to meet the documentation.\<close>

fun insert_by :: "('e \<Rightarrow> 'e \<Rightarrow> bool) \<Rightarrow> 'e \<Rightarrow> 'e list \<Rightarrow> 'e list" where
  "insert_by lt x [] = [x]"
| "insert_by lt x (y # ys) = (if lt x y then x # y # ys else y # insert_by lt x ys)"

definition insertion_sort :: "('e \<Rightarrow> 'e \<Rightarrow> bool) \<Rightarrow> 'e list \<Rightarrow> 'e list" where
  "insertion_sort lt xs = foldr (insert_by lt) xs []"

lemma mset_insert_by [simp]: "mset (insert_by lt x ys) = add_mset x (mset ys)"
  by (induction lt x ys rule: insert_by.induct) auto

lemma set_insert_by [simp]: "set (insert_by lt x ys) = insert x (set ys)"
  by (induction lt x ys rule: insert_by.induct) auto

lemma insertion_sort_newer: "sorts insertion_sort newer"
proof -
  have ins: "sorted_wrt (\<lambda>a b. \<not> newer b a) ys \<Longrightarrow> sorted_wrt (\<lambda>a b. \<not> newer b a) (insert_by newer x ys)"
    for x ys by (induction newer x ys rule: insert_by.induct) (auto simp: newer_def)
  have "mset (insertion_sort newer xs) = mset xs
      \<and> sorted_wrt (\<lambda>a b. \<not> newer b a) (insertion_sort newer xs)" for xs
    by (induction xs) (auto simp: insertion_sort_def ins)
  then show ?thesis by (simp add: sorts_def)
qed

lemma mounts_claim_iff: "mounts_claim vs pvc \<longleftrightarrow> Some pvc \<in> set vs"
  by (induction vs pvc rule: mounts_claim.induct) auto

lemma pvc_pods_filter:
  "pvc_pods ps pvc = map pod_Name (filter (\<lambda>p. Some pvc \<in> set (pod_VolumeClaims p)) ps)"
  by (induction ps pvc rule: pvc_pods.induct) (auto simp: mounts_claim_iff)

lemma collect_events_filter:
  "collect_events n es = map (convert_event n) (filter (\<lambda>e. ke_InvolvedObjectName e = n) es)"
  by (induction n es rule: collect_events.induct) auto

lemma cap_events_take [simp]: "cap_events n es = take n es"
  by (simp add: cap_events_def)

lemma convert_event_sane:
  "0 \<le> ev_FirstTimestamp (convert_event n e)" "0 \<le> ev_LastTimestamp (convert_event n e)"
  "ev_Count (convert_event n e) \<noteq> 0" "ev_InvolvedObjectName (convert_event n e) = n"
  "ev_Message (convert_event n e) = ke_Message e"
  by (auto simp: convert_event_def Let_def split: prod.splits)

text \<open>The first \<open>n\<close> of a sorted list come before the rest.\<close>

lemma sorted_wrt_take_drop:
  "sorted_wrt P xs \<Longrightarrow> a \<in> set (take n xs) \<Longrightarrow> b \<in> set (drop n xs) \<Longrightarrow> P a b"
  by (metis append_take_drop_id sorted_wrt_append)

section \<open>Properties\<close>

text \<open>C30: the events of an object, with any sort that does what \<^verbatim>\<open>sort.Slice\<close> documents. At most 25 are
  returned, newest first; they are conversions of API events of that object, with non-negative
  timestamps and a count; and whatever was cut off is not newer than anything returned.\<close>

theorem FetchEvents_newest:
  assumes "sorts sortSlice newer"
    and "listEvents cs ns (''involvedObject.name='' @ obj) w = (Inr items, w')"
  shows "\<exists>es cut. FetchEvents sortSlice cs ns obj w = (Inr es, w')
    \<and> mset (es @ cut) = mset (map (convert_event obj) (filter (\<lambda>e. ke_InvolvedObjectName e = obj) items))
    \<and> length es \<le> 25 \<and> (cut \<noteq> [] \<longrightarrow> length es = 25)
    \<and> sorted_wrt (\<lambda>a b. ev_LastTimestamp a \<ge> ev_LastTimestamp b) es
    \<and> (\<forall>a\<in>set es. \<forall>b\<in>set cut. ev_LastTimestamp a \<ge> ev_LastTimestamp b)
    \<and> (\<forall>a\<in>set es. 0 \<le> ev_FirstTimestamp a \<and> 0 \<le> ev_LastTimestamp a \<and> ev_Count a \<noteq> 0
         \<and> ev_InvolvedObjectName a = obj)"
proof -
  let ?conv = "map (convert_event obj) (filter (\<lambda>e. ke_InvolvedObjectName e = obj) items)"
  let ?all = "sortSlice newer ?conv"
  let ?es = "take 25 ?all" and ?cut = "drop 25 ?all"
  have perm: "mset ?all = mset ?conv"
    and srt: "sorted_wrt (\<lambda>a b. ev_LastTimestamp a \<ge> ev_LastTimestamp b) ?all"
    using assms(1) by (auto simp: sorts_def newer_def not_less)
  have "FetchEvents sortSlice cs ns obj w = (Inr ?es, w')"
    using assms(2) by (simp add: FetchEvents_def collect_events_filter maxEventsPerObject_def)
  moreover have "mset (?es @ ?cut) = mset ?conv" using perm by (metis append_take_drop_id)
  moreover have "length ?es \<le> 25" "?cut \<noteq> [] \<longrightarrow> length ?es = 25" by auto
  moreover have "sorted_wrt (\<lambda>a b. ev_LastTimestamp a \<ge> ev_LastTimestamp b) ?es"
    using srt by (metis append_take_drop_id sorted_wrt_append)
  moreover have "\<forall>a\<in>set ?es. \<forall>b\<in>set ?cut. ev_LastTimestamp a \<ge> ev_LastTimestamp b"
    using sorted_wrt_take_drop[OF srt] by blast
  moreover have "set ?es \<subseteq> set ?conv" using perm by (metis set_mset_mset set_take_subset)
  then have "\<forall>a\<in>set ?es. 0 \<le> ev_FirstTimestamp a \<and> 0 \<le> ev_LastTimestamp a \<and> ev_Count a \<noteq> 0
      \<and> ev_InvolvedObjectName a = obj"
    by (auto simp: convert_event_sane dest!: subsetD)
  ultimately show ?thesis by blast
qed

text \<open>A cluster with one event, for the witnesses.\<close>

definition one_event :: k8s_event where
  "one_event =
    \<lparr>ke_InvolvedObjectName = ''app'', ke_Type = ''Warning'', ke_Reason = ''BackOff'', ke_Message = ''x'',
     ke_FirstTimestamp = zero_time, ke_LastTimestamp = zero_time,
     ke_EventTime = \<lparr>unix_sec = 100, unix_nsec = 5\<rparr>, ke_Count = 0, ke_Series = None\<rparr>"

definition one_event_cluster :: "(unit, unit) clientset" where
  "one_event_cluster =
    \<lparr>getDeployment = \<lambda>_ _ w. (Inl (ErrExt ''none''), w), getDaemonSet = \<lambda>_ _ w. (Inl (ErrExt ''none''), w),
     getStatefulSet = \<lambda>_ _ w. (Inl (ErrExt ''none''), w), LabelSelectorAsSelector = \<lambda>_. Inr '''',
     listPods = \<lambda>_ _ w. (Inr [], w), getPod = \<lambda>_ _ w. (Inl (ErrExt ''none''), w),
     listEvents = \<lambda>_ _ w. (Inr [one_event, one_event\<lparr>ke_InvolvedObjectName := ''other''\<rparr>], w)\<rparr>"

theorem FetchEvents_newest_witness:
  "\<exists>es. FetchEvents insertion_sort one_event_cluster ''web'' ''app'' () = (Inr es, ())
    \<and> length es = 1 \<and> ev_LastTimestamp (hd es) = 100 \<and> ev_Count (hd es) = 1"
proof -
  have l: "listEvents one_event_cluster ''web'' (''involvedObject.name='' @ ''app'') ()
      = (Inr [one_event, one_event\<lparr>ke_InvolvedObjectName := ''other''\<rparr>], ())"
    by (simp add: one_event_cluster_def)
  obtain es cut where es: "FetchEvents insertion_sort one_event_cluster ''web'' ''app'' () = (Inr es, ())"
    "mset (es @ cut) = {#convert_event ''app'' one_event#}" "cut \<noteq> [] \<longrightarrow> length es = 25"
    using FetchEvents_newest[OF insertion_sort_newer l] by (auto simp: one_event_def)
  then have "length es + length cut = 1" by (metis length_append size_mset size_single)
  then have "cut = []" using es(3) by (cases cut) auto
  then have "es = [convert_event ''app'' one_event]" using es(2) by (auto simp: mset_single_iff)
  then show ?thesis using es(1)
    by (simp add: convert_event_def one_event_def IsZero_def zero_time_def Unix_def Let_def)
qed

end
