(* ===== verification/Resolver.thy ===== *)
theory Resolver
  imports K8s
begin

text \<open>
  \<^verbatim>\<open>internal/resolver\<close>: which Kubernetes object an alert is about, from its labels. A nil
  Kubernetes client (\<^verbatim>\<open>k8sClient == nil\<close>) is \<open>None\<close>. The
  specification \<open>spec_target\<close> is the table of label precedence; \<open>Resolve\<close> implements it.
\<close>

record ('w, 'sel) Resolver =
  rv_k8sClient :: "('w, 'sel) clientset option"

definition Resolver_New :: "('w, 'sel) clientset option \<Rightarrow> ('w, 'sel) Resolver" where
  "Resolver_New k8sClient = \<lparr>rv_k8sClient = k8sClient\<rparr>"

definition limitPods :: "string list \<Rightarrow> nat \<Rightarrow> string list" where
  "limitPods pods mx = (if length pods > mx then take mx pods else pods)"

text \<open>\<^verbatim>\<open>v, ok := labels[k]; ok && v != ""\<close>.\<close>

definition label_value :: "strmap \<Rightarrow> string \<Rightarrow> string option" where
  "label_value labels k =
    (case map_of labels k of None \<Rightarrow> None | Some v \<Rightarrow> if v \<noteq> '''' then Some v else None)"

text \<open>The step the workload branches share: look the pods up, keep none on an error.\<close>

definition resolve_pods ::
    "(string \<Rightarrow> string \<Rightarrow> 'w \<Rightarrow> string list res \<times> 'w) option \<Rightarrow> string \<Rightarrow> string \<Rightarrow> AlertTarget \<Rightarrow> 'w
     \<Rightarrow> AlertTarget \<times> 'w" where
  "resolve_pods lookup ns name target w =
    (case lookup of None \<Rightarrow> (target, w)
     | Some f \<Rightarrow>
        (case f ns name w of
           (Inl e, w') \<Rightarrow> (target, w')
         | (Inr pods, w') \<Rightarrow> (target\<lparr>tg_ResolvedPods := limitPods pods 10\<rparr>, w')))"

definition Resolve :: "('w, 'sel) Resolver \<Rightarrow> strmap \<Rightarrow> 'w \<Rightarrow> AlertTarget \<times> 'w" where
  "Resolve r labels w =
    (let k8s = rv_k8sClient r; namespace = lookup_or_empty labels ''namespace''; target = empty_target namespace in
     case label_value labels ''pod'' of
       Some pod \<Rightarrow>
         (target\<lparr>tg_TargetType := ''pod'', tg_PodName := pod, tg_ResolvedPods := [pod]\<rparr>, w)
     | None \<Rightarrow>
     case label_value labels ''deployment'' of
       Some deploy \<Rightarrow>
         resolve_pods (map_option PodsForDeployment k8s) namespace deploy
           (target\<lparr>tg_TargetType := ''deployment'', tg_Deployment := deploy\<rparr>) w
     | None \<Rightarrow>
     case label_value labels ''daemonset'' of
       Some ds \<Rightarrow>
         resolve_pods (map_option PodsForDaemonSet k8s) namespace ds
           (target\<lparr>tg_TargetType := ''daemonset'', tg_Daemonset := ds\<rparr>) w
     | None \<Rightarrow>
     case label_value labels ''statefulset'' of
       Some ss \<Rightarrow>
         resolve_pods (map_option PodsForStatefulSet k8s) namespace ss
           (target\<lparr>tg_TargetType := ''deployment'', tg_Deployment := ss\<rparr>) w
     | None \<Rightarrow>
     case label_value labels ''node'' of
       Some node \<Rightarrow> (target\<lparr>tg_TargetType := ''node'', tg_Node := node\<rparr>, w)
     | None \<Rightarrow>
     case label_value labels ''persistentvolumeclaim'' of
       Some pvc \<Rightarrow>
         resolve_pods (map_option PodsForPVC k8s) namespace pvc
           (target\<lparr>tg_TargetType := ''pvc'', tg_Pvc := pvc\<rparr>) w
     | None \<Rightarrow>
     if namespace \<noteq> '''' then (target\<lparr>tg_TargetType := ''namespace''\<rparr>, w)
     else (target\<lparr>tg_TargetType := ''unknown''\<rparr>, w))"

section \<open>Specification\<close>

text \<open>Label, target type and the field the label's value goes to, most specific first.\<close>

definition precedence :: "(string \<times> string \<times> (string \<Rightarrow> AlertTarget \<Rightarrow> AlertTarget)) list" where
  "precedence =
    [(''pod'', ''pod'', \<lambda>v. tg_PodName_update (\<lambda>_. v)),
     (''deployment'', ''deployment'', \<lambda>v. tg_Deployment_update (\<lambda>_. v)),
     (''daemonset'', ''daemonset'', \<lambda>v. tg_Daemonset_update (\<lambda>_. v)),
     (''statefulset'', ''deployment'', \<lambda>v. tg_Deployment_update (\<lambda>_. v)),
     (''node'', ''node'', \<lambda>v. tg_Node_update (\<lambda>_. v)),
     (''persistentvolumeclaim'', ''pvc'', \<lambda>v. tg_Pvc_update (\<lambda>_. v))]"

fun first_label ::
    "strmap \<Rightarrow> (string \<times> string \<times> (string \<Rightarrow> AlertTarget \<Rightarrow> AlertTarget)) list \<Rightarrow> AlertTarget \<Rightarrow> AlertTarget" where
  "first_label labels [] t =
    t\<lparr>tg_TargetType := (if tg_Namespace t \<noteq> '''' then ''namespace'' else ''unknown'')\<rparr>"
| "first_label labels ((k, kind, put) # ps) t =
    (if lookup_or_empty labels k \<noteq> '''' then put (lookup_or_empty labels k) (t\<lparr>tg_TargetType := kind\<rparr>)
     else first_label labels ps t)"

definition spec_target :: "strmap \<Rightarrow> AlertTarget" where
  "spec_target labels = first_label labels precedence (empty_target (lookup_or_empty labels ''namespace''))"

section \<open>Facts\<close>

lemma label_value_lookup:
  "label_value labels k =
    (if lookup_or_empty labels k \<noteq> '''' then Some (lookup_or_empty labels k) else None)"
  by (simp add: label_value_def lookup_or_empty_def split: option.splits)

lemma limitPods_take [simp]: "limitPods ps n = take n ps"
  by (simp add: limitPods_def)

lemma resolve_pods_bound:
  "length (tg_ResolvedPods t) \<le> 10 \<Longrightarrow> length (tg_ResolvedPods (fst (resolve_pods f ns n t w))) \<le> 10"
  by (auto simp: resolve_pods_def split: option.splits prod.splits sum.splits)

lemma resolve_pods_field:
  "fst (resolve_pods f ns n t w)\<lparr>tg_ResolvedPods := ps\<rparr> = t\<lparr>tg_ResolvedPods := ps\<rparr>"
  by (auto simp: resolve_pods_def split: option.splits prod.splits sum.splits)

lemma Resolve_pods_bound: "length (tg_ResolvedPods (fst (Resolve r labels w))) \<le> 10"
  by (simp add: Resolve_def label_value_lookup Let_def resolve_pods_bound empty_target_def)

lemma Resolve_spec: "fst (Resolve r labels w)\<lparr>tg_ResolvedPods := []\<rparr> = spec_target labels"
  by (simp add: Resolve_def spec_target_def precedence_def label_value_lookup Let_def
      resolve_pods_field empty_target_def)

section \<open>Properties\<close>

text \<open>C31: the resolved target is the one the table of label precedence gives, whatever the cluster
  answers: pod before deployment, daemonset, statefulset, node and claim, an empty label counting as
  absent. Only the list of pods depends on the cluster, and it has at most ten entries.\<close>

theorem Resolve_precedence:
  "let (t, w') = Resolve r labels w in
     t\<lparr>tg_ResolvedPods := []\<rparr> = spec_target labels \<and> length (tg_ResolvedPods t) \<le> 10"
  using Resolve_spec Resolve_pods_bound by (auto simp: split_beta)

text \<open>no lookup is made for an alert that names a pod, a node, or only a namespace: the outside
  world is not consulted, the pod list is the named pod or empty. With no Kubernetes client no lookup
  is ever made.\<close>

theorem Resolve_offline:
  assumes "rv_k8sClient r = None \<or> tg_TargetType (spec_target labels) \<in> {''pod'', ''node'', ''namespace'', ''unknown''}"
  shows "snd (Resolve r labels w) = w
    \<and> tg_ResolvedPods (fst (Resolve r labels w))
      = (if lookup_or_empty labels ''pod'' \<noteq> '''' then [lookup_or_empty labels ''pod''] else [])"
  using assms
  by (auto simp: Resolve_def spec_target_def precedence_def label_value_lookup Let_def
      resolve_pods_def empty_target_def split: if_splits)

theorem Resolve_offline_witness:
  "let labels = [(''namespace'', ''web''), (''deployment'', ''api'')];
       t = Resolve (Resolver_New (None :: (nat, unit) clientset option)) labels 7 in
   snd t = 7 \<and> tg_ResolvedPods (fst t) = [] \<and> tg_Deployment (fst t) = ''api''"
  using Resolve_offline[of "Resolver_New (None :: (nat, unit) clientset option)"
      "[(''namespace'', ''web''), (''deployment'', ''api'')]" 7]
  by (simp add: Let_def Resolver_New_def Resolve_def label_value_def resolve_pods_def lookup_or_empty_def)

end
