(* ===== verification/GoHttp.thy ===== *)
theory GoHttp
  imports GoFormat
begin

text \<open>
  What the collector uses of \<^verbatim>\<open>net/http\<close>: requests and responses as data, and the record
  \<open>http_env\<close> of what happens outside the process. \<open>Do\<close> performs a request on the state of the outside
  world (an error is a failed connection, a timeout or a cancelled context), \<open>now\<close> reads the clock in
  nanoseconds, and \<open>parse_url\<close> is the check of \<^verbatim>\<open>http.NewRequestWithContext\<close> on the URL. A
  response body that breaks off is its readable part with \<open>rs_BodyErr\<close> set.
\<close>

record http_request =
  rq_Method :: string
  rq_URL :: string
  rq_Header :: strmap
  rq_Body :: string

record http_response =
  rs_StatusCode :: int
  rs_Header :: strmap
  rs_Body :: string
  rs_BodyErr :: "go_error option"

record 'w http_env =
  Do :: "http_request \<Rightarrow> 'w \<Rightarrow> http_response res \<times> 'w"
  now :: "'w \<Rightarrow> int"
  parse_url :: "string \<Rightarrow> go_error option"

definition NewRequest :: "'w http_env \<Rightarrow> string \<Rightarrow> string \<Rightarrow> string \<Rightarrow> http_request res" where
  "NewRequest env meth url body =
    (case parse_url env url of
       Some e \<Rightarrow> Inl e
     | None \<Rightarrow> Inr \<lparr>rq_Method = meth, rq_URL = url, rq_Header = [], rq_Body = body\<rparr>)"

text \<open>\<^verbatim>\<open>io.ReadAll\<close>: the bytes read and the error that ended reading, if any.\<close>

definition ReadAll :: "http_response \<Rightarrow> string \<times> go_error option" where
  "ReadAll r = (rs_Body r, rs_BodyErr r)"

text \<open>The start of a query window: \<^verbatim>\<open>now.Add(-time.Duration(min) * time.Minute)\<close> in nanoseconds.\<close>

definition window_start :: "int \<Rightarrow> int \<Rightarrow> int" where
  "window_start now_ns lookbackMin = now_ns + to_int64 (to_int64 (- lookbackMin) * 60000000000)"

lemma window_start_normal:
  "0 \<le> m \<Longrightarrow> m \<le> 150000000 \<Longrightarrow> window_start t m = t - m * 60000000000"
  by (simp add: window_start_def to_int64_def)

section \<open>Headers\<close>

text \<open>
  \<^verbatim>\<open>http.Header\<close> restricted to one value per key, which is all \<^verbatim>\<open>Set\<close> produces. Keys are
  canonicalised on every access: upper case at the start and behind a hyphen, lower case elsewhere.
\<close>

definition to_upper :: "char \<Rightarrow> char" where
  "to_upper c = (if 97 \<le> byte_of c \<and> byte_of c \<le> 122 then char_of (byte_of c - 32) else c)"

definition to_lower :: "char \<Rightarrow> char" where
  "to_lower c = (if 65 \<le> byte_of c \<and> byte_of c \<le> 90 then char_of (byte_of c + 32) else c)"

fun canonical :: "bool \<Rightarrow> string \<Rightarrow> string" where
  "canonical up [] = []"
| "canonical up (c # cs) = (if up then to_upper c else to_lower c) # canonical (c = CHR ''-'') cs"

definition CanonicalHeaderKey :: "string \<Rightarrow> string" where
  "CanonicalHeaderKey k = canonical True k"

definition header_Set :: "strmap \<Rightarrow> string \<Rightarrow> string \<Rightarrow> strmap" where
  "header_Set h k v = (CanonicalHeaderKey k, v) # filter (\<lambda>(k', v'). k' \<noteq> CanonicalHeaderKey k) h"

definition header_Get :: "strmap \<Rightarrow> string \<Rightarrow> string" where
  "header_Get h k = lookup_or_empty h (CanonicalHeaderKey k)"

lemma lookup_filter_other:
  "k \<noteq> k0 \<Longrightarrow> lookup_or_empty (filter (\<lambda>(k', v'). k' \<noteq> k0) h) k = lookup_or_empty h k"
  by (induction h) auto

lemma header_Get_Set:
  "header_Get (header_Set h k v) k' =
    (if CanonicalHeaderKey k' = CanonicalHeaderKey k then v else header_Get h k')"
  by (simp add: header_Get_def header_Set_def lookup_filter_other)

text \<open>\<^verbatim>\<open>strings.ToUpper\<close> of an ASCII string.\<close>

definition ToUpper :: "string \<Rightarrow> string" where
  "ToUpper s = map to_upper s"

end
