(* ===== verification/Loki.thy ===== *)
theory Loki
  imports GoHttp
begin

text \<open>
  \<^verbatim>\<open>internal/loki\<close>: fetching the recent log lines of a list of pods. Decoding the JSON answer is the
  parameter \<open>decode\<close>. Slicing with a negative bound is a run-time panic in Go, so \<open>FetchLogs\<close> has an
  outcome.
\<close>

record loki_stream =
  st_Stream :: strmap
  st_Values :: "string list list"

record loki_data =
  ld_ResultType :: string
  ld_Result :: "loki_stream list"

record loki_response =
  lr_Status :: string
  lr_Data :: loki_data

record loki_client =
  lk_baseURL :: string
  lk_lookbackMin :: int
  lk_maxLines :: int

definition loki_NewClient :: "string \<Rightarrow> int \<Rightarrow> int \<Rightarrow> loki_client" where
  "loki_NewClient baseURL lookbackMin maxLines =
    \<lparr>lk_baseURL = baseURL, lk_lookbackMin = lookbackMin, lk_maxLines = maxLines\<rparr>"

definition loki_query :: "(nat \<Rightarrow> bool) \<Rightarrow> string \<Rightarrow> string \<Rightarrow> string" where
  "loki_query isPrint ns pod =
    ''{namespace='' @ Quote isPrint ns @ '', pod='' @ Quote isPrint pod @ ''}''"

definition loki_params :: "(nat \<Rightarrow> bool) \<Rightarrow> loki_client \<Rightarrow> int \<Rightarrow> string \<Rightarrow> string \<Rightarrow> (string \<times> string) list" where
  "loki_params isPrint c now_ns ns pod =
    [(''query'', loki_query isPrint ns pod),
     (''start'', itoa (to_int64 (window_start now_ns (lk_lookbackMin c)))),
     (''end'', itoa (to_int64 now_ns)),
     (''limit'', itoa (lk_maxLines c)),
     (''direction'', ''backward'')]"

definition loki_url :: "(nat \<Rightarrow> bool) \<Rightarrow> loki_client \<Rightarrow> int \<Rightarrow> string \<Rightarrow> string \<Rightarrow> string" where
  "loki_url isPrint c now_ns ns pod =
    lk_baseURL c @ ''/loki/api/v1/query_range?'' @ Encode (loki_params isPrint c now_ns ns pod)"

fun value_lines :: "string list list \<Rightarrow> string list" where
  "value_lines [] = []"
| "value_lines (v # vs) = (if length v \<ge> 2 then v ! 1 # value_lines vs else value_lines vs)"

fun stream_lines :: "loki_stream list \<Rightarrow> string list" where
  "stream_lines [] = []"
| "stream_lines (s # ss) = value_lines (st_Values s) @ stream_lines ss"

definition fetchPodLogs ::
    "(nat \<Rightarrow> bool) \<Rightarrow> (string \<Rightarrow> loki_response res) \<Rightarrow> 'w http_env \<Rightarrow> loki_client \<Rightarrow> string \<Rightarrow> string \<Rightarrow> 'w
     \<Rightarrow> string list res \<times> 'w" where
  "fetchPodLogs isPrint decode env c ns pod w =
    (case NewRequest env ''GET'' (loki_url isPrint c (now env w) ns pod) '''' of
       Inl e \<Rightarrow> (Inl (ErrWrap ''create request'' e), w)
     | Inr req \<Rightarrow>
        (case Do env req w of
           (Inl e, w') \<Rightarrow> (Inl (ErrWrap ''loki request'' e), w')
         | (Inr resp, w') \<Rightarrow>
             if rs_StatusCode resp \<noteq> 200
             then (Inl (ErrNew (''loki returned '' @ itoa (rs_StatusCode resp) @ '': ''
                     @ fst (ReadAll resp))), w')
             else case decode (rs_Body resp) of
                 Inl e \<Rightarrow> (Inl (ErrWrap ''decode loki response'' e), w')
               | Inr lr \<Rightarrow>
                   if lr_Status lr \<noteq> ''success'' then (Inl (ErrNew (''loki status: '' @ lr_Status lr)), w')
                   else (Inr (stream_lines (ld_Result (lr_Data lr))), w')))"

fun FetchLogs_loop ::
    "(string \<Rightarrow> 'w \<Rightarrow> string list res \<times> 'w) \<Rightarrow> int \<Rightarrow> string list \<Rightarrow> string list \<Rightarrow> 'w
     \<Rightarrow> string list outcome \<times> 'w" where
  "FetchLogs_loop fetch mx [] allLines w = (Done allLines, w)"
| "FetchLogs_loop fetch mx (pod # pods) allLines w =
    (case fetch pod w of
       (Inl e, w') \<Rightarrow> FetchLogs_loop fetch mx pods allLines w'
     | (Inr lines, w') \<Rightarrow>
        (let allLines' = allLines @ lines in
         if int (length allLines') \<ge> mx
         then (if mx < 0 then Panic else Done (take (nat mx) allLines'), w')
         else FetchLogs_loop fetch mx pods allLines' w'))"

text \<open>The error of \<^verbatim>\<open>FetchLogs\<close> is always nil; an empty result covers its nil slice.\<close>

definition FetchLogs ::
    "(nat \<Rightarrow> bool) \<Rightarrow> (string \<Rightarrow> loki_response res) \<Rightarrow> 'w http_env \<Rightarrow> loki_client \<Rightarrow> string
     \<Rightarrow> string list \<Rightarrow> 'w \<Rightarrow> string list res outcome \<times> 'w" where
  "FetchLogs isPrint decode env c ns pods w =
    (if pods = [] then (Done (Inr []), w)
     else case FetchLogs_loop (fetchPodLogs isPrint decode env c ns) (lk_maxLines c) pods [] w of
            (Done ls, w') \<Rightarrow> (Done (Inr ls), w')
          | (Panic, w') \<Rightarrow> (Panic, w'))"

section \<open>Facts\<close>

lemma FetchLogs_loop_bound:
  assumes "0 \<le> mx" "int (length allLines) \<le> mx"
  shows "\<exists>ls w'. FetchLogs_loop fetch mx pods allLines w = (Done ls, w') \<and> int (length ls) \<le> mx"
  using assms
proof (induction fetch mx pods allLines w rule: FetchLogs_loop.induct)
  case (2 fetch mx pod pods allLines w)
  then show ?case by (cases "fetch pod w") (auto simp: Let_def split: sum.splits)
qed simp

text \<open>The collected lines are those of the pods in order, errors skipped, cut at the limit.\<close>

fun pod_lines :: "(string \<Rightarrow> 'w \<Rightarrow> string list res \<times> 'w) \<Rightarrow> string list \<Rightarrow> 'w \<Rightarrow> string list" where
  "pod_lines fetch [] w = []"
| "pod_lines fetch (pod # pods) w =
    (case fetch pod w of
       (Inl e, w') \<Rightarrow> pod_lines fetch pods w'
     | (Inr ls, w') \<Rightarrow> ls @ pod_lines fetch pods w')"

lemma FetchLogs_loop_lines:
  assumes "0 \<le> mx" "int (length allLines) \<le> mx"
  shows "fst (FetchLogs_loop fetch mx pods allLines w) = Done (take (nat mx) (allLines @ pod_lines fetch pods w))"
  using assms
proof (induction fetch mx pods allLines w rule: FetchLogs_loop.induct)
  case (2 fetch mx pod pods allLines w)
  obtain r w' where "fetch pod w = (r, w')" by fastforce
  then show ?case using 2 by (cases r) (auto simp: Let_def)
qed (auto simp: nat_le_iff)

lemma loki_query_literals:
  "\<exists>a b. loki_query isPrint ns pod = ''{namespace='' @ CHR 0x22 # a
    \<and> skip_literal a = Some ('', pod='' @ CHR 0x22 # b) \<and> skip_literal b = Some ''}''"
proof (intro exI conjI)
  show "loki_query isPrint ns pod = ''{namespace='' @ CHR 0x22 # tl (Quote isPrint ns) @ '', pod=''
      @ CHR 0x22 # tl (Quote isPrint pod) @ ''}''"
    by (simp add: loki_query_def Quote_def)
qed (rule Quote_closed)+

lemma FetchLogs_total:
  "FetchLogs isPrint decode env c ns pods w = (r, w') \<Longrightarrow>
     (r = Panic \<and> lk_maxLines c < 0)
     \<or> (\<exists>ls. r = Done (Inr ls) \<and> (0 \<le> lk_maxLines c \<longrightarrow> int (length ls) \<le> lk_maxLines c))"
  using FetchLogs_loop_bound[of "lk_maxLines c" "[]" "fetchPodLogs isPrint decode env c ns" pods w]
  by (cases "0 \<le> lk_maxLines c") (auto simp: FetchLogs_def split: outcome.splits prod.splits if_splits)

section \<open>Properties\<close>

text \<open>With a non-negative line limit \<open>FetchLogs\<close> returns the lines of the pods in order, skipping the
  pods whose query failed, cut off at the limit; it never returns an error and never panics.\<close>

theorem FetchLogs_bounded:
  assumes "0 \<le> lk_maxLines c"
  shows "fst (FetchLogs isPrint decode env c ns pods w)
    = Done (Inr (take (nat (lk_maxLines c)) (pod_lines (fetchPodLogs isPrint decode env c ns) pods w)))"
proof (cases "pods = []")
  case False
  then show ?thesis
    using FetchLogs_loop_lines[of "lk_maxLines c" "[]" "fetchPodLogs isPrint decode env c ns" pods w] assms
    by (auto simp: FetchLogs_def split: outcome.splits prod.splits)
qed (simp add: FetchLogs_def)

theorem FetchLogs_bounded_witness:
  "let env = \<lparr>Do = \<lambda>rq w. (Inr \<lparr>rs_StatusCode = 200, rs_Header = [], rs_Body = '''', rs_BodyErr = None\<rparr>, w),
              now = \<lambda>w. 0, parse_url = \<lambda>u. None\<rparr>;
       decode = \<lambda>b. Inr \<lparr>lr_Status = ''success'', lr_Data = \<lparr>ld_ResultType = ''streams'',
              ld_Result = [\<lparr>st_Stream = [], st_Values = [[''1'', ''a''], [''2''], [''3'', ''b'']]\<rparr>]\<rparr>\<rparr> in
   fst (FetchLogs (\<lambda>_. True) decode env (loki_NewClient ''http://l'' 15 3) ''ns'' [''p'', ''q''] (0::nat))
     = Done (Inr [''a'', ''b'', ''a''])"
  by (simp add: FetchLogs_bounded loki_NewClient_def fetchPodLogs_def NewRequest_def Let_def
      numeral_3_eq_3)

text \<open>with a negative line limit the first pod whose query succeeds makes \<open>FetchLogs\<close> panic.\<close>

theorem FetchLogs_negative_limit_panics:
  assumes "lk_maxLines c < 0" "fetchPodLogs isPrint decode env c ns pod w = (Inr ls, w')"
  shows "FetchLogs isPrint decode env c ns (pod # pods) w = (Panic, w')"
  using assms by (simp add: FetchLogs_def Let_def)

theorem FetchLogs_negative_limit_panics_witness:
  "let env = \<lparr>Do = \<lambda>rq w. (Inr \<lparr>rs_StatusCode = 200, rs_Header = [], rs_Body = '''', rs_BodyErr = None\<rparr>, w),
              now = \<lambda>w. 0, parse_url = \<lambda>u. None\<rparr>;
       decode = \<lambda>b. Inr \<lparr>lr_Status = ''success'', lr_Data = \<lparr>ld_ResultType = ''streams'', ld_Result = []\<rparr>\<rparr> in
   FetchLogs (\<lambda>_. True) decode env (loki_NewClient ''http://l'' 15 (-1)) ''ns'' [''p''] (0::nat) = (Panic, 0)"
proof -
  let ?env = "\<lparr>Do = \<lambda>rq w. (Inr \<lparr>rs_StatusCode = 200, rs_Header = [], rs_Body = '''', rs_BodyErr = None\<rparr>, w),
              now = \<lambda>w. 0, parse_url = \<lambda>u. None\<rparr> :: nat http_env"
  let ?decode = "\<lambda>b. Inr \<lparr>lr_Status = ''success'', lr_Data = \<lparr>ld_ResultType = ''streams'', ld_Result = []\<rparr>\<rparr>"
  let ?c = "loki_NewClient ''http://l'' 15 (-1)"
  have "fetchPodLogs (\<lambda>_. True) ?decode ?env ?c ''ns'' ''p'' 0 = (Inr [], 0)"
    by (simp add: fetchPodLogs_def NewRequest_def)
  then show ?thesis
    unfolding Let_def by (intro FetchLogs_negative_limit_panics) (simp_all add: loki_NewClient_def)
qed


end
