(* ===== verification/Prometheus.thy ===== *)
theory Prometheus
  imports GoHttp Proto "HOL-Library.Sublist"
begin

text \<open>
  \<^verbatim>\<open>internal/prometheus\<close>: the range queries of each kind of target and the reading of their answers.
  The JSON decoder is the fields \<open>decodeProm\<close> (the envelope) and \<open>unmarshalMatrix\<close> (one raw result) of \<open>prom_decoders\<close>, the
  floating-point functions are its fields \<open>parseFloat64\<close> and \<open>toInt64\<close> (\<^verbatim>\<open>int64(ts)\<close>).
\<close>

section \<open>Data\<close>

datatype json = JNull | JBool bool | JNum float64 | JStr string | JArr "json list" | JObj "(string \<times> json) list"

record promData =
  pd_ResultType :: string
  pd_Result :: "string list"

record promResponse =
  pr_Status :: string
  pr_Data :: promData

record matrixResult =
  mx_Metric :: strmap
  mx_Values :: "json list list"

record prom_client =
  pc_baseURL :: string
  pc_lookbackMin :: int
  pc_enabled :: bool

record metricQuery =
  mq_name :: string
  mq_query :: string
  mq_description :: string
  mq_unit :: string

definition prom_NewClient :: "string \<Rightarrow> int \<Rightarrow> bool \<Rightarrow> prom_client" where
  "prom_NewClient baseURL lookbackMin enabled =
    \<lparr>pc_baseURL = baseURL, pc_lookbackMin = lookbackMin, pc_enabled = enabled\<rparr>"

definition mk_query :: "string \<Rightarrow> string \<Rightarrow> string \<Rightarrow> string \<Rightarrow> metricQuery" where
  "mk_query n q d u = \<lparr>mq_name = n, mq_query = q, mq_description = d, mq_unit = u\<rparr>"

section \<open>Queries\<close>

text \<open>\<^verbatim>\<open>metric{filter}\<close> and \<^verbatim>\<open>rate(metric{filter}[5m])\<close>.\<close>

definition instant :: "string \<Rightarrow> string \<Rightarrow> string" where
  "instant metric fil = metric @ ''{'' @ fil @ ''}''"

definition rate5m :: "string \<Rightarrow> string \<Rightarrow> string" where
  "rate5m metric fil = ''rate('' @ metric @ ''{'' @ fil @ ''}[5m])''"

definition quoted :: string where "quoted = [CHR 0x22]"

text \<open>The matchers the container queries share.\<close>

definition ns_pod :: "(nat \<Rightarrow> bool) \<Rightarrow> string \<Rightarrow> string \<Rightarrow> string" where
  "ns_pod isPrint ns pod = ''namespace='' @ Quote isPrint ns @ '', pod='' @ Quote isPrint pod"

definition ns_pods :: "(nat \<Rightarrow> bool) \<Rightarrow> string \<Rightarrow> string \<Rightarrow> string" where
  "ns_pods isPrint ns podRegex = ''namespace='' @ Quote isPrint ns @ '', pod=~'' @ Quote isPrint podRegex"

definition not_pause :: string where
  "not_pause = '', container!='' @ quoted @ ''POD'' @ quoted"

definition podQueries :: "(nat \<Rightarrow> bool) \<Rightarrow> string \<Rightarrow> string list \<Rightarrow> metricQuery list" where
  "podQueries isPrint ns pods =
    (case pods of [] \<Rightarrow> []
     | p # _ \<Rightarrow>
       (let nsPod = ns_pod isPrint ns p; podFilter = nsPod @ not_pause in
        [mk_query ''container_memory_working_set_bytes''
           (instant ''container_memory_working_set_bytes'' podFilter) ''Working set memory'' ''bytes'',
         mk_query ''container_memory_limit_bytes''
           (instant ''container_memory_limit_bytes'' podFilter) ''Memory limit'' ''bytes'',
         mk_query ''container_cpu_usage_rate''
           (rate5m ''container_cpu_usage_seconds_total'' podFilter) ''CPU usage rate'' ''seconds'',
         mk_query ''container_restarts_total''
           (instant ''container_restarts_total'' nsPod) ''Container restarts'' ''count'',
         mk_query ''container_network_receive_errors_rate''
           (rate5m ''container_network_receive_errors_total'' nsPod) ''Network receive errors rate'' ''count'',
         mk_query ''container_network_transmit_errors_rate''
           (rate5m ''container_network_transmit_errors_total'' nsPod) ''Network transmit errors rate'' ''count'']))"

definition deploymentQueries :: "(nat \<Rightarrow> bool) \<Rightarrow> string \<Rightarrow> string list \<Rightarrow> metricQuery list" where
  "deploymentQueries isPrint ns pods =
    (if pods = [] then []
     else
       (let podRegex = Join pods ''|'';
            nsPod = ns_pods isPrint ns podRegex;
            podFilter = nsPod @ not_pause;
            nsOnly = ''namespace='' @ Quote isPrint ns in
        [mk_query ''container_memory_working_set_bytes''
           (instant ''container_memory_working_set_bytes'' podFilter) ''Working set memory'' ''bytes'',
         mk_query ''container_memory_limit_bytes''
           (instant ''container_memory_limit_bytes'' podFilter) ''Memory limit'' ''bytes'',
         mk_query ''container_cpu_usage_rate''
           (rate5m ''container_cpu_usage_seconds_total'' podFilter) ''CPU usage rate'' ''seconds'',
         mk_query ''container_restarts_total''
           (instant ''container_restarts_total'' nsPod) ''Container restarts'' ''count'',
         mk_query ''container_network_receive_errors_rate''
           (rate5m ''container_network_receive_errors_total'' nsPod) ''Network receive errors rate'' ''count'',
         mk_query ''container_network_transmit_errors_rate''
           (rate5m ''container_network_transmit_errors_total'' nsPod) ''Network transmit errors rate'' ''count'',
         mk_query ''kube_deployment_status_replicas_available''
           (instant ''kube_deployment_status_replicas_available'' nsOnly) ''Available replicas'' ''count'',
         mk_query ''kube_deployment_status_replicas_unavailable''
           (instant ''kube_deployment_status_replicas_unavailable'' nsOnly) ''Unavailable replicas'' ''count'']))"

text \<open>The node name is spliced between quotation marks as it is.\<close>

definition nodeQueries :: "string \<Rightarrow> metricQuery list" where
  "nodeQueries node =
    (let nodeFilter = ''instance=~'' @ quoted @ node @ ''.*'' @ quoted in
     [mk_query ''node_memory_MemAvailable_bytes''
        (instant ''node_memory_MemAvailable_bytes'' nodeFilter) ''Available memory'' ''bytes'',
      mk_query ''node_memory_MemTotal_bytes''
        (instant ''node_memory_MemTotal_bytes'' nodeFilter) ''Total memory'' ''bytes'',
      mk_query ''node_cpu_usage_rate''
        (rate5m ''node_cpu_seconds_total'' (nodeFilter @ '', mode!='' @ quoted @ ''idle'' @ quoted))
        ''CPU usage rate'' ''seconds'',
      mk_query ''node_filesystem_avail_bytes''
        (instant ''node_filesystem_avail_bytes'' (nodeFilter @ '', mountpoint='' @ quoted @ ''/'' @ quoted))
        ''Available filesystem'' ''bytes'',
      mk_query ''node_filesystem_size_bytes''
        (instant ''node_filesystem_size_bytes'' (nodeFilter @ '', mountpoint='' @ quoted @ ''/'' @ quoted))
        ''Total filesystem'' ''bytes'',
      mk_query ''node_load1'' (instant ''node_load1'' nodeFilter) ''1-minute load average'' ''count''])"

definition pvcQueries :: "(nat \<Rightarrow> bool) \<Rightarrow> string \<Rightarrow> metricQuery list" where
  "pvcQueries isPrint ns =
    (let nsOnly = ''namespace='' @ Quote isPrint ns in
     [mk_query ''kubelet_volume_stats_used_bytes''
        (instant ''kubelet_volume_stats_used_bytes'' nsOnly) ''PVC used bytes'' ''bytes'',
      mk_query ''kubelet_volume_stats_capacity_bytes''
        (instant ''kubelet_volume_stats_capacity_bytes'' nsOnly) ''PVC capacity bytes'' ''bytes''])"

text \<open>The switch of \<^verbatim>\<open>FetchMetrics\<close>; \<open>None\<close> is its default branch.\<close>

definition target_queries ::
    "(nat \<Rightarrow> bool) \<Rightarrow> string \<Rightarrow> string \<Rightarrow> string list \<Rightarrow> string \<Rightarrow> metricQuery list option" where
  "target_queries isPrint targetType ns pods node =
    (if targetType = ''pod'' then Some (podQueries isPrint ns pods)
     else if targetType = ''deployment'' then Some (deploymentQueries isPrint ns pods)
     else if targetType = ''node'' then Some (nodeQueries node)
     else if targetType = ''pvc'' then Some (pvcQueries isPrint ns)
     else None)"

section \<open>Range queries\<close>

text \<open>One sample of a series: a pair of a number and a numeral string, anything else is skipped.\<close>

definition sample_point ::
    "(string \<Rightarrow> float64 option) \<Rightarrow> (float64 \<Rightarrow> int) \<Rightarrow> json list \<Rightarrow> DataPoint option" where
  "sample_point parseFloat trunc v =
    (case v of
       JNum ts # JStr valStr # _ \<Rightarrow>
         (case parseFloat valStr of None \<Rightarrow> None
          | Some x \<Rightarrow> Some \<lparr>dp_Timestamp = trunc ts, dp_Value = x\<rparr>)
     | _ \<Rightarrow> None)"

fun sample_points ::
    "(string \<Rightarrow> float64 option) \<Rightarrow> (float64 \<Rightarrow> int) \<Rightarrow> json list list \<Rightarrow> DataPoint list" where
  "sample_points parseFloat trunc [] = []"
| "sample_points parseFloat trunc (v # vs) =
    (case sample_point parseFloat trunc v of
       None \<Rightarrow> sample_points parseFloat trunc vs
     | Some p \<Rightarrow> p # sample_points parseFloat trunc vs)"

text \<open>The loop over the raw results: an undecodable one is skipped, the first decodable one is used.\<close>

fun result_points ::
    "(string \<Rightarrow> matrixResult res) \<Rightarrow> (string \<Rightarrow> float64 option) \<Rightarrow> (float64 \<Rightarrow> int) \<Rightarrow> string list \<Rightarrow> DataPoint list" where
  "result_points unmarshal parseFloat trunc [] = []"
| "result_points unmarshal parseFloat trunc (raw # raws) =
    (case unmarshal raw of
       Inl e \<Rightarrow> result_points unmarshal parseFloat trunc raws
     | Inr r \<Rightarrow> sample_points parseFloat trunc (mx_Values r))"

text \<open>\<^verbatim>\<open>%f\<close> of a whole number of seconds (below 2 to the 53rd, where the conversion is exact).\<close>

definition format_seconds :: "int \<Rightarrow> string" where
  "format_seconds s = itoa s @ ''.000000''"

definition prom_params :: "prom_client \<Rightarrow> int \<Rightarrow> metricQuery \<Rightarrow> (string \<times> string) list" where
  "prom_params c now_ns q =
    [(''query'', mq_query q),
     (''start'', format_seconds (window_start now_ns (pc_lookbackMin c) div 1000000000)),
     (''end'', format_seconds (now_ns div 1000000000)),
     (''step'', ''60s'')]"

record prom_decoders =
  decodeProm :: "string \<Rightarrow> promResponse res"
  unmarshalMatrix :: "string \<Rightarrow> matrixResult res"
  parseFloat64 :: "string \<Rightarrow> float64 option"
  toInt64 :: "float64 \<Rightarrow> int"

definition queryRange ::
    "prom_decoders \<Rightarrow> 'w http_env \<Rightarrow> prom_client \<Rightarrow> metricQuery \<Rightarrow> 'w \<Rightarrow> MetricSeries res \<times> 'w" where
  "queryRange d env c q w =
    (case NewRequest env ''GET''
            (pc_baseURL c @ ''/api/v1/query_range?'' @ Encode (prom_params c (now env w) q)) '''' of
       Inl e \<Rightarrow> (Inl (ErrWrap ''create request'' e), w)
     | Inr req \<Rightarrow>
        (case Do env req w of
           (Inl e, w') \<Rightarrow> (Inl (ErrWrap ''prometheus request'' e), w')
         | (Inr resp, w') \<Rightarrow>
             if rs_StatusCode resp \<noteq> 200
             then (Inl (ErrNew (''prometheus returned '' @ itoa (rs_StatusCode resp) @ '': ''
                     @ fst (ReadAll resp))), w')
             else case decodeProm d (rs_Body resp) of
                 Inl e \<Rightarrow> (Inl (ErrWrap ''decode prometheus response'' e), w')
               | Inr pr \<Rightarrow>
                   if pr_Status pr \<noteq> ''success'' then (Inl (ErrNew (''prometheus status: '' @ pr_Status pr)), w')
                   else (Inr \<lparr>ms_MetricName = mq_name q, ms_Description = mq_description q, ms_Unit = mq_unit q,
                              ms_Points = result_points (unmarshalMatrix d) (parseFloat64 d) (toInt64 d) (pd_Result (pr_Data pr))\<rparr>, w')))"

fun query_loop ::
    "(metricQuery \<Rightarrow> 'w \<Rightarrow> MetricSeries res \<times> 'w) \<Rightarrow> metricQuery list \<Rightarrow> MetricSeries list \<Rightarrow> 'w
     \<Rightarrow> MetricSeries list \<times> 'w" where
  "query_loop run [] series w = (series, w)"
| "query_loop run (q # qs) series w =
    (case run q w of
       (Inl e, w') \<Rightarrow> query_loop run qs series w'
     | (Inr s, w') \<Rightarrow> query_loop run qs (series @ [s]) w')"

definition FetchMetrics ::
    "(nat \<Rightarrow> bool) \<Rightarrow> prom_decoders \<Rightarrow> 'w http_env \<Rightarrow> prom_client \<Rightarrow> string \<Rightarrow> string \<Rightarrow> string list
     \<Rightarrow> string \<Rightarrow> 'w \<Rightarrow> MetricSeries list res \<times> 'w" where
  "FetchMetrics isPrint d env c targetType ns pods node w =
    (if \<not> pc_enabled c then (Inr [], w)
     else case target_queries isPrint targetType ns pods node of
            None \<Rightarrow> (Inr [], w)
          | Some qs \<Rightarrow>
             (case query_loop (queryRange d env c) qs [] w of (series, w') \<Rightarrow> (Inr series, w')))"

section \<open>Facts\<close>

definition query_tag :: "metricQuery \<Rightarrow> string \<times> string \<times> string" where
  "query_tag q = (mq_name q, mq_description q, mq_unit q)"

definition series_tag :: "MetricSeries \<Rightarrow> string \<times> string \<times> string" where
  "series_tag s = (ms_MetricName s, ms_Description s, ms_Unit s)"

lemma queryRange_tag: "queryRange d env c q w = (Inr s, w') \<Longrightarrow> series_tag s = query_tag q"
  by (auto simp: queryRange_def series_tag_def query_tag_def split: sum.splits prod.splits if_splits)

lemma query_loop_acc: "query_loop run qs acc w = map_prod ((@) acc) id (query_loop run qs [] w)"
proof (induction qs arbitrary: acc w)
  case (Cons q qs)
  obtain r w' where r: "run q w = (r, w')" by fastforce
  show ?case
  proof (cases r)
    case (Inl e)
    then show ?thesis using r Cons[of acc w'] by simp
  next
    case (Inr s)
    then show ?thesis using r Cons[of "acc @ [s]" w'] Cons[of "[s]" w']
      by (cases "query_loop run qs [] w'") simp
  qed
qed simp

lemma query_loop_tags:
  assumes "\<And>q w s w'. run q w = (Inr s, w') \<Longrightarrow> series_tag s = query_tag q"
  shows "subseq (map series_tag (fst (query_loop run qs [] w))) (map query_tag qs)"
proof (induction qs arbitrary: w)
  case (Cons q qs)
  obtain r w' where r: "run q w = (r, w')" by fastforce
  show ?case
  proof (cases r)
    case (Inr s)
    then show ?thesis using Cons r assms[of q w s w']
      by (simp add: query_loop_acc[of run qs "[s]"])
  qed (use Cons r in \<open>simp add: list_emb_Cons\<close>)
qed simp

lemma target_queries_length: "target_queries isPrint t ns pods node = Some qs \<Longrightarrow> length qs \<le> 8"
  by (auto simp: target_queries_def podQueries_def deploymentQueries_def nodeQueries_def
      pvcQueries_def Let_def split: if_splits list.splits)

lemma FetchMetrics_total:
  "\<exists>series w'. FetchMetrics isPrint d env c t ns pods node w = (Inr series, w') \<and> length series \<le> 8"
proof (cases "target_queries isPrint t ns pods node")
  case (Some qs)
  have "length (fst (query_loop (queryRange d env c) qs [] w)) \<le> length qs"
    using list_emb_length[OF query_loop_tags[of "queryRange d env c", OF queryRange_tag]] by simp
  then show ?thesis using target_queries_length[OF Some] Some by (auto simp: FetchMetrics_def split_beta)
qed (simp add: FetchMetrics_def)

text \<open>A selector whose operands are literals, closed before the text \<open>post\<close>.\<close>

definition closed_before :: "string \<Rightarrow> string \<Rightarrow> bool" where
  "closed_before q post =
    (\<exists>metric a b. q = metric @ ''{namespace='' @ CHR 0x22 # a
       \<and> skip_literal a = Some ('', pod='' @ CHR 0x22 # b) \<and> skip_literal b = Some post)"

lemma ns_pod_closed: "closed_before (metric @ ''{'' @ ns_pod isPrint ns p @ post) post"
  unfolding closed_before_def
proof (intro exI conjI)
  show "metric @ ''{'' @ ns_pod isPrint ns p @ post
      = metric @ ''{namespace='' @ CHR 0x22 # tl (Quote isPrint ns) @ '', pod='' @ CHR 0x22 # tl (Quote isPrint p) @ post"
    by (simp add: Quote_def ns_pod_def)
qed (rule Quote_closed)+

lemma instant_closed: "closed_before (instant metric (ns_pod isPrint ns p @ ext)) (ext @ ''}'')"
  using ns_pod_closed[of metric isPrint ns p "ext @ ''}''"] by (simp add: instant_def)

lemma rate5m_closed: "closed_before (rate5m metric (ns_pod isPrint ns p @ ext)) (ext @ ''}[5m])'')"
  using ns_pod_closed[of "''rate('' @ metric" isPrint ns p "ext @ ''}[5m])''"] by (simp add: rate5m_def)

lemmas plain_closed = instant_closed[where ext = "[]", simplified] rate5m_closed[where ext = "[]", simplified]

section \<open>Properties\<close>



text \<open>C34: in a pod's queries the namespace and the pod name are each one string literal, closed where
  the next matcher or the end of the selector begins, whatever they contain.\<close>

theorem podQueries_closed:
  assumes "q \<in> set (podQueries isPrint ns (p # ps))"
  shows "\<exists>post. closed_before (mq_query q) post
    \<and> post \<in> {not_pause @ ''}'', not_pause @ ''}[5m])'', ''}'', ''}[5m])''}"
proof -
  let ?f = "ns_pod isPrint ns p"
  have "mq_query q \<in> range (\<lambda>m. instant m (?f @ not_pause)) \<union> range (\<lambda>m. rate5m m (?f @ not_pause))
      \<union> range (\<lambda>m. instant m ?f) \<union> range (\<lambda>m. rate5m m ?f)"
    using assms by (simp add: podQueries_def mk_query_def Let_def) (elim disjE; simp)
  then have "closed_before (mq_query q) (not_pause @ ''}'') \<or> closed_before (mq_query q) (not_pause @ ''}[5m])'')
      \<or> closed_before (mq_query q) ''}'' \<or> closed_before (mq_query q) ''}[5m])''"
    by (elim UnE rangeE) (simp_all only: instant_closed rate5m_closed plain_closed simp_thms)
  then show ?thesis by (elim disjE) (rule exI, erule conjI, simp)+
qed

theorem podQueries_closed_witness:
  "\<exists>post. closed_before (mq_query (podQueries (\<lambda>_. True) ''a'' [''b'' @ quoted @ ''}''] ! 3)) post
    \<and> post \<in> {not_pause @ ''}'', not_pause @ ''}[5m])'', ''}'', ''}[5m])''}"
  by (rule podQueries_closed[of _ "\<lambda>_. True" "''a''" "''b'' @ quoted @ ''}''" "[]"])
    (simp add: podQueries_def Let_def)

text \<open>C35: the node name is not quoted. In every query for a node whose label contains a quotation mark, the
  string literal ends at that mark and what follows it in the label is PromQL, in front of the rest of
  the query.\<close>

theorem nodeQueries_injection:
  assumes "list_all plain u" "q \<in> set (nodeQueries (u @ quoted @ v))"
  shows "\<exists>pre post. mq_query q = pre @ ''{instance=~'' @ quoted @ u @ quoted @ v @ post
    \<and> skip_literal (u @ quoted @ v @ post) = Some (v @ post)"
proof -
  let ?f = "''instance=~'' @ quoted @ (u @ quoted @ v) @ ''.*'' @ quoted"
  have skip: "skip_literal (u @ quoted @ v @ post) = Some (v @ post)" for post by (simp add: skip_plain[OF assms(1)] quoted_def)
  have "mq_query q \<in> range (\<lambda>m. instant m ?f) \<union> range (\<lambda>m. rate5m m (?f @ '', mode!='' @ quoted @ ''idle'' @ quoted))
      \<union> range (\<lambda>m. instant m (?f @ '', mountpoint='' @ quoted @ ''/'' @ quoted))"
    using assms(2) by (simp add: nodeQueries_def mk_query_def Let_def) (elim disjE; simp)
  then obtain m e1 e2 where "mq_query q = (m @ e1) @ ''{'' @ ?f @ e2"
    unfolding instant_def rate5m_def by (elim UnE rangeE) (metis append.assoc append_Nil2)+
  then have "mq_query q = (m @ e1) @ ''{instance=~'' @ quoted @ u @ quoted @ v @ ''.*'' @ quoted @ e2" by simp
  then show ?thesis using skip by blast
qed

theorem nodeQueries_injection_witness:
  "\<exists>pre post. mq_query (nodeQueries (''x'' @ quoted @ ''} or up{job=~'' @ quoted) ! 5)
      = pre @ ''{instance=~'' @ quoted @ ''x'' @ quoted @ ''} or up{job=~'' @ quoted @ post"
proof -
  have "nodeQueries (''x'' @ quoted @ ''} or up{job=~'' @ quoted) ! 5 \<in> set (nodeQueries (''x'' @ quoted @ ''} or up{job=~'' @ quoted))"
    by (simp add: nodeQueries_def Let_def)
  from nodeQueries_injection[OF _ this] show ?thesis by (auto simp: plain_def)
qed

end
