(* ===== verification/GoRegexp.thy ===== *)
theory GoRegexp
  imports GoUtf8
begin

text \<open>
  The part of Go's \<^verbatim>\<open>regexp\<close> package that the redactor uses: the leftmost-first matcher,
  \<^verbatim>\<open>FindAllStringIndex\<close> and \<^verbatim>\<open>ReplaceAllString\<close>. A compiled expression is a syntax tree with
  the operators of \<^verbatim>\<open>regexp/syntax\<close>; \<open>ends\<close> is the executable matcher (all match ends, in the
  engine's order of preference) and \<open>matches_in\<close> is the declarative meaning it is proved
  equivalent to (\<open>ends_iff\<close>). The last section shows when a replacement removes every match for
  good: \<open>replace_from_clean\<close> and \<open>replace_from_keeps_clean\<close>.
\<close>

section \<open>Expressions and the matcher\<close>

datatype assertion = BeginText | EndText | BeginLine | EndLine | WordBoundary | NoWordBoundary

text \<open>
  The operators of \<^verbatim>\<open>regexp/syntax\<close>. A character class is a list of code point ranges, as in
  \<^verbatim>\<open>syntax.Regexp.Rune\<close>; the flag of \<open>RStar\<close> is greediness. Captures do not influence what is
  matched and are left out; \<open>x+\<close>, \<open>x?\<close> and \<open>x{n,m}\<close> are derived the way the package's simplifier
  rewrites them.
\<close>

datatype regex =
    RNone
  | REmpty
  | RClass "(nat \<times> nat) list"
  | RAssert assertion
  | RSeq regex regex
  | RAlt regex regex
  | RStar bool regex

definition in_class :: "(nat \<times> nat) list \<Rightarrow> nat \<Rightarrow> bool" where
  "in_class cs c = list_ex (\<lambda>(lo, hi). lo \<le> c \<and> c \<le> hi) cs"

definition word_class :: "(nat \<times> nat) list" where
  "word_class = [(48, 57), (65, 90), (95, 95), (97, 122)]"

definition is_word :: "rune option \<Rightarrow> bool" where
  "is_word r = (case r of None \<Rightarrow> False | Some x \<Rightarrow> in_class word_class (rune_code x))"

definition first_rune :: "rune list \<Rightarrow> rune option" where
  "first_rune rs = (case rs of [] \<Rightarrow> None | r # _ \<Rightarrow> Some r)"

text \<open>An assertion looks at the rune before the position and the rune after it.\<close>

fun holds_at :: "assertion \<Rightarrow> rune option \<Rightarrow> rune option \<Rightarrow> bool" where
  "holds_at BeginText p n = (p = None)"
| "holds_at EndText p n = (n = None)"
| "holds_at BeginLine p n = (case p of None \<Rightarrow> True | Some r \<Rightarrow> rune_code r = 10)"
| "holds_at EndLine p n = (case n of None \<Rightarrow> True | Some r \<Rightarrow> rune_code r = 10)"
| "holds_at WordBoundary p n = (is_word p \<noteq> is_word n)"
| "holds_at NoWordBoundary p n = (is_word p = is_word n)"

text \<open>
  \<open>ends r (p, xs)\<close> lists what is left after each way \<open>r\<close> can match a prefix of \<open>xs\<close> (\<open>p\<close> is the
  rune before \<open>xs\<close>), most preferred first: the left alternative before the right one, and another
  iteration of a greedy loop before leaving it. An iteration that consumes nothing ends the loop.
\<close>

type_synonym mstate = "rune option \<times> rune list"

function ends :: "regex \<Rightarrow> mstate \<Rightarrow> mstate list" where
  "ends RNone st = []"
| "ends REmpty st = [st]"
| "ends (RClass cs) st =
    (case snd st of [] \<Rightarrow> []
     | x # xs \<Rightarrow> if in_class cs (rune_code x) then [(Some x, xs)] else [])"
| "ends (RAssert a) st = (if holds_at a (fst st) (first_rune (snd st)) then [st] else [])"
| "ends (RSeq r s) st = concat (map (ends s) (ends r st))"
| "ends (RAlt r s) st = ends r st @ ends s st"
| "ends (RStar g r) st =
    (let more = concat (map (\<lambda>st'. if length (snd st') < length (snd st)
                                   then ends (RStar g r) st' else [st']) (ends r st))
     in if g then more @ [st] else st # more)"
  by pat_completeness auto
termination
  by (relation "measures [\<lambda>(r, st). size r, \<lambda>(r, st). length (snd st)]") auto

declare ends.simps(7) [simp del]

definition after :: "rune option \<Rightarrow> rune list \<Rightarrow> rune option" where
  "after p m = (if m = [] then p else Some (List.last m))"

subsection \<open>Derived operators\<close>

definition RPlus :: "regex \<Rightarrow> regex" where
  "RPlus r = RSeq r (RStar True r)"

definition RQuest :: "regex \<Rightarrow> regex" where
  "RQuest r = RAlt r REmpty"

fun RTimes :: "nat \<Rightarrow> regex \<Rightarrow> regex" where
  "RTimes 0 r = REmpty"
| "RTimes (Suc n) r = RSeq r (RTimes n r)"

fun RUpto :: "nat \<Rightarrow> regex \<Rightarrow> regex" where
  "RUpto 0 r = REmpty"
| "RUpto (Suc n) r = RQuest (RSeq r (RUpto n r))"

definition RRange :: "nat \<Rightarrow> nat \<Rightarrow> regex \<Rightarrow> regex" where
  "RRange n m r = RSeq (RTimes n r) (RUpto (m - n) r)"

definition RAtLeast :: "nat \<Rightarrow> regex \<Rightarrow> regex" where
  "RAtLeast n r = RSeq (RTimes n r) (RStar True r)"

fun RSeqs :: "regex list \<Rightarrow> regex" where
  "RSeqs [] = REmpty"
| "RSeqs [r] = r"
| "RSeqs (r # rs) = RSeq r (RSeqs rs)"

fun RAlts :: "regex list \<Rightarrow> regex" where
  "RAlts [] = RNone"
| "RAlts [r] = r"
| "RAlts (r # rs) = RAlt r (RAlts rs)"

definition RLit :: "string \<Rightarrow> regex" where
  "RLit s = RSeqs (map (\<lambda>c. RClass [(byte_of c, byte_of c)]) s)"

text \<open>
  Case folding, \<^verbatim>\<open>(?i)\<close>: a letter also matches its other case, and \<open>s\<close> and \<open>k\<close> also match
  U+017F and U+212A, which simple folding maps to them.
\<close>

definition fold_char :: "char \<Rightarrow> (nat \<times> nat) list" where
  "fold_char c =
    (let b = byte_of c;
         u = (if 97 \<le> b \<and> b \<le> 122 then b - 32 else b);
         l = (if 65 \<le> b \<and> b \<le> 90 then b + 32 else b)
     in [(u, u)] @ (if l = u then [] else [(l, l)])
        @ (if l = 115 then [(383, 383)] else [])
        @ (if l = 107 then [(8490, 8490)] else []))"

definition RLitFold :: "string \<Rightarrow> regex" where
  "RLitFold s = RSeqs (map (\<lambda>c. RClass (fold_char c)) s)"

section \<open>Searching and replacing\<close>

text \<open>\<^verbatim>\<open>doExecute\<close>: the leftmost match at or after rune position \<open>pos\<close>, as start and end.\<close>

definition match_at :: "regex \<Rightarrow> rune list \<Rightarrow> nat \<Rightarrow> nat option" where
  "match_at r ts i =
    (case ends r (after None (take i ts), drop i ts) of
       [] \<Rightarrow> None
     | e # _ \<Rightarrow> Some (length ts - length (snd e)))"

definition doExecute :: "regex \<Rightarrow> rune list \<Rightarrow> nat \<Rightarrow> (nat \<times> nat) option" where
  "doExecute r ts pos =
    (case List.find (\<lambda>i. match_at r ts i \<noteq> None) [pos..<Suc (length ts)] of
       None \<Rightarrow> None
     | Some i \<Rightarrow> map_option (\<lambda>j. (i, j)) (match_at r ts i))"

lemma after_simps [simp]:
  "after p [] = p" "after (after p u) v = after p (u @ v)"
  by (simp_all add: after_def)

text \<open>Declarative meaning: \<open>r\<close> matches exactly \<open>m\<close>, with \<open>p\<close> before it and \<open>ys\<close> after it.\<close>

inductive matches_in :: "regex \<Rightarrow> rune option \<Rightarrow> rune list \<Rightarrow> rune list \<Rightarrow> bool" where
  m_empty: "matches_in REmpty p [] ys"
| m_class: "in_class cs (rune_code x) \<Longrightarrow> matches_in (RClass cs) p [x] ys"
| m_assert: "holds_at a p (first_rune ys) \<Longrightarrow> matches_in (RAssert a) p [] ys"
| m_seq: "matches_in r p u (v @ ys) \<Longrightarrow> matches_in s (after p u) v ys \<Longrightarrow>
    matches_in (RSeq r s) p (u @ v) ys"
| m_altl: "matches_in r p u ys \<Longrightarrow> matches_in (RAlt r s) p u ys"
| m_altr: "matches_in s p u ys \<Longrightarrow> matches_in (RAlt r s) p u ys"
| m_stop: "matches_in (RStar g r) p [] ys"
| m_step: "matches_in r p u (v @ ys) \<Longrightarrow> matches_in (RStar g r) (after p u) v ys \<Longrightarrow>
    matches_in (RStar g r) p (u @ v) ys"

inductive_cases m_noneE [elim!]: "matches_in RNone p m ys"
inductive_cases m_emptyE [elim!]: "matches_in REmpty p m ys"
inductive_cases m_classE [elim!]: "matches_in (RClass cs) p m ys"
inductive_cases m_assertE [elim!]: "matches_in (RAssert a) p m ys"
inductive_cases m_seqE [elim!]: "matches_in (RSeq r s) p m ys"
inductive_cases m_altE [elim!]: "matches_in (RAlt r s) p m ys"
inductive_cases m_starE: "matches_in (RStar g r) p m ys"

lemma ends_sound:
  "(q, ys) \<in> set (ends r (p, xs)) \<Longrightarrow> \<exists>m. xs = m @ ys \<and> q = after p m \<and> matches_in r p m ys"
proof (induction r "(p, xs)" arbitrary: p xs q ys rule: ends.induct)
  case (3 cs p xs)
  from "3.prems" obtain x where "xs = x # ys" "q = Some x" "in_class cs (rune_code x)"
    by (auto split: list.splits if_splits)
  then show ?case by (intro exI[of _ "[x]"]) (simp add: after_def m_class)
next
  case (5 r s p xs)
  from "5.prems" obtain p1 zs where z: "(p1, zs) \<in> set (ends r (p, xs))"
      and y: "(q, ys) \<in> set (ends s (p1, zs))"
    by auto
  from "5.hyps"(1)[OF z] obtain u where u: "xs = u @ zs" "p1 = after p u" "matches_in r p u zs"
    by blast
  from "5.hyps"(2)[OF z y] obtain v where v: "zs = v @ ys" "q = after p1 v" "matches_in s p1 v ys"
    by blast
  show ?case using u v by (intro exI[of _ "u @ v"]) (auto intro: m_seq)
next
  case (7 g r p xs)
  from "7.prems" consider (self) "q = p" "ys = xs"
    | (more) p1 zs where "(p1, zs) \<in> set (ends r (p, xs))" "length zs < length xs"
        "(q, ys) \<in> set (ends (RStar g r) (p1, zs))"
    | (stop) p1 zs where "(p1, zs) \<in> set (ends r (p, xs))" "\<not> length zs < length xs"
        "q = p1" "ys = zs"
    by (auto simp: ends.simps(7)[of g r "(p, xs)"] Let_def split: if_splits)
  then show ?case
  proof cases
    case self
    then show ?thesis by (intro exI[of _ "[]"]) (auto intro: m_stop)
  next
    case (more p1 zs)
    from "7.hyps"(1)[OF more(1)] obtain u where u: "xs = u @ zs" "p1 = after p u" "matches_in r p u zs"
      by blast
    from "7.hyps"(2)[OF more(1) _ more(3)] more(2)
    obtain v where v: "zs = v @ ys" "q = after p1 v" "matches_in (RStar g r) p1 v ys"
      by auto
    show ?thesis using u v by (intro exI[of _ "u @ v"]) (auto intro: m_step)
  next
    case (stop p1 zs)
    from "7.hyps"(1)[OF stop(1)] obtain u where u: "xs = u @ zs" "p1 = after p u"
      by blast
    then have "u = []" using stop(2) by (cases u) auto
    then show ?thesis using u stop by (intro exI[of _ "[]"]) (auto intro: m_stop)
  qed
next
  case (6 r s p xs)
  from "6.prems" have "(q, ys) \<in> set (ends r (p, xs)) \<or> (q, ys) \<in> set (ends s (p, xs))" by simp
  then show ?case using "6.hyps" by (metis m_altl m_altr)
qed (auto split: if_splits intro: matches_in.intros)

lemma ends_complete:
  "matches_in r p m ys \<Longrightarrow> (after p m, ys) \<in> set (ends r (p, m @ ys))"
proof (induction rule: matches_in.induct)
  case (m_seq r p u v ys s)
  then show ?case by (force simp: image_iff)
next
  case (m_step r p u v ys g)
  show ?case
  proof (cases "u = []")
    case True
    then show ?thesis using m_step by simp
  next
    case False
    then have "length (v @ ys) < length (u @ v @ ys)" by simp
    then show ?thesis using m_step.IH
      by (auto simp: ends.simps(7)[of g r "(p, u @ v @ ys)"] Let_def intro!: bexI[rotated, OF m_step.IH(1)])
  qed
next
  case (m_class cs x p ys)
  then show ?case by (simp add: after_def)
next
  case (m_stop g r p ys)
  then show ?case by (simp add: ends.simps(7)[of g r "(p, ys)"] Let_def)
qed auto

lemma ends_iff:
  "(q, ys) \<in> set (ends r (p, xs)) \<longleftrightarrow> (\<exists>m. xs = m @ ys \<and> q = after p m \<and> matches_in r p m ys)"
  using ends_sound ends_complete by blast

lemma ends_suffix_length: "e \<in> set (ends r (p, xs)) \<Longrightarrow> length (snd e) \<le> length xs"
  by (cases e) (auto dest: ends_sound)

lemma match_at_bounds:
  assumes "match_at r ts i = Some j" "i \<le> length ts"
  shows "i \<le> j \<and> j \<le> length ts"
proof -
  from assms(1) obtain e es where e: "ends r (after None (take i ts), drop i ts) = e # es"
      and j: "j = length ts - length (snd e)"
    by (auto simp: match_at_def split: list.splits)
  have "length (snd e) \<le> length ts - i"
    using ends_suffix_length[of e r "after None (take i ts)" "drop i ts"] by (simp add: e)
  then show ?thesis using assms(2) j by simp
qed

lemma doExecute_Some_iff:
  "doExecute r ts pos = Some (a, b) \<longleftrightarrow> pos \<le> a \<and> a \<le> length ts \<and> match_at r ts a = Some b
     \<and> (\<forall>i. pos \<le> i \<and> i < a \<longrightarrow> match_at r ts i = None)"
proof (cases "List.find (\<lambda>i. match_at r ts i \<noteq> None) [pos..<Suc (length ts)]")
  case None
  then have "\<forall>j. pos \<le> j \<and> j < Suc (length ts) \<longrightarrow> match_at r ts j = None"
    by (simp add: find_upt_None_iff del: upt_Suc not_None_eq)
  moreover have "doExecute r ts pos = None"
    using None by (simp add: doExecute_def del: upt_Suc not_None_eq)
  ultimately show ?thesis by (auto simp: less_Suc_eq_le)
next
  case (Some i)
  then have i: "pos \<le> i" "i \<le> length ts" "match_at r ts i \<noteq> None"
      "\<And>j. pos \<le> j \<Longrightarrow> j < i \<Longrightarrow> match_at r ts j = None"
    by (auto simp: find_upt_Some_iff simp del: upt_Suc)
  have eq: "doExecute r ts pos = map_option (\<lambda>j. (i, j)) (match_at r ts i)"
    using Some by (simp add: doExecute_def del: upt_Suc not_None_eq)
  show ?thesis
  proof
    assume "doExecute r ts pos = Some (a, b)"
    then show "pos \<le> a \<and> a \<le> length ts \<and> match_at r ts a = Some b
      \<and> (\<forall>i. pos \<le> i \<and> i < a \<longrightarrow> match_at r ts i = None)"
      using i eq by auto
  next
    assume a: "pos \<le> a \<and> a \<le> length ts \<and> match_at r ts a = Some b
      \<and> (\<forall>i. pos \<le> i \<and> i < a \<longrightarrow> match_at r ts i = None)"
    then have "a = i" using i by (metis linorder_neqE_nat option.distinct(1))
    then show "doExecute r ts pos = Some (a, b)" using a eq by simp
  qed
qed

lemma doExecute_None_iff:
  "doExecute r ts pos = None \<longleftrightarrow> (\<forall>i. pos \<le> i \<and> i \<le> length ts \<longrightarrow> match_at r ts i = None)"
  unfolding doExecute_def
  by (auto simp: find_upt_Some_iff find_upt_None_iff less_Suc_eq_le simp del: upt_Suc
      split: option.splits)

lemma doExecute_bounds:
  "doExecute r ts pos = Some (a, b) \<Longrightarrow> pos \<le> a \<and> a \<le> b \<and> b \<le> length ts"
  by (auto simp: doExecute_Some_iff dest!: match_at_bounds)

text \<open>\<^verbatim>\<open>(*Regexp).allMatches\<close>: the successive matches, empty ones adjacent to a match dropped.\<close>

function all_matches :: "regex \<Rightarrow> rune list \<Rightarrow> nat \<Rightarrow> nat option \<Rightarrow> (nat \<times> nat) list" where
  "all_matches r ts pos prev =
    (if length ts < pos then []
     else case doExecute r ts pos of
       None \<Rightarrow> []
     | Some (a, b) \<Rightarrow>
         (if b = pos \<and> prev = Some a then [] else [(a, b)])
         @ all_matches r ts (if b = pos then Suc pos else b) (Some b))"
  by pat_completeness auto
termination
  by (relation "measure (\<lambda>(r, ts, pos, prev). Suc (length ts) - pos)") (auto dest: doExecute_bounds)

declare all_matches.simps [simp del]

definition FindAllStringIndex :: "regex \<Rightarrow> string \<Rightarrow> (nat \<times> nat) list" where
  "FindAllStringIndex r s = all_matches r (runes s) 0 None"

text \<open>
  \<^verbatim>\<open>(*Regexp).replaceAll\<close>: copy the text up to the match, insert the replacement (not for an empty
  match right after another match), continue past the match and always by at least one rune.
\<close>

function replace_from :: "regex \<Rightarrow> rune list \<Rightarrow> rune list \<Rightarrow> nat \<Rightarrow> nat \<Rightarrow> rune list" where
  "replace_from r rep ts lst pos =
    (if length ts < pos then drop lst ts
     else case doExecute r ts pos of
       None \<Rightarrow> drop lst ts
     | Some (a, b) \<Rightarrow>
         take (a - lst) (drop lst ts)
         @ (if lst < b \<or> a = 0 then rep else [])
         @ replace_from r rep ts b (max (Suc pos) b))"
  by pat_completeness auto
termination
  by (relation "measure (\<lambda>(r, rep, ts, lst, pos). Suc (length ts) - pos)") auto

declare replace_from.simps [simp del]

definition replace_runes :: "regex \<Rightarrow> rune list \<Rightarrow> rune list \<Rightarrow> rune list" where
  "replace_runes r rep ts = replace_from r rep ts 0 0"

text \<open>
  \<^verbatim>\<open>ReplaceAllString\<close> with a template that holds no \<^verbatim>\<open>$\<close>, which the package inserts verbatim
  (the redactor's replacements are all of this kind).
\<close>

definition ReplaceAllString :: "regex \<Rightarrow> string \<Rightarrow> string \<Rightarrow> string" where
  "ReplaceAllString r s rep = bytes_of (replace_runes r (runes rep) (runes s))"

section \<open>What a search finds\<close>

text \<open>\<^verbatim>\<open>MatchString\<close> on decoded text.\<close>

definition has_match :: "regex \<Rightarrow> rune list \<Rightarrow> bool" where
  "has_match r ts = (doExecute r ts 0 \<noteq> None)"

lemma match_at_None_iff:
  "i \<le> length ts \<Longrightarrow> match_at r ts i = None \<longleftrightarrow>
    \<not> (\<exists>m v. drop i ts = m @ v \<and> matches_in r (after None (take i ts)) m v)"
proof -
  have "match_at r ts i = None \<longleftrightarrow> set (ends r (after None (take i ts), drop i ts)) = {}"
    by (simp add: match_at_def split: list.splits)
  also have "\<dots> \<longleftrightarrow> (\<forall>q ys. (q, ys) \<notin> set (ends r (after None (take i ts), drop i ts)))"
    by (metis all_not_in_conv surj_pair)
  finally show ?thesis unfolding ends_iff by blast
qed

lemma match_at_Some:
  assumes "match_at r ts i = Some j" "i \<le> length ts"
  shows "\<exists>m v. drop i ts = m @ v \<and> matches_in r (after None (take i ts)) m v \<and> j = i + length m"
proof -
  from assms(1) obtain e es where e: "ends r (after None (take i ts), drop i ts) = e # es"
      and j: "j = length ts - length (snd e)"
    by (auto simp: match_at_def split: list.splits)
  obtain q v where qv: "e = (q, v)" by (cases e)
  then have "(q, v) \<in> set (ends r (after None (take i ts), drop i ts))" using e by simp
  then obtain m where m: "drop i ts = m @ v" "matches_in r (after None (take i ts)) m v"
    by (auto simp: ends_iff)
  have "length (drop i ts) = length m + length v" using m by simp
  then have "j = i + length m" using assms(2) j qv by simp
  then show ?thesis using m by blast
qed

lemma has_match_iff:
  "has_match r ts \<longleftrightarrow> (\<exists>u m v. ts = u @ m @ v \<and> matches_in r (after None u) m v)"
proof
  assume "has_match r ts"
  then obtain i where i: "i \<le> length ts" "match_at r ts i \<noteq> None"
    unfolding has_match_def doExecute_None_iff by blast
  then obtain m v where "drop i ts = m @ v" "matches_in r (after None (take i ts)) m v"
    using match_at_None_iff[of i ts r] by metis
  then show "\<exists>u m v. ts = u @ m @ v \<and> matches_in r (after None u) m v"
    by (metis append_take_drop_id)
next
  assume "\<exists>u m v. ts = u @ m @ v \<and> matches_in r (after None u) m v"
  then obtain u m v where *: "ts = u @ m @ v" "matches_in r (after None u) m v" by blast
  then have "match_at r ts (length u) \<noteq> None"
    using match_at_None_iff[of "length u" ts r] by auto
  moreover have "length u \<le> length ts" using * by simp
  ultimately show "has_match r ts" unfolding has_match_def by (metis doExecute_None_iff le0)
qed

fun look_free :: "regex \<Rightarrow> bool" where
  "look_free (RAssert a) = False"
| "look_free (RSeq r s) = (look_free r \<and> look_free s)"
| "look_free (RAlt r s) = (look_free r \<and> look_free s)"
| "look_free (RStar g r) = look_free r"
| "look_free r = True"

fun nullable :: "regex \<Rightarrow> bool" where
  "nullable RNone = False"
| "nullable REmpty = True"
| "nullable (RClass cs) = False"
| "nullable (RAssert a) = True"
| "nullable (RSeq r s) = (nullable r \<and> nullable s)"
| "nullable (RAlt r s) = (nullable r \<or> nullable s)"
| "nullable (RStar g r) = True"

fun alphabet :: "regex \<Rightarrow> (nat \<times> nat) list" where
  "alphabet (RClass cs) = cs"
| "alphabet (RSeq r s) = alphabet r @ alphabet s"
| "alphabet (RAlt r s) = alphabet r @ alphabet s"
| "alphabet (RStar g r) = alphabet r"
| "alphabet r = []"

lemma look_free_matches:
  "matches_in r p m ys \<Longrightarrow> look_free r \<Longrightarrow> matches_in r p' m ys'"
proof (induction arbitrary: p' ys' rule: matches_in.induct)
  case (m_seq r p u v ys s)
  then show ?case by (auto intro!: matches_in.m_seq)
next
  case (m_step r p u v ys g)
  then show ?case by (auto intro!: matches_in.m_step)
qed (auto intro: matches_in.intros)

lemma nullable_matches: "matches_in r p m ys \<Longrightarrow> m = [] \<Longrightarrow> nullable r"
  by (induction rule: matches_in.induct) auto

lemma in_class_append [simp]: "in_class (xs @ ys) c = (in_class xs c \<or> in_class ys c)"
  by (simp add: in_class_def)

lemma alphabet_matches:
  "matches_in r p m ys \<Longrightarrow> x \<in> set m \<Longrightarrow> in_class (alphabet r) (rune_code x)"
  by (induction rule: matches_in.induct) auto

lemma has_match_look_free:
  assumes "look_free r"
  shows "has_match r ts \<longleftrightarrow> (\<exists>u m v. ts = u @ m @ v \<and> matches_in r None m [])"
  using look_free_matches[OF _ assms] by (auto simp: has_match_iff) blast+

lemma no_match_sub:
  assumes "look_free r" "\<not> has_match r (u @ s @ v)"
  shows "\<not> has_match r s"
proof
  assume "has_match r s"
  then obtain u' m v' where "s = u' @ m @ v'" "matches_in r None m []"
    by (auto simp: has_match_look_free[OF assms(1)])
  then have "u @ s @ v = (u @ u') @ m @ (v' @ v) \<and> matches_in r None m []" by simp
  then show False using assms by (metis has_match_look_free)
qed

lemma append_split3:
  assumes "u @ m @ v = x @ c # y" "c \<notin> set m"
  shows "(\<exists>v'. x = u @ m @ v') \<or> (\<exists>u'. y = u' @ m @ v)"
proof -
  from assms(1) obtain w where "x = u @ w \<and> m @ v = w @ c # y \<or> u = x @ w \<and> w @ m @ v = c # y"
    by (auto simp: append_eq_append_conv2)
  then show ?thesis
  proof (elim disjE conjE)
    assume x: "x = u @ w" and "m @ v = w @ c # y"
    then obtain z where "m = w @ z \<and> z @ v = c # y \<or> m @ z = w"
      by (auto simp: append_eq_append_conv2)
    then show ?thesis using x assms(2) by (cases z) auto
  next
    assume "u = x @ w" "w @ m @ v = c # y"
    then show ?thesis using assms(2) by (cases w; cases m) auto
  qed
qed

text \<open>A rune outside the alphabet cuts the text in two.\<close>

lemma has_match_cut:
  assumes lf: "look_free r" and c: "\<not> in_class (alphabet r) (rune_code c)"
  shows "has_match r (x @ c # y) \<longleftrightarrow> has_match r x \<or> has_match r y"
proof
  assume "has_match r (x @ c # y)"
  then obtain u m v where *: "x @ c # y = u @ m @ v" and m: "matches_in r None m []"
    by (auto simp: has_match_look_free[OF lf])
  have "c \<notin> set m" using c m alphabet_matches by blast
  then have "(\<exists>v'. x = u @ m @ v') \<or> (\<exists>u'. y = u' @ m @ v)" by (rule append_split3[OF *[symmetric]])
  then show "has_match r x \<or> has_match r y" using m has_match_look_free[OF lf] by metis
next
  assume "has_match r x \<or> has_match r y"
  then show "has_match r (x @ c # y)"
    using no_match_sub[OF lf, of "[]" x "c # y"] no_match_sub[OF lf, of "x @ [c]" y "[]"] by auto
qed

definition fenced :: "regex \<Rightarrow> rune list \<Rightarrow> bool" where
  "fenced r rep = (rep \<noteq> [] \<and> \<not> in_class (alphabet r) (rune_code (hd rep))
     \<and> \<not> in_class (alphabet r) (rune_code (last rep)) \<and> \<not> has_match r rep)"

lemma no_match_fenced:
  assumes lf: "look_free r" and f: "fenced r rep" and x: "\<not> has_match r x" and y: "\<not> has_match r y"
  shows "\<not> has_match r (x @ rep @ y)"
proof -
  obtain c mid where rep: "rep = c # mid" and c: "\<not> in_class (alphabet r) (rune_code c)"
    using f by (cases rep) (auto simp: fenced_def)
  have mid: "\<not> has_match r mid" using f has_match_cut[OF lf c, of "[]" mid] by (simp add: rep fenced_def)
  have "\<not> has_match r (mid @ y)"
  proof (cases "mid = []")
    case True
    then show ?thesis using y by simp
  next
    case False
    then obtain mid' d where m: "mid = mid' @ [d]" by (metis append_butlast_last_id)
    then have d: "\<not> in_class (alphabet r) (rune_code d)" using f by (simp add: rep fenced_def)
    have "\<not> has_match r mid'" using no_match_sub[OF lf, of "[]" mid' "[d]"] mid m by auto
    then show ?thesis using has_match_cut[OF lf d, of mid' y] y m by simp
  qed
  then show ?thesis using has_match_cut[OF lf c] x by (simp add: rep)
qed

text \<open>Replacing another expression's matches keeps the text free of \<open>r\<close>.\<close>

lemma replace_from_keeps_clean:
  assumes lf: "look_free r" and f: "fenced r rep"
  shows "lst \<le> pos \<Longrightarrow> \<not> has_match r (drop lst ts) \<Longrightarrow> \<not> has_match r (replace_from q rep ts lst pos)"
proof (induction "Suc (length ts) - pos" arbitrary: lst pos rule: less_induct)
  case less
  show ?case
  proof (cases "length ts < pos \<or> doExecute q ts pos = None")
    case True
    then show ?thesis using less.prems by (auto simp: replace_from.simps[of q rep ts lst pos])
  next
    case False
    then obtain a b where ab: "doExecute q ts pos = Some (a, b)" and p: "\<not> length ts < pos" by auto
    have bnd: "pos \<le> a" "a \<le> b" "b \<le> length ts" using doExecute_bounds[OF ab] by auto
    let ?gap = "take (a - lst) (drop lst ts)" and ?rest = "replace_from q rep ts b (max (Suc pos) b)"
    have eq: "replace_from q rep ts lst pos = ?gap @ (if lst < b \<or> a = 0 then rep else []) @ ?rest"
      using ab p by (simp add: replace_from.simps[of q rep ts lst pos])
    have gap: "\<not> has_match r ?gap"
      using less.prems bnd no_match_sub[OF lf, of "[]" ?gap "drop a ts"] by (simp add: take_drop_gap)
    have "\<not> has_match r (drop b ts)"
      using less.prems bnd no_match_sub[OF lf, of "take (b - lst) (drop lst ts)" "drop b ts" "[]"]
      by (simp add: take_drop_gap)
    then have rest: "\<not> has_match r ?rest" using p by (intro less.hyps) auto
    show ?thesis
    proof (cases "lst < b \<or> a = 0")
      case True
      then show ?thesis unfolding eq using no_match_fenced[OF lf f gap rest] by simp
    next
      case False
      then have "a - lst = 0" using bnd by simp
      then show ?thesis unfolding eq using False rest by simp
    qed
  qed
qed

text \<open>Replacing an expression's own matches leaves none of them.\<close>

lemma no_match_between:
  assumes lf: "look_free r" and nn: "\<not> nullable r"
    and none: "\<And>i. pos \<le> i \<Longrightarrow> i < n \<Longrightarrow> i \<le> length ts \<Longrightarrow> match_at r ts i = None"
  shows "\<not> has_match r (take (n - pos) (drop pos ts))"
proof
  assume "has_match r (take (n - pos) (drop pos ts))"
  then obtain u m v where g: "take (n - pos) (drop pos ts) = u @ m @ v" and m: "matches_in r None m []"
    by (auto simp: has_match_look_free[OF lf])
  let ?i = "pos + length u"
  have "m \<noteq> []" using nn nullable_matches m by blast
  then have "length u < length (take (n - pos) (drop pos ts))" unfolding g by simp
  then have i: "?i < n" "?i \<le> length ts" by auto
  have "drop pos ts = (u @ m @ v) @ drop (n - pos) (drop pos ts)" using g by (metis append_take_drop_id)
  then have "drop ?i ts = m @ v @ drop (n - pos) (drop pos ts)"
    by (metis add.commute append.assoc append_eq_conv_conj drop_drop)
  moreover have "matches_in r (after None (take ?i ts)) m (v @ drop (n - pos) (drop pos ts))"
    using m lf by (rule look_free_matches)
  ultimately have "match_at r ts ?i \<noteq> None" using match_at_None_iff[of ?i ts r] i by blast
  then show False using none[of ?i] i by simp
qed

lemma replace_from_clean:
  assumes lf: "look_free r" and nn: "\<not> nullable r" and f: "fenced r rep"
  shows "\<not> has_match r (replace_from r rep ts pos pos)"
proof (induction "Suc (length ts) - pos" arbitrary: pos rule: less_induct)
  case less
  note between = no_match_between[OF lf nn]
  show ?case
  proof (cases "doExecute r ts pos")
    case None
    then have "\<not> has_match r (take (Suc (length ts) - pos) (drop pos ts))"
      by (intro between) (auto simp: doExecute_None_iff)
    moreover have "replace_from r rep ts pos pos = drop pos ts"
      using None by (simp add: replace_from.simps[of r rep ts pos pos])
    ultimately show ?thesis by simp
  next
    case (Some ab)
    then obtain a b where ab: "doExecute r ts pos = Some (a, b)" by (cases ab) auto
    then have a: "pos \<le> a" "a \<le> length ts" "match_at r ts a = Some b"
        "\<And>i. pos \<le> i \<Longrightarrow> i < a \<Longrightarrow> match_at r ts i = None"
      by (auto simp: doExecute_Some_iff)
    from match_at_Some[OF a(3,2)] obtain m v where "matches_in r (after None (take a ts)) m v" "b = a + length m"
      by blast
    moreover have "m \<noteq> []" using calculation nullable_matches nn by blast
    ultimately have b: "a < b" by simp
    have gap: "\<not> has_match r (take (a - pos) (drop pos ts))" using a by (intro between) auto
    have rest: "\<not> has_match r (replace_from r rep ts b b)" using a b by (intro less) auto
    have "replace_from r rep ts pos pos = take (a - pos) (drop pos ts) @ rep @ replace_from r rep ts b b"
      using ab a b by (simp add: replace_from.simps[of r rep ts pos pos] max_absorb2)
    then show ?thesis using no_match_fenced[OF lf f gap rest] by simp
  qed
qed

text \<open>Counting and replacing agree: the replaced segments are the reported matches.\<close>

fun splice :: "rune list \<Rightarrow> rune list \<Rightarrow> nat \<Rightarrow> (nat \<times> nat) list \<Rightarrow> rune list" where
  "splice rep ts lst [] = drop lst ts"
| "splice rep ts lst ((a, b) # ms) = take (a - lst) (drop lst ts) @ rep @ splice rep ts b ms"

lemma replace_from_splice:
  assumes "prev = None \<and> lst = 0 \<and> pos = 0 \<or> prev = Some lst \<and> 0 < pos \<and> lst \<le> pos"
  shows "replace_from r rep ts lst pos = splice rep ts lst (all_matches r ts pos prev)"
  using assms
proof (induction "Suc (length ts) - pos" arbitrary: lst pos prev rule: less_induct)
  case less
  show ?case
  proof (cases "length ts < pos \<or> doExecute r ts pos = None")
    case True
    then show ?thesis
      by (auto simp: replace_from.simps[of r rep ts lst pos] all_matches.simps[of r ts pos prev])
  next
    case False
    then obtain a b where ab: "doExecute r ts pos = Some (a, b)" and p: "\<not> length ts < pos" by auto
    have bnd: "pos \<le> a" "a \<le> b" "b \<le> length ts" using doExecute_bounds[OF ab] by auto
    let ?next = "if b = pos then Suc pos else b"
    have nxt: "max (Suc pos) b = ?next" using bnd by auto
    have IH: "replace_from r rep ts b ?next = splice rep ts b (all_matches r ts ?next (Some b))"
      using p bnd by (intro less.hyps) auto
    have skip: "\<not> (lst < b \<or> a = 0) \<longleftrightarrow> b = pos \<and> prev = Some a"
      using less.prems bnd by auto
    show ?thesis
    proof (cases "b = pos \<and> prev = Some a")
      case True
      then have "replace_from r rep ts lst pos = replace_from r rep ts b ?next"
        using less.prems bnd skip ab p nxt by (subst replace_from.simps) auto
      also have "\<dots> = splice rep ts lst (all_matches r ts pos prev)"
        unfolding IH using True less.prems bnd ab p by (subst (2) all_matches.simps) auto
      finally show ?thesis .
    next
      case False
      then show ?thesis using skip ab p IH nxt
        by (auto simp: replace_from.simps[of r rep ts lst pos] all_matches.simps[of r ts pos prev])
    qed
  qed
qed

section \<open>The string interface\<close>

definition MatchString :: "regex \<Rightarrow> string \<Rightarrow> bool" where
  "MatchString r s = has_match r (runes s)"

lemma FindAll_Nil_iff: "FindAllStringIndex r s = [] \<longleftrightarrow> \<not> MatchString r s"
  by (auto simp: FindAllStringIndex_def MatchString_def has_match_def
      all_matches.simps[of r "runes s" 0 None] split: option.splits)

lemma wf_replace_from:
  assumes wf: "wf_runes ts" and rep: "ascii_ends rep"
  shows "lst \<le> pos \<Longrightarrow> wf_runes (replace_from r (runes rep) ts lst pos)"
proof (induction "Suc (length ts) - pos" arbitrary: lst pos rule: less_induct)
  case less
  show ?case
  proof (cases "length ts < pos \<or> doExecute r ts pos = None")
    case True
    then show ?thesis using wf by (auto simp: replace_from.simps[of r _ ts lst pos])
  next
    case False
    then obtain a b where ab: "doExecute r ts pos = Some (a, b)" and p: "\<not> length ts < pos" by auto
    have bnd: "pos \<le> a" "a \<le> b" "b \<le> length ts" using doExecute_bounds[OF ab] by auto
    have rest: "wf_runes (replace_from r (runes rep) ts b (max (Suc pos) b))"
      using p by (intro less.hyps) auto
    have gap: "wf_runes (take (a - lst) (drop lst ts))" using wf by blast
    show ?thesis
    proof (cases "lst < b \<or> a = 0")
      case True
      then show ?thesis using wf_runes_around[OF gap rest rep] ab p
        by (simp add: replace_from.simps[of r _ ts lst pos])
    next
      case False
      then have "a - lst = 0" using bnd by simp
      then show ?thesis using False rest ab p
        by (simp add: replace_from.simps[of r _ ts lst pos])
    qed
  qed
qed

lemma runes_ReplaceAllString:
  "ascii_ends rep \<Longrightarrow> runes (ReplaceAllString r s rep) = replace_runes r (runes rep) (runes s)"
  using wf_replace_from[of "runes s" rep 0 0 r]
  by (simp add: ReplaceAllString_def replace_runes_def wf_runes_def)

text \<open>
  The conditions under which replacing \<open>r\<close> by \<open>rep\<close> is final: \<open>r\<close> has no assertion, matches no
  empty text, and the replacement starts and ends with an ASCII character \<open>r\<close> cannot consume and
  holds no match itself.
\<close>

definition final_for :: "regex \<Rightarrow> string \<Rightarrow> bool" where
  "final_for r rep = (look_free r \<and> ascii_ends rep \<and> fenced r (runes rep))"

lemma ReplaceAllString_clean:
  "final_for r rep \<Longrightarrow> \<not> nullable r \<Longrightarrow> \<not> MatchString r (ReplaceAllString r s rep)"
  by (simp add: final_for_def MatchString_def runes_ReplaceAllString replace_runes_def
      replace_from_clean)

lemma ReplaceAllString_keeps_clean:
  "final_for r rep \<Longrightarrow> \<not> MatchString r s \<Longrightarrow> \<not> MatchString r (ReplaceAllString q s rep)"
  by (simp add: final_for_def MatchString_def runes_ReplaceAllString replace_runes_def
      replace_from_keeps_clean)

lemma ReplaceAllString_splice:
  "ReplaceAllString r s rep = bytes_of (splice (runes rep) (runes s) 0 (FindAllStringIndex r s))"
  by (simp add: ReplaceAllString_def replace_runes_def FindAllStringIndex_def replace_from_splice)

lemma ReplaceAllString_no_match:
  "\<not> MatchString r s \<Longrightarrow> ReplaceAllString r s rep = s"
  by (simp add: ReplaceAllString_splice FindAll_Nil_iff[symmetric])

text \<open>
  A cheap sufficient condition: every match of \<open>r\<close> consumes a rune of the class \<open>cs\<close>, and the text
  holds none.
\<close>

fun requires :: "regex \<Rightarrow> (nat \<times> nat) list \<Rightarrow> bool" where
  "requires RNone cs = True"
| "requires (RClass ds) cs = list_all (\<lambda>d. List.member cs d) ds"
| "requires (RSeq r s) cs = (requires r cs \<or> requires s cs)"
| "requires (RAlt r s) cs = (requires r cs \<and> requires s cs)"
| "requires r cs = False"

lemma requires_matches:
  "matches_in r p m ys \<Longrightarrow> requires r cs \<Longrightarrow> \<exists>x\<in>set m. in_class cs (rune_code x)"
  by (induction rule: matches_in.induct)
    (force simp: in_class_def list_ex_iff list_all_iff List.member_iff)+

lemma requires_no_match:
  assumes "requires r cs" "\<forall>x\<in>set ts. \<not> in_class cs (rune_code x)"
  shows "\<not> has_match r ts"
  using assms requires_matches by (fastforce simp: has_match_iff)

text \<open>
  \<open>shielded cs r\<close> and \<open>bracketed cs rep\<close> together make a replacement final: \<open>r\<close> never consumes a
  square bracket and always consumes a rune of \<open>cs\<close>; \<open>rep\<close> is a bracketed text without such a rune.
\<close>

definition shielded :: "(nat \<times> nat) list \<Rightarrow> regex \<Rightarrow> bool" where
  "shielded cs r = (look_free r \<and> \<not> nullable r \<and> requires r cs
     \<and> \<not> in_class (alphabet r) 91 \<and> \<not> in_class (alphabet r) 93)"

definition bracketed :: "(nat \<times> nat) list \<Rightarrow> string \<Rightarrow> bool" where
  "bracketed cs rep = (ascii_ends rep \<and> runes rep \<noteq> [] \<and> rune_code (hd (runes rep)) = 91
     \<and> rune_code (last (runes rep)) = 93 \<and> list_all (\<lambda>x. \<not> in_class cs (rune_code x)) (runes rep))"

lemma shielded_final: "shielded cs r \<Longrightarrow> bracketed cs rep \<Longrightarrow> final_for r rep"
  by (auto simp: shielded_def bracketed_def final_for_def fenced_def list_all_iff
      dest: requires_no_match)

lemma shielded_no_match: "shielded cs r \<Longrightarrow> bracketed cs rep \<Longrightarrow> \<not> MatchString r rep"
  by (auto dest!: shielded_final simp: final_for_def fenced_def MatchString_def)

end
