(* ===== verification/Patterns.thy ===== *)
theory Patterns
  imports GoRegexp
begin

text \<open>
  \<^verbatim>\<open>internal/redact/patterns.go\<close>: the built-in redaction patterns, each regular expression
  transcribed operator by operator into the syntax tree of \<open>GoRegexp\<close>, in the source's order. Under
  \<^verbatim>\<open>(?i)\<close> a letter class also holds U+017F and U+212A, which fold to \<open>s\<close> and \<open>k\<close>.
\<close>

section \<open>Character classes\<close>

definition chars :: "string \<Rightarrow> (nat \<times> nat) list" where
  "chars s = map (\<lambda>c. (byte_of c, byte_of c)) s"

definition digit :: "(nat \<times> nat) list" where "digit = [(48, 57)]"
definition upper :: "(nat \<times> nat) list" where "upper = [(65, 90)]"
definition lower :: "(nat \<times> nat) list" where "lower = [(97, 122)]"
definition letters :: "(nat \<times> nat) list" where "letters = [(65, 90), (97, 122)]"
definition alnum :: "(nat \<times> nat) list" where "alnum = [(48, 57), (65, 90), (97, 122)]"
definition hexdig :: "(nat \<times> nat) list" where "hexdig = [(48, 57), (65, 70), (97, 102)]"

text \<open>\<^verbatim>\<open>[A-Za-z0-9]\<close> under \<^verbatim>\<open>(?i)\<close>.\<close>

definition alnum_fold :: "(nat \<times> nat) list" where
  "alnum_fold = [(48, 57), (65, 90), (97, 122), (383, 383), (8490, 8490)]"

text \<open>\<^verbatim>\<open>\s\<close> is tab, newline, form feed, carriage return and space; \<^verbatim>\<open>\S\<close> is every other rune.\<close>

definition perl_space :: "(nat \<times> nat) list" where
  "perl_space = [(9, 10), (12, 13), (32, 32)]"

definition non_space :: "(nat \<times> nat) list" where
  "non_space = [(0, 8), (11, 11), (14, 31), (33, 1114111)]"

definition word_b :: regex where "word_b = RAssert WordBoundary"

section \<open>The built-in expressions\<close>

definition re_bearer :: regex where
  "re_bearer = RSeqs [RLitFold ''Bearer'', RPlus (RClass perl_space),
     RPlus (RClass (alnum_fold @ chars ''-._~+/'')), RStar True (RLit ''='')]"

definition re_jwt :: regex where
  "re_jwt = RSeqs [RLit ''eyJ'', RPlus (RClass (alnum @ chars ''_-'')), RLit ''.eyJ'',
     RPlus (RClass (alnum @ chars ''_-'')), RLit ''.'', RPlus (RClass (alnum @ chars ''_-''))]"

definition re_basic :: regex where
  "re_basic = RSeqs [RLitFold ''Basic'', RPlus (RClass perl_space),
     RPlus (RClass (alnum_fold @ chars ''+/'')), RStar True (RLit ''='')]"

definition re_aws_key :: regex where
  "re_aws_key = RSeqs [RAlts [RLit ''AKIA'', RLit ''ASIA''], RTimes 16 (RClass (upper @ digit))]"

definition re_aws_secret :: regex where
  "re_aws_secret = RSeqs [RAlts [RLitFold ''aws_secret_access_key'', RLitFold ''secret_key''],
     RStar True (RClass perl_space), RClass (chars ''=:''), RStar True (RClass perl_space),
     RTimes 40 (RClass (alnum_fold @ chars ''/+=''))]"

definition re_private_key :: regex where
  "re_private_key = RSeqs [RLit ''-----BEGIN '',
     RQuest (RAlts [RLit ''RSA '', RLit ''EC '', RLit ''DSA '']), RLit ''PRIVATE KEY-----'']"

definition re_password :: regex where
  "re_password = RSeqs [RLitFold ''password'', RStar True (RClass perl_space), RClass (chars ''=:''),
     RStar True (RClass perl_space), RPlus (RClass non_space)]"

definition re_apikey :: regex where
  "re_apikey = RSeqs [RLitFold ''api'', RQuest (RClass (chars ''_-'')), RLitFold ''key'',
     RStar True (RClass perl_space), RClass (chars ''=:''), RStar True (RClass perl_space),
     RPlus (RClass non_space)]"

definition re_visa :: regex where
  "re_visa = RSeqs [word_b, RLit ''4'', RTimes 12 (RClass digit), RQuest (RTimes 3 (RClass digit)), word_b]"

definition re_mastercard :: regex where
  "re_mastercard = RSeqs [word_b, RLit ''5'', RClass [(49, 53)], RTimes 14 (RClass digit), word_b]"

definition re_amex :: regex where
  "re_amex = RSeqs [word_b, RLit ''3'', RClass (chars ''47''), RTimes 13 (RClass digit), word_b]"

definition re_discover :: regex where
  "re_discover = RSeqs [word_b, RLit ''6'',
     RAlts [RLit ''011'', RSeqs [RLit ''5'', RTimes 2 (RClass digit)]], RTimes 12 (RClass digit), word_b]"

definition re_iban :: regex where
  "re_iban = RSeqs [word_b, RTimes 2 (RClass upper), RTimes 2 (RClass digit),
     RTimes 4 (RClass (upper @ digit)), RTimes 7 (RClass digit),
     RUpto 16 (RQuest (RClass (upper @ digit))), word_b]"

definition re_uuid :: regex where
  "re_uuid = RSeqs [word_b, RTimes 8 (RClass hexdig), RLit ''-'', RTimes 4 (RClass hexdig), RLit ''-'',
     RTimes 4 (RClass hexdig), RLit ''-'', RTimes 4 (RClass hexdig), RLit ''-'',
     RTimes 12 (RClass hexdig), word_b]"

definition re_email :: regex where
  "re_email = RSeqs [RPlus (RClass (alnum @ chars ''._%+-'')), RLit ''@'',
     RPlus (RClass (alnum @ chars ''.-'')), RLit ''.'', RAtLeast 2 (RClass letters)]"

definition re_ssn :: regex where
  "re_ssn = RSeqs [word_b, RTimes 3 (RClass digit), RLit ''-'', RTimes 2 (RClass digit), RLit ''-'',
     RTimes 4 (RClass digit), word_b]"

definition re_phone :: regex where
  "re_phone = RSeqs [
     RQuest (RSeqs [RQuest (RLit ''+''), RLit ''1'', RClass (chars ''-.'' @ perl_space)]),
     RQuest (RLit ''(''), RTimes 3 (RClass digit), RLit '')'', RClass (chars ''-.'' @ perl_space),
     RTimes 3 (RClass digit), RClass (chars ''-.'' @ perl_space), RTimes 4 (RClass digit), word_b]"

definition re_address :: regex where
  "re_address = RSeqs [word_b, RRange 1 5 (RClass digit), RPlus (RClass perl_space), RClass upper,
     RStar True (RClass letters),
     RStar True (RSeqs [RPlus (RClass perl_space), RClass upper, RStar True (RClass letters)]),
     RPlus (RClass perl_space),
     RAlts (map RLit [''Street'', ''St'', ''Avenue'', ''Ave'', ''Boulevard'', ''Blvd'', ''Drive'', ''Dr'',
       ''Road'', ''Rd'', ''Lane'', ''Ln'', ''Court'', ''Ct'', ''Way'', ''Place'', ''Pl'']), word_b]"

definition re_ipv4 :: regex where
  "re_ipv4 = RSeqs [word_b, RTimes 3 (RSeqs [RRange 1 3 (RClass digit), RLit ''.'']),
     RRange 1 3 (RClass digit), word_b]"

definition hex_group :: regex where
  "hex_group = RRange 1 4 (RClass hexdig)"

definition re_ipv6 :: regex where
  "re_ipv6 = RAlts [
     RSeqs [word_b, RTimes 7 (RSeqs [hex_group, RLit '':'']), hex_group, word_b],
     RSeqs [word_b, RRange 1 7 (RSeqs [hex_group, RLit '':'']), RLit '':''],
     RSeqs [word_b, RRange 1 6 (RSeqs [hex_group, RLit '':'']), RLit '':'', hex_group, word_b],
     RSeqs [RLit ''::'', hex_group, RStar True (RSeqs [RLit '':'', hex_group]), word_b]]"

section \<open>The pattern table\<close>

record pattern =
  pat_category :: string
  pat_name :: string
  pat_regex :: regex
  pat_replacement :: string

definition mk_pattern :: "string \<Rightarrow> string \<Rightarrow> regex \<Rightarrow> string \<Rightarrow> pattern" where
  "mk_pattern c n r t = \<lparr>pat_category = c, pat_name = n, pat_regex = r, pat_replacement = t\<rparr>"

definition builtinPatterns :: "pattern list" where
  "builtinPatterns =
   [mk_pattern ''credentials'' ''bearer'' re_bearer ''[token]'',
    mk_pattern ''credentials'' ''jwt'' re_jwt ''[jwt]'',
    mk_pattern ''credentials'' ''basic'' re_basic ''[basic]'',
    mk_pattern ''credentials'' ''aws-key'' re_aws_key ''[aws-key]'',
    mk_pattern ''credentials'' ''aws-secret'' re_aws_secret ''[aws-secret]'',
    mk_pattern ''credentials'' ''private-key'' re_private_key ''[private-key]'',
    mk_pattern ''credentials'' ''password'' re_password ''[password]'',
    mk_pattern ''credentials'' ''apikey'' re_apikey ''[apikey]'',
    mk_pattern ''financial'' ''visa'' re_visa ''[card]'',
    mk_pattern ''financial'' ''mastercard'' re_mastercard ''[card]'',
    mk_pattern ''financial'' ''amex'' re_amex ''[card]'',
    mk_pattern ''financial'' ''discover'' re_discover ''[card]'',
    mk_pattern ''financial'' ''iban'' re_iban ''[iban]'',
    mk_pattern ''other'' ''uuid'' re_uuid ''[uuid]'',
    mk_pattern ''pii'' ''email'' re_email ''[email]'',
    mk_pattern ''pii'' ''ssn'' re_ssn ''[ssn]'',
    mk_pattern ''pii'' ''phone'' re_phone ''[phone]'',
    mk_pattern ''pii'' ''address'' re_address ''[address]'',
    mk_pattern ''network'' ''ipv4'' re_ipv4 ''[ip]'',
    mk_pattern ''network'' ''ipv6'' re_ipv6 ''[ip]'']"

end
