(* ===== verification/Redact.thy ===== *)
theory Redact
  imports Patterns Metrics GoStrings
begin

text \<open>
  \<^verbatim>\<open>internal/redact\<close>: the redactor, the security boundary between cluster text and the brain.
  \<open>Redactor_New\<close> is \<^verbatim>\<open>New\<close>, \<open>redactLine\<close>, \<open>RedactString\<close> and \<open>Redact\<close> are the methods, with the
  metrics registry threaded through. Compiling an operator-supplied expression
  (\<^verbatim>\<open>regexp.Compile\<close>) is the parameter \<open>compile\<close>: every theorem holds for whatever expressions it
  returns.
\<close>

section \<open>Constants and state\<close>

definition defaultMaxLineBytes :: int where "defaultMaxLineBytes = 8 * 1024"
definition defaultMaxTotalBytes :: int where "defaultMaxTotalBytes = 256 * 1024"
definition defaultMaxStringBytes :: int where "defaultMaxStringBytes = 16 * 1024"

definition droppedStringMarker :: string where
  "droppedStringMarker = ''[redacted: string dropped by size guard]''"

definition droppedLineMarker :: string where
  "droppedLineMarker = ''[redacted: line dropped by size guard]''"

text \<open>The marker of the byte budget; the source's dash is U+2014, three bytes in UTF-8.\<close>

definition budgetMarker :: "int \<Rightarrow> string" where
  "budgetMarker n = ''[redacted: '' @ itoa n @ '' further lines dropped ''
     @ [CHR 0xE2, CHR 0x80, CHR 0x94] @ '' payload byte budget reached]''"

record Stats =
  TotalLines :: int
  RedactedLines :: int
  DroppedLines :: int
  Replacements :: int
  ByCategory :: "string \<Rightarrow> int"

record Redactor =
  red_patterns :: "pattern list"
  maxLineBytes :: int
  maxTotalBytes :: int
  maxStringBytes :: int
  logStats :: bool

section \<open>Construction\<close>

fun parseExtra :: "(string \<Rightarrow> regex option) \<Rightarrow> string list \<Rightarrow> pattern list" where
  "parseExtra compile [] = []"
| "parseExtra compile (p # ps) =
    (let q = TrimSpace p in
     if q = [] then parseExtra compile ps
     else case compile q of
            None \<Rightarrow> parseExtra compile ps
          | Some re \<Rightarrow> mk_pattern ''custom'' q re ''[redacted]'' # parseExtra compile ps)"

definition parseExtraPatterns :: "(string \<Rightarrow> regex option) \<Rightarrow> string \<Rightarrow> pattern list" where
  "parseExtraPatterns compile raw =
    (if raw = [] then [] else parseExtra compile (Split raw (CHR '','')))"

definition Redactor_New ::
    "(string \<Rightarrow> regex option) \<Rightarrow> string \<Rightarrow> bool \<Rightarrow> int \<Rightarrow> int \<Rightarrow> int \<Rightarrow> Redactor" where
  "Redactor_New compile extraPatterns logs maxLine maxTotal maxString =
    \<lparr>red_patterns = builtinPatterns @ parseExtraPatterns compile extraPatterns,
     maxLineBytes = (if maxLine \<le> 0 then defaultMaxLineBytes else maxLine),
     maxTotalBytes = (if maxTotal \<le> 0 then defaultMaxTotalBytes else maxTotal),
     maxStringBytes = (if maxString \<le> 0 then defaultMaxStringBytes else maxString),
     logStats = logs\<rparr>"

section \<open>Redaction\<close>

text \<open>The loop of \<^verbatim>\<open>RedactString\<close> over the patterns: the text and the number of replacements.\<close>

fun redact_patterns :: "pattern list \<Rightarrow> string \<Rightarrow> nat \<Rightarrow> string \<times> nat" where
  "redact_patterns [] s n = (s, n)"
| "redact_patterns (p # ps) s n =
    (let matches = FindAllStringIndex (pat_regex p) s in
     if length matches > 0
     then redact_patterns ps (ReplaceAllString (pat_regex p) s (pat_replacement p)) (n + length matches)
     else redact_patterns ps s n)"

definition RedactString :: "Redactor \<Rightarrow> metrics \<Rightarrow> string \<Rightarrow> string \<times> metrics" where
  "RedactString R m s =
    (if s = [] then (s, m)
     else if int (length s) > maxStringBytes R
     then (droppedStringMarker, inc_LinesDropped ''oversize-string'' m)
     else let (s', replacements) = redact_patterns (red_patterns R) s 0 in
          (s', if replacements > 0 then add_RedactReplacements ''string'' replacements m else m))"

text \<open>The loop of \<^verbatim>\<open>redactLine\<close>, which also updates the statistics.\<close>

fun redactLine_loop :: "pattern list \<Rightarrow> string \<Rightarrow> nat \<Rightarrow> Stats \<Rightarrow> string \<times> nat \<times> Stats" where
  "redactLine_loop [] line n st = (line, n, st)"
| "redactLine_loop (p # ps) line n st =
    (let matches = FindAllStringIndex (pat_regex p) line; k = length matches in
     if k > 0
     then redactLine_loop ps (ReplaceAllString (pat_regex p) line (pat_replacement p)) (n + k)
            (st\<lparr>Replacements := Replacements st + int k,
                ByCategory := (ByCategory st)(pat_category p := ByCategory st (pat_category p) + int k)\<rparr>)
     else redactLine_loop ps line n st)"

definition redactLine :: "Redactor \<Rightarrow> string \<Rightarrow> Stats \<Rightarrow> metrics \<Rightarrow> string \<times> nat \<times> Stats \<times> metrics" where
  "redactLine R line st m =
    (let (line', replacements, st') = redactLine_loop (red_patterns R) line 0 st in
     (line', replacements, st',
      if replacements > 0 then add_RedactReplacements ''log_line'' replacements m else m))"

text \<open>
  The loop of \<^verbatim>\<open>Redact\<close>: \<open>res\<close> are the lines emitted so far, \<open>tb\<close> the bytes counted against the
  budget. An oversize line becomes a marker; a line that would exceed the budget ends the loop.
\<close>

fun Redact_loop ::
    "Redactor \<Rightarrow> string list \<Rightarrow> string list \<Rightarrow> int \<Rightarrow> Stats \<Rightarrow> metrics \<Rightarrow> string list \<times> Stats \<times> metrics" where
  "Redact_loop R [] res tb st m = (res, st, m)"
| "Redact_loop R (line # lines) res tb st m =
    (if int (length line) > maxLineBytes R
     then Redact_loop R lines (res @ [droppedLineMarker]) tb
            (st\<lparr>DroppedLines := DroppedLines st + 1\<rparr>) (inc_LinesDropped ''oversize'' m)
     else let (redacted, lineReplacements, st', m') = redactLine R line st m in
       if tb + int (length redacted) > maxTotalBytes R
       then (res @ [budgetMarker (TotalLines st' - int (length res))],
             st'\<lparr>DroppedLines := DroppedLines st' + (TotalLines st' - int (length res))\<rparr>,
             inc_LinesDropped ''budget'' m')
       else Redact_loop R lines (res @ [redacted]) (tb + int (length redacted))
              (if lineReplacements > 0 then st'\<lparr>RedactedLines := RedactedLines st' + 1\<rparr> else st') m')"

definition Redact :: "Redactor \<Rightarrow> metrics \<Rightarrow> string list \<Rightarrow> string list \<times> Stats \<times> metrics" where
  "Redact R m lines =
    Redact_loop R lines [] 0
      \<lparr>TotalLines = int (length lines), RedactedLines = 0, DroppedLines = 0, Replacements = 0,
       ByCategory = (\<lambda>_. 0)\<rparr> m"

section \<open>Specification: one decision per input line\<close>

datatype decision = Oversize | Kept string nat | OverBudget nat

fun decide :: "Redactor \<Rightarrow> int \<Rightarrow> string list \<Rightarrow> decision list" where
  "decide R used [] = []"
| "decide R used (l # ls) =
    (if int (length l) > maxLineBytes R then Oversize # decide R used ls
     else let (t, k) = redact_patterns (red_patterns R) l 0 in
       if used + int (length t) > maxTotalBytes R then [OverBudget k]
       else Kept t k # decide R (used + int (length t)) ls)"

fun render :: "nat \<Rightarrow> decision list \<Rightarrow> string list" where
  "render n [] = []"
| "render n (Oversize # ds) = droppedLineMarker # render (n - 1) ds"
| "render n (Kept t k # ds) = t # render (n - 1) ds"
| "render n (OverBudget k # ds) = [budgetMarker (int n)]"

fun dropped_count :: "nat \<Rightarrow> decision list \<Rightarrow> nat" where
  "dropped_count n [] = 0"
| "dropped_count n (Oversize # ds) = Suc (dropped_count (n - 1) ds)"
| "dropped_count n (Kept t k # ds) = dropped_count (n - 1) ds"
| "dropped_count n (OverBudget k # ds) = n"

fun kept_texts :: "decision list \<Rightarrow> string list" where
  "kept_texts [] = []"
| "kept_texts (Kept t k # ds) = t # kept_texts ds"
| "kept_texts (d # ds) = kept_texts ds"

fun hits :: "decision \<Rightarrow> nat" where
  "hits Oversize = 0"
| "hits (Kept t k) = k"
| "hits (OverBudget k) = k"

fun is_rewritten :: "decision \<Rightarrow> bool" where
  "is_rewritten (Kept t k) = (k > 0)"
| "is_rewritten _ = False"

fun is_over_budget :: "decision \<Rightarrow> bool" where
  "is_over_budget (OverBudget k) = True"
| "is_over_budget _ = False"

lemma redactLine_loop_agrees:
  "redactLine_loop ps line n st = (fst (redact_patterns ps line n), snd (redact_patterns ps line n),
     snd (snd (redactLine_loop ps line n st)))"
  by (induction ps line n st rule: redactLine_loop.induct) (auto simp: Let_def)

lemma redactLine_loop_stats:
  fixes st :: Stats
  shows "let st' = snd (snd (redactLine_loop ps line n st)) in
     TotalLines st' = TotalLines st \<and> RedactedLines st' = RedactedLines st
     \<and> DroppedLines st' = DroppedLines st
     \<and> Replacements st' - int (fst (snd (redactLine_loop ps line n st))) = Replacements st - int n"
  by (induction ps line n st rule: redactLine_loop.induct) (auto simp: Let_def)

lemma redactLine_patterns:
  fixes st :: Stats
  assumes "redactLine R line st m = (t, k, st', m')"
  shows "redact_patterns (red_patterns R) line 0 = (t, k)"
    and "TotalLines st' = TotalLines st" "RedactedLines st' = RedactedLines st"
    and "DroppedLines st' = DroppedLines st" "Replacements st' = Replacements st + int k"
    and "m' = (if k > 0 then add_RedactReplacements ''log_line'' k m else m)"
  using assms redactLine_loop_agrees[of "red_patterns R" line 0 st]
    redactLine_loop_stats[of "red_patterns R" line 0 st]
  by (auto simp: redactLine_def Let_def prod_eq_iff split: prod.splits if_splits)

lemma Redact_loop_lines:
  fixes st :: Stats
  assumes "TotalLines st = int (length res + length lines)"
  shows "fst (Redact_loop R lines res tb st m) = res @ render (length lines) (decide R tb lines)"
  using assms
proof (induction R lines res tb st m rule: Redact_loop.induct)
  case (2 R line lines res tb st m)
  obtain t k st' m' where rl: "redactLine R line st m = (t, k, st', m')" by (metis prod_cases4)
  note facts = redactLine_patterns[OF rl]
  show ?case using 2 rl facts by (auto simp: Let_def)
qed simp

lemma Redact_loop_stats:
  fixes st :: Stats
  assumes "TotalLines st = int (length res + length lines)"
  shows "let st' = fst (snd (Redact_loop R lines res tb st m)); ds = decide R tb lines in
     TotalLines st' = TotalLines st
     \<and> DroppedLines st' = DroppedLines st + int (dropped_count (length lines) ds)
     \<and> RedactedLines st' = RedactedLines st + int (length (filter is_rewritten ds))
     \<and> Replacements st' = Replacements st + int (sum_list (map hits ds))"
  using assms
proof (induction R lines res tb st m rule: Redact_loop.induct)
  case (2 R line lines res tb st m)
  obtain t k st' m' where rl: "redactLine R line st m = (t, k, st', m')" by (metis prod_cases4)
  note facts = redactLine_patterns[OF rl]
  show ?case using 2 rl facts by (auto simp: Let_def)
qed simp

lemma Redact_loop_metrics:
  "let m' = snd (snd (Redact_loop R lines res tb st m)); ds = decide R tb lines in
     RedactReplacements m' = add_at ''log_line'' (sum_list (map hits ds)) (RedactReplacements m)
     \<and> LinesDropped m' ''oversize'' = LinesDropped m ''oversize'' + length (filter (\<lambda>d. d = Oversize) ds)
     \<and> LinesDropped m' ''budget'' = LinesDropped m ''budget'' + (if list_ex is_over_budget ds then 1 else 0)"
proof (induction R lines res tb st m rule: Redact_loop.induct)
  case (2 R line lines res tb st m)
  obtain t k st' m' where rl: "redactLine R line st m = (t, k, st', m')" by (metis prod_cases4)
  note facts = redactLine_patterns[OF rl]
  show ?case using 2 rl facts by (auto simp: Let_def fun_eq_iff)
qed (simp add: fun_eq_iff)

lemma decide_length: "length (decide R tb ls) \<le> length ls"
  by (induction R tb ls rule: decide.induct) (auto split: prod.splits)

lemma decide_accounts: "length (kept_texts (decide R tb ls)) + dropped_count (length ls) (decide R tb ls) = length ls"
  by (induction R tb ls rule: decide.induct) (auto split: prod.splits)

lemma decide_budget:
  "used \<le> maxTotalBytes R \<Longrightarrow>
   used + int (sum_list (map length (kept_texts (decide R used ls)))) \<le> maxTotalBytes R"
  by (induction R used ls rule: decide.induct) (auto simp: add.assoc split: prod.splits)

lemma render_length: "length (render n ds) \<le> length ds"
  by (induction n ds rule: render.induct) auto

fun explains :: "Redactor \<Rightarrow> decision \<Rightarrow> string \<Rightarrow> bool" where
  "explains R Oversize l = (int (length l) > maxLineBytes R)"
| "explains R (Kept t k) l =
    (int (length l) \<le> maxLineBytes R \<and> (t, k) = redact_patterns (red_patterns R) l 0)"
| "explains R (OverBudget k) l =
    (int (length l) \<le> maxLineBytes R \<and> k = snd (redact_patterns (red_patterns R) l 0))"

lemma decide_explains:
  "list_all2 (explains R) (decide R used ls) (take (length (decide R used ls)) ls)"
  by (induction R used ls rule: decide.induct) (auto split: prod.splits)

lemma render_set:
  "set (render n ds) \<subseteq> {droppedLineMarker} \<union> set (kept_texts ds) \<union> range (\<lambda>n. budgetMarker (int n))"
  by (induction n ds rule: render.induct) auto

lemma kept_texts_redacted:
  "t \<in> set (kept_texts (decide R used ls)) \<Longrightarrow> \<exists>l\<in>set ls. t = fst (redact_patterns (red_patterns R) l 0)"
  by (induction R used ls rule: decide.induct) (force split: prod.splits if_splits)+


section \<open>Properties\<close>

text \<open>C26: \<open>Redact\<close> implements the per-line specification. The emitted lines are the rendering of the
  decisions of \<open>decide\<close>: one marker per oversize line, the rewritten text of a line that fits, and a
  single final marker with the number of lines cut off once the byte budget is exhausted; and every
  decision is the right one for the input line at its position.\<close>

theorem Redact_refines:
  "fst (Redact R m lines) = render (length lines) (decide R 0 lines)
   \<and> list_all2 (explains R) (decide R 0 lines) (take (length (decide R 0 lines)) lines)"
  by (simp add: Redact_def Redact_loop_lines decide_explains)

text \<open>C27: the statistics and the counters are exact. Every input line is either emitted rewritten or
  counted in \<open>DroppedLines\<close>, \<open>RedactedLines\<close> counts the emitted lines with a replacement, and the
  \<^verbatim>\<open>log_line\<close> counter grows by exactly \<open>Replacements\<close>; the drop counter grows once per oversize line, and
  once for the whole cut-off rest when the budget is exhausted.\<close>

theorem Redact_accounts:
  "let ds = decide R 0 lines; (out, st, m') = Redact R m lines in
     TotalLines st = int (length lines)
     \<and> int (length (kept_texts ds)) + DroppedLines st = TotalLines st
     \<and> RedactedLines st = int (length (filter is_rewritten ds))
     \<and> Replacements st = int (sum_list (map hits ds))
     \<and> RedactReplacements m' = add_at ''log_line'' (nat (Replacements st)) (RedactReplacements m)
     \<and> LinesDropped m' ''oversize'' = LinesDropped m ''oversize'' + length (filter (\<lambda>d. d = Oversize) ds)
     \<and> LinesDropped m' ''budget'' = LinesDropped m ''budget'' + (if list_ex is_over_budget ds then 1 else 0)"
proof -
  let ?st0 = "\<lparr>TotalLines = int (length lines), RedactedLines = 0, DroppedLines = 0, Replacements = 0,
       ByCategory = (\<lambda>_. 0)\<rparr>"
  show ?thesis
    using Redact_loop_stats[of ?st0 "[]" lines R 0 m] Redact_loop_metrics[of R lines "[]" 0 ?st0 m]
      decide_accounts[of R 0 lines]
    by (simp add: Redact_def Let_def split_beta)
qed


text \<open>\<open>RedactString\<close> on every branch. The empty string is returned unchanged; a string over the guard
  is replaced by the marker and counted, its content never reaching an expression; any other string
  gets exactly the rewriting that the log path \<open>redactLine\<close> gives the same text, with as many
  replacements counted.\<close>

theorem RedactString_branches:
  "let (t, m') = RedactString R m s; (lt, k, st', lm) = redactLine R s st m in
     if s = [] then t = s \<and> m' = m
     else if int (length s) > maxStringBytes R
     then t = droppedStringMarker \<and> m' = inc_LinesDropped ''oversize-string'' m
     else t = lt \<and> RedactReplacements m' = add_at ''string'' k (RedactReplacements m)
          \<and> LinesDropped m' = LinesDropped m"
  using redactLine_loop_agrees[of "red_patterns R" s 0 st]
  by (auto simp: RedactString_def redactLine_def Let_def fun_eq_iff split: prod.splits)

end
