(* ===== verification/RedactSafety.thy ===== *)
theory RedactSafety
  imports Redact
begin

text \<open>
  What redaction guarantees about the text that leaves the cluster. The locale \<open>rewriting_passes\<close>
  states what a pipeline of rewriting passes needs so that a pattern removed by one pass is not
  brought back by a later one; it is interpreted on the redactor's own patterns. The protected
  expressions are the seven whose matches provably never survive, whatever patterns the operator
  adds; the two last theorems exhibit what the pattern list does let through.
\<close>

section \<open>The pattern pipeline as rewriting passes\<close>

definition apply_pattern :: "pattern \<Rightarrow> string \<Rightarrow> string" where
  "apply_pattern p s = ReplaceAllString (pat_regex p) s (pat_replacement p)"

lemma redact_patterns_text: "fst (redact_patterns ps s n) = fold apply_pattern ps s"
  by (induction ps s n rule: redact_patterns.induct)
    (auto simp: Let_def apply_pattern_def ReplaceAllString_no_match FindAll_Nil_iff)

locale rewriting_passes =
  fixes pass :: "'p \<Rightarrow> 's \<Rightarrow> 's"
    and dirty :: "'k \<Rightarrow> 's \<Rightarrow> bool"
    and admissible :: "'p \<Rightarrow> bool"
    and removes :: "'p \<Rightarrow> 'k \<Rightarrow> bool"
  assumes removed: "admissible p \<Longrightarrow> removes p k \<Longrightarrow> \<not> dirty k (pass p s)"
    and kept_out: "admissible p \<Longrightarrow> \<not> dirty k s \<Longrightarrow> \<not> dirty k (pass p s)"
begin

lemma fold_kept_out: "list_all admissible ps \<Longrightarrow> \<not> dirty k s \<Longrightarrow> \<not> dirty k (fold pass ps s)"
  by (induction ps arbitrary: s) (auto dest: kept_out)

lemma fold_removed:
  "list_all admissible ps \<Longrightarrow> list_ex (\<lambda>p. removes p k) ps \<Longrightarrow> \<not> dirty k (fold pass ps s)"
proof (induction ps arbitrary: s)
  case (Cons p ps)
  then show ?case using removed fold_kept_out by (cases "removes p k") auto
qed simp

end

text \<open>The expressions whose matches provably never survive, and what each of them must consume.\<close>

definition leak_class :: "(nat \<times> nat) list" where
  "leak_class = perl_space @ chars ''.A_@''"

definition protected_regexes :: "regex list" where
  "protected_regexes =
    [re_bearer, re_jwt, re_basic, re_aws_key, re_aws_secret, re_private_key, re_email]"

lemma protected_shielded: "list_all (shielded leak_class) protected_regexes"
  by code_simp

lemma builtin_bracketed: "list_all (\<lambda>p. bracketed leak_class (pat_replacement p)) builtinPatterns"
  by code_simp

lemma protected_builtin:
  "list_all (\<lambda>r. list_ex (\<lambda>p. pat_regex p = r) builtinPatterns) protected_regexes"
  by (simp add: protected_regexes_def builtinPatterns_def mk_pattern_def)

lemma custom_bracketed: "bracketed leak_class ''[redacted]''"
  by code_simp

lemma parseExtra_bracketed: "list_all (\<lambda>p. bracketed leak_class (pat_replacement p)) (parseExtra compile ps)"
  by (induction compile ps rule: parseExtra.induct)
    (auto simp: Let_def custom_bracketed mk_pattern_def split: option.splits)

interpretation redaction: rewriting_passes apply_pattern
  "\<lambda>r s. r \<in> set protected_regexes \<and> MatchString r s"
  "\<lambda>p. bracketed leak_class (pat_replacement p)" "\<lambda>p r. pat_regex p = r"
proof (unfold_locales, goal_cases)
  case (1 p r s)
  then show ?case using protected_shielded ReplaceAllString_clean shielded_final
    by (auto simp: apply_pattern_def list_all_iff shielded_def)
next
  case (2 p r s)
  then show ?case using protected_shielded ReplaceAllString_keeps_clean shielded_final
    by (auto simp: apply_pattern_def list_all_iff)
qed


lemma new_bracketed:
  "list_all (\<lambda>p. bracketed leak_class (pat_replacement p)) (red_patterns (Redactor_New compile x l a b c))"
  using builtin_bracketed parseExtra_bracketed
  by (auto simp: Redactor_New_def parseExtraPatterns_def)

lemma new_has_protected:
  "r \<in> set protected_regexes \<Longrightarrow>
   list_ex (\<lambda>p. pat_regex p = r) (red_patterns (Redactor_New compile x l a b c))"
  using protected_builtin by (simp add: list_all_iff Redactor_New_def)

lemma redact_patterns_clean:
  assumes "r \<in> set protected_regexes"
  shows "\<not> MatchString r (fst (redact_patterns (red_patterns (Redactor_New compile x l a b c)) s n))"
  using redaction.fold_removed[OF new_bracketed new_has_protected[OF assms]] assms
  by (auto simp: redact_patterns_text)

lemma runes_ascii_str:
  "list_all (\<lambda>c. byte_of c < 128) s \<Longrightarrow> runes s = map (\<lambda>c. Rune (byte_of c) [c]) s"
  by (induction s) (auto simp: runes_ascii)

lemma itoa_ascii: "list_all (\<lambda>c. byte_of c < 128) (itoa n)"
  using itoa_chars[of _ n] by (fastforce simp: list_all_iff is_digit_def byte_of_def)

definition budget_head :: "int \<Rightarrow> string" where
  "budget_head n = ''[redacted: '' @ itoa n @ '' further lines dropped ''"

definition budget_tail :: string where
  "budget_tail = '' payload byte budget reached]''"

lemma runes_budgetMarker:
  "runes (budgetMarker n) = map (\<lambda>c. Rune (byte_of c) [c]) (budget_head n)
     @ Rune 8212 [CHR 0xE2, CHR 0x80, CHR 0x94] # map (\<lambda>c. Rune (byte_of c) [c]) budget_tail"
proof -
  have h: "list_all (\<lambda>c. byte_of c < 128) (budget_head n)"
    using itoa_ascii[of n] by (simp add: budget_head_def byte_of_def)
  have d: "runes ([CHR 0xE2, CHR 0x80, CHR 0x94] @ budget_tail)
      = Rune 8212 [CHR 0xE2, CHR 0x80, CHR 0x94] # map (\<lambda>c. Rune (byte_of c) [c]) budget_tail"
    by code_simp
  have "budgetMarker n = budget_head n @ [CHR 0xE2, CHR 0x80, CHR 0x94] @ budget_tail"
    by (simp add: budgetMarker_def budget_head_def budget_tail_def)
  moreover have "\<not> is_cont (hd ([CHR 0xE2, CHR 0x80, CHR 0x94] @ budget_tail))"
    by (simp add: is_cont_def byte_of_def)
  ultimately have "runes (budgetMarker n) = runes (budget_head n) @ runes ([CHR 0xE2, CHR 0x80, CHR 0x94] @ budget_tail)"
    using runes_append by metis
  then show ?thesis unfolding d runes_ascii_str[OF h] .
qed

lemma budget_head_codes:
  "x \<in> set (map (\<lambda>c. Rune (byte_of c) [c]) (budget_head n)) \<Longrightarrow>
   rune_code x = 45 \<or> 48 \<le> rune_code x \<and> rune_code x \<le> 57
   \<or> List.member (map byte_of ''[redacted: further lines dropped '') (rune_code x)"
  by (auto simp: budget_head_def is_digit_def byte_of_def dest!: itoa_chars)

lemma budgetMarker_clean_sep:
  assumes "look_free r" "\<not> in_class (alphabet r) 8212" "requires r (fold_char (CHR ''b''))"
    "\<not> has_match r (runes budget_tail)"
  shows "\<not> MatchString r (budgetMarker n)"
proof -
  have "\<not> in_class (fold_char (CHR ''b'')) (rune_code x)"
    if "x \<in> set (map (\<lambda>c. Rune (byte_of c) [c]) (budget_head n))" for x
    using budget_head_codes[OF that]
    by (auto simp: in_class_def fold_char_def byte_of_def)
  then have "\<not> has_match r (map (\<lambda>c. Rune (byte_of c) [c]) (budget_head n))"
    using requires_no_match[OF assms(3)] by blast
  moreover have "runes budget_tail = map (\<lambda>c. Rune (byte_of c) [c]) budget_tail"
    by (rule runes_ascii_str) (simp add: budget_tail_def byte_of_def)
  ultimately show ?thesis
    using assms(4) has_match_cut[OF assms(1), of "Rune 8212 [CHR 0xE2, CHR 0x80, CHR 0x94]"] assms(2)
    by (simp add: MatchString_def runes_budgetMarker)
qed

lemma protected_requires:
  "list_all (\<lambda>r. requires r (chars ''.A_@P''))
     [re_jwt, re_aws_key, re_aws_secret, re_private_key, re_email]"
  by code_simp

lemma protected_cases:
  assumes "r \<in> set protected_regexes"
  obtains "r = re_bearer" | "r = re_basic" | "requires r (chars ''.A_@P'')"
  using assms protected_requires by (auto simp: protected_regexes_def)

lemma requires_absent:
  assumes "requires r (chars ''.A_@P'')"
    and "\<And>x. x \<in> set (runes s) \<Longrightarrow> rune_code x \<notin> {46, 65, 95, 64, 80}"
  shows "\<not> MatchString r s"
  using requires_no_match[OF assms(1)] assms(2)
  by (fastforce simp: MatchString_def in_class_def chars_def byte_of_def)

lemma protected_clean:
  assumes "r \<in> set protected_regexes" "\<not> MatchString re_bearer s" "\<not> MatchString re_basic s"
    and "\<And>x. x \<in> set (runes s) \<Longrightarrow> rune_code x \<notin> {46, 65, 95, 64, 80}"
  shows "\<not> MatchString r s"
  using assms by (metis protected_cases requires_absent)

lemma budgetMarker_codes:
  assumes "x \<in> set (runes (budgetMarker n))"
  shows "rune_code x \<notin> {46, 65, 95, 64, 80}"
proof -
  from assms consider "x \<in> set (map (\<lambda>c. Rune (byte_of c) [c]) (budget_head n))"
    | "rune_code x = 8212" | "x \<in> set (map (\<lambda>c. Rune (byte_of c) [c]) budget_tail)"
    by (auto simp: runes_budgetMarker)
  then show ?thesis
  proof cases
    case 1
    then show ?thesis using budget_head_codes[OF 1] by (auto simp: byte_of_def)
  qed (auto simp: byte_of_def budget_tail_def)
qed

lemma bearer_basic_sep:
  "list_all (\<lambda>r. look_free r \<and> \<not> in_class (alphabet r) 8212 \<and> requires r (fold_char (CHR ''b'')))
     [re_bearer, re_basic]"
  by code_simp

lemma bearer_tail: "\<not> has_match re_bearer (runes budget_tail)"
  by code_simp

lemma bearer_string_marker: "\<not> MatchString re_bearer droppedStringMarker"
  by code_simp

lemma bearer_line_marker: "\<not> MatchString re_bearer droppedLineMarker"
  by code_simp

lemma bearer_empty: "\<not> MatchString re_bearer []"
  by code_simp

lemma basic_tail: "\<not> has_match re_basic (runes budget_tail)"
  by code_simp

lemma basic_string_marker: "\<not> MatchString re_basic droppedStringMarker"
  by code_simp

lemma basic_line_marker: "\<not> MatchString re_basic droppedLineMarker"
  by code_simp

lemma basic_empty: "\<not> MatchString re_basic []"
  by code_simp

text \<open>The three markers and the empty string contain none of the protected matches.\<close>

lemma budgetMarker_bearer: "\<not> MatchString re_bearer (budgetMarker n)"
  using bearer_basic_sep bearer_tail budgetMarker_clean_sep[of re_bearer] by simp

lemma budgetMarker_basic: "\<not> MatchString re_basic (budgetMarker n)"
  using bearer_basic_sep basic_tail budgetMarker_clean_sep[of re_basic] by simp

lemma budgetMarker_clean: "r \<in> set protected_regexes \<Longrightarrow> \<not> MatchString r (budgetMarker n)"
  by (rule protected_clean[OF _ budgetMarker_bearer budgetMarker_basic budgetMarker_codes])

lemma runes_markers:
  "runes droppedStringMarker = map (\<lambda>c. Rune (byte_of c) [c]) droppedStringMarker"
  "runes droppedLineMarker = map (\<lambda>c. Rune (byte_of c) [c]) droppedLineMarker"
  by (rule runes_ascii_str, simp add: droppedStringMarker_def droppedLineMarker_def byte_of_def)+

lemma droppedStringMarker_clean: "r \<in> set protected_regexes \<Longrightarrow> \<not> MatchString r droppedStringMarker"
  by (erule protected_clean[OF _ bearer_string_marker basic_string_marker], simp only: runes_markers)
    (auto simp: droppedStringMarker_def byte_of_def)

lemma droppedLineMarker_clean: "r \<in> set protected_regexes \<Longrightarrow> \<not> MatchString r droppedLineMarker"
  by (erule protected_clean[OF _ bearer_line_marker basic_line_marker], simp only: runes_markers)
    (auto simp: droppedLineMarker_def byte_of_def)

lemma empty_clean: "r \<in> set protected_regexes \<Longrightarrow> \<not> MatchString r []"
  by (erule protected_clean[OF _ bearer_empty basic_empty]) simp


text \<open>A text is clean when no protected expression matches in it.\<close>

definition clean :: "string \<Rightarrow> bool" where
  "clean s = list_all (\<lambda>r. \<not> MatchString r s) protected_regexes"

lemma cleanD: "clean s \<Longrightarrow> r \<in> set protected_regexes \<Longrightarrow> \<not> MatchString r s"
  by (auto simp: clean_def list_all_iff)

lemma cleanI: "(\<And>r. r \<in> set protected_regexes \<Longrightarrow> \<not> MatchString r s) \<Longrightarrow> clean s"
  by (auto simp: clean_def list_all_iff)

lemma clean_RedactString: "clean (fst (RedactString (Redactor_New compile extra logs ml mt ms) m s))"
proof (rule cleanI)
  fix r assume r: "r \<in> set protected_regexes"
  show "\<not> MatchString r (fst (RedactString (Redactor_New compile extra logs ml mt ms) m s))"
    using r redact_patterns_clean[OF r] droppedStringMarker_clean empty_clean
    by (auto simp: RedactString_def split: prod.splits) (metis fst_conv)
qed

lemma clean_Redact:
  assumes "out \<in> set (fst (Redact (Redactor_New compile extra logs ml mt ms) m lines))"
  shows "clean out"
proof (rule cleanI)
  fix r assume r: "r \<in> set protected_regexes"
  have "out \<in> set (render (length lines) (decide (Redactor_New compile extra logs ml mt ms) 0 lines))"
    using assms by (simp add: Redact_def Redact_loop_lines)
  then show "\<not> MatchString r out"
    using render_set kept_texts_redacted redact_patterns_clean[OF r]
      droppedLineMarker_clean[OF r] budgetMarker_clean[OF r] by blast
qed

section \<open>Properties\<close>

text \<open>C4: whatever the operator's extra patterns and limits are, the text that \<open>RedactString\<close> returns
  contains no bearer token, JWT, basic-auth credential, AWS key or secret, private-key header or
  email address: none of the protected expressions matches in it.\<close>

theorem RedactString_clean:
  assumes "r \<in> set protected_regexes"
  shows "\<not> MatchString r (fst (RedactString (Redactor_New compile extra logs ml mt ms) m s))"
  by (rule cleanD[OF clean_RedactString assms])

theorem RedactString_clean_witness:
  "re_jwt \<in> set protected_regexes
   \<and> \<not> MatchString re_jwt (fst (RedactString (Redactor_New (\<lambda>_. None) '''' False 0 0 0) no_metrics ''a eyJx.eyJy.z b''))
   \<and> MatchString re_jwt ''a eyJx.eyJy.z b''"
  using RedactString_clean[of re_jwt "\<lambda>_. None" "''''" False 0 0 0 no_metrics "''a eyJx.eyJy.z b''"]
  by (auto simp: protected_regexes_def) code_simp

text \<open>C7: the same for the log path: no line that \<open>Redact\<close> emits, marker lines included, contains a match
  of a protected expression.\<close>

theorem Redact_clean:
  assumes "r \<in> set protected_regexes"
    and "out \<in> set (fst (Redact (Redactor_New compile extra logs ml mt ms) m lines))"
  shows "\<not> MatchString r out"
  by (rule cleanD[OF clean_Redact[OF assms(2)] assms(1)])

theorem Redact_clean_witness:
  "let R = Redactor_New (\<lambda>_. None) '''' False 0 0 0 in
   re_email \<in> set protected_regexes \<and> MatchString re_email ''to a@b.cc''
   \<and> fst (Redact R no_metrics [''to a@b.cc'']) = [''to [email]'']
   \<and> \<not> MatchString re_email ''to [email]''"
proof -
  let ?R = "Redactor_New (\<lambda>_. None) '''' False 0 0 0"
  have e: "fst (Redact ?R no_metrics [''to a@b.cc'']) = [''to [email]'']" by code_simp
  have "re_email \<in> set protected_regexes" by (simp add: protected_regexes_def)
  moreover from this have "\<not> MatchString re_email ''to [email]''"
    by (rule Redact_clean[of _ _ "\<lambda>_. None" "''''" False 0 0 0 no_metrics "[''to a@b.cc'']"])
      (simp only: e, simp)
  moreover have "MatchString re_email ''to a@b.cc''" by code_simp
  ultimately show ?thesis using e by (simp add: Let_def)
qed

lemma ipv6_suffix_leaks:
  "fst (RedactString (Redactor_New (\<lambda>_. None) '''' False 0 0 0) no_metrics ''fe80::1ff:fe23'') = ''[ip]1ff:fe23''"
  by code_simp

lemma card_behind_email_kept:
  "fst (RedactString (Redactor_New (\<lambda>_. None) '''' False 0 0 0) no_metrics ''a@b.cc4111111111111'') = ''[email]4111111111111''"
  by code_simp

lemma card_behind_marker_removed:
  "fst (RedactString (Redactor_New (\<lambda>_. None) '''' False 0 0 0) no_metrics ''[email]4111111111111'') = ''[email][card]''"
  by code_simp


end
