(* ===== verification/Pipeline.thy ===== *)
theory Pipeline
  imports Webhook Resolver Loki Prometheus RedactSafety
begin

text \<open>
  \<^verbatim>\<open>internal/pipeline\<close>: from an alert to the payload that is forwarded. \<open>ProcessAlert\<close> is the code's
  function: resolve the target, build the payload with every free text redacted, enrich it unless the
  alert is resolved, and forward it. The state it threads is the metrics registry, the state \<open>'f\<close> of the
  forwarder and the outside world \<open>'w\<close>; \<open>forward\<close> is \<^verbatim>\<open>p.forwarder.Forward\<close>. The deadline of thirty
  seconds shows as errors of the calls made under it.
\<close>

section \<open>Data\<close>

definition maxEventsPerPayload :: nat where "maxEventsPerPayload = 50"

record ('w, 'sel) Pipeline =
  pl_clusterID :: string
  pl_grafanaBaseURL :: string
  pl_resolver :: "('w, 'sel) Resolver"
  pl_loki :: "loki_client option"
  pl_prom :: prom_client
  pl_k8sClient :: "('w, 'sel) clientset option"
  pl_redactor :: Redactor

definition Pipeline_New ::
    "string \<Rightarrow> string \<Rightarrow> ('w, 'sel) Resolver \<Rightarrow> loki_client option \<Rightarrow> prom_client
     \<Rightarrow> ('w, 'sel) clientset option \<Rightarrow> Redactor \<Rightarrow> ('w, 'sel) Pipeline" where
  "Pipeline_New clusterID grafanaBaseURL resolver lokiClient promClient k8sClient redactor =
    \<lparr>pl_clusterID = clusterID, pl_grafanaBaseURL = grafanaBaseURL, pl_resolver = resolver,
     pl_loki = lokiClient, pl_prom = promClient, pl_k8sClient = k8sClient, pl_redactor = redactor\<rparr>"

text \<open>The libraries the stages call.\<close>

record 'w pipeline_env =
  pe_isPrint :: "nat \<Rightarrow> bool"
  pe_decodeLoki :: "string \<Rightarrow> loki_response res"
  pe_decodeProm :: prom_decoders
  pe_http :: "'w http_env"
  pe_sortSlice :: "(KubernetesEvent \<Rightarrow> KubernetesEvent \<Rightarrow> bool) \<Rightarrow> KubernetesEvent list \<Rightarrow> KubernetesEvent list"

section \<open>Redacting loops\<close>

fun redact_labels :: "Redactor \<Rightarrow> strmap \<Rightarrow> metrics \<Rightarrow> Label list \<times> metrics" where
  "redact_labels R [] m = ([], m)"
| "redact_labels R ((k, v) # labels) m =
    (let (k', m1) = RedactString R m k; (v', m2) = RedactString R m1 v;
         (rest, m3) = redact_labels R labels m2 in
     (\<lparr>lb_Name = k', lb_Value = v'\<rparr> # rest, m3))"

fun redact_descriptions :: "Redactor \<Rightarrow> MetricSeries list \<Rightarrow> metrics \<Rightarrow> MetricSeries list \<times> metrics" where
  "redact_descriptions R [] m = ([], m)"
| "redact_descriptions R (s # series) m =
    (let (d, m1) = RedactString R m (ms_Description s); (rest, m2) = redact_descriptions R series m1 in
     (s\<lparr>ms_Description := d\<rparr> # rest, m2))"

fun redact_messages :: "Redactor \<Rightarrow> KubernetesEvent list \<Rightarrow> metrics \<Rightarrow> KubernetesEvent list \<times> metrics" where
  "redact_messages R [] m = ([], m)"
| "redact_messages R (e # events) m =
    (let (msg, m1) = RedactString R m (ev_Message e); (rest, m2) = redact_messages R events m1 in
     (e\<lparr>ev_Message := msg\<rparr> # rest, m2))"

section \<open>Stages\<close>

definition alert_status :: "Alert \<Rightarrow> string" where
  "alert_status alert = (if al_Status alert = '''' then ''firing'' else al_Status alert)"

definition initial_payload ::
    "('w, 'sel) Pipeline \<Rightarrow> Alert \<Rightarrow> AlertTarget \<Rightarrow> metrics \<Rightarrow> AlertPayload \<times> metrics" where
  "initial_payload P alert target m =
    (let (summary, m1) = RedactString (pl_redactor P) m (lookup_or_empty (al_Annotations alert) ''summary'');
         (description, m2) = RedactString (pl_redactor P) m1 (lookup_or_empty (al_Annotations alert) ''description'');
         (labels, m3) = redact_labels (pl_redactor P) (al_Labels alert) m2 in
     (\<lparr>ap_ClusterId = pl_clusterID P,
       ap_AlertName = lookup_or_empty (al_Labels alert) ''alertname'',
       ap_Severity = lookup_or_empty (al_Labels alert) ''severity'',
       ap_Namespace = lookup_or_empty (al_Labels alert) ''namespace'',
       ap_PodName = tg_PodName target,
       ap_FiredAt = Unix (al_StartsAt alert),
       ap_Summary = summary, ap_Description = description, ap_Target = target,
       ap_RedactedLogs = [], ap_Metrics = [], ap_PodMetas = [], ap_Labels = labels,
       ap_TotalLogLines = 0, ap_RedactedLogLines = 0, ap_TotalReplacements = 0,
       ap_Status = alert_status alert, ap_GrafanaBaseUrl = pl_grafanaBaseURL P, ap_Events = []\<rparr>, m3))"

definition enrich_logs ::
    "'w pipeline_env \<Rightarrow> ('w, 'sel) Pipeline \<Rightarrow> string \<Rightarrow> AlertTarget \<Rightarrow> AlertPayload \<Rightarrow> metrics \<Rightarrow> 'w
     \<Rightarrow> AlertPayload outcome \<times> metrics \<times> 'w" where
  "enrich_logs E P namespace target payload m w =
    (case pl_loki P of
       None \<Rightarrow> (Done payload, m, w)
     | Some loki \<Rightarrow>
        if length (tg_ResolvedPods target) > 0 \<and> namespace \<noteq> '''' then
          (case FetchLogs (pe_isPrint E) (pe_decodeLoki E) (pe_http E) loki namespace (tg_ResolvedPods target) w of
             (Panic, w') \<Rightarrow> (Panic, m, w')
           | (Done (Inl e), w') \<Rightarrow>
               (Done payload, inc_EnrichErrors ''loki'' (observe_EnrichDuration ''loki'' m), w')
           | (Done (Inr logs), w') \<Rightarrow>
               if length logs > 0 then
                 (let (redacted, stats, m') = Redact (pl_redactor P) (observe_EnrichDuration ''loki'' m) logs in
                  (Done (payload\<lparr>ap_RedactedLogs := redacted,
                     ap_TotalLogLines := to_int32 (TotalLines stats),
                     ap_RedactedLogLines := to_int32 (RedactedLines stats),
                     ap_TotalReplacements := to_int32 (Replacements stats)\<rparr>), m', w'))
               else (Done payload, observe_EnrichDuration ''loki'' m, w'))
        else (Done payload, m, w))"

definition enrich_metrics ::
    "'w pipeline_env \<Rightarrow> ('w, 'sel) Pipeline \<Rightarrow> string \<Rightarrow> AlertTarget \<Rightarrow> AlertPayload \<Rightarrow> metrics \<Rightarrow> 'w
     \<Rightarrow> AlertPayload \<times> metrics \<times> 'w" where
  "enrich_metrics E P namespace target payload m w =
    (case FetchMetrics (pe_isPrint E) (pe_decodeProm E) (pe_http E) (pl_prom P) (tg_TargetType target) namespace
            (tg_ResolvedPods target) (tg_Node target) w of
       (Inl e, w') \<Rightarrow> (payload, inc_EnrichErrors ''prometheus'' (observe_EnrichDuration ''prometheus'' m), w')
     | (Inr promMetrics, w') \<Rightarrow>
         (let (series, m') = redact_descriptions (pl_redactor P) promMetrics (observe_EnrichDuration ''prometheus'' m) in
          (payload\<lparr>ap_Metrics := series\<rparr>, m', w')))"

fun pod_metas :: "('w, 'sel) clientset \<Rightarrow> string \<Rightarrow> string list \<Rightarrow> PodMeta list \<Rightarrow> 'w \<Rightarrow> PodMeta list \<times> 'w" where
  "pod_metas cs namespace [] metas w = (metas, w)"
| "pod_metas cs namespace (podName # pods) metas w =
    (case PodMeta_get cs namespace podName w of
       (Inl e, w') \<Rightarrow> pod_metas cs namespace pods metas w'
     | (Inr meta, w') \<Rightarrow> pod_metas cs namespace pods (metas @ [meta]) w')"

definition enrich_meta ::
    "('w, 'sel) Pipeline \<Rightarrow> string \<Rightarrow> AlertTarget \<Rightarrow> AlertPayload \<Rightarrow> 'w \<Rightarrow> AlertPayload \<times> 'w" where
  "enrich_meta P namespace target payload w =
    (case pl_k8sClient P of
       None \<Rightarrow> (payload, w)
     | Some cs \<Rightarrow>
        (case pod_metas cs namespace (tg_ResolvedPods target) (ap_PodMetas payload) w of
           (metas, w') \<Rightarrow> (payload\<lparr>ap_PodMetas := metas\<rparr>, w')))"

fun object_events ::
    "'w pipeline_env \<Rightarrow> Redactor \<Rightarrow> ('w, 'sel) clientset \<Rightarrow> string \<Rightarrow> string list \<Rightarrow> KubernetesEvent list
     \<Rightarrow> metrics \<Rightarrow> 'w \<Rightarrow> KubernetesEvent list \<times> metrics \<times> 'w" where
  "object_events E R cs namespace [] acc m w = (acc, m, w)"
| "object_events E R cs namespace (name # objects) acc m w =
    (case FetchEvents (pe_sortSlice E) cs namespace name w of
       (Inl e, w') \<Rightarrow> object_events E R cs namespace objects acc (inc_EnrichErrors ''events'' m) w'
     | (Inr events, w') \<Rightarrow>
         (let (events', m') = redact_messages R events m in
          object_events E R cs namespace objects (acc @ events') m' w'))"

definition enrich_events ::
    "'w pipeline_env \<Rightarrow> ('w, 'sel) Pipeline \<Rightarrow> string \<Rightarrow> AlertTarget \<Rightarrow> AlertPayload \<Rightarrow> metrics \<Rightarrow> 'w
     \<Rightarrow> AlertPayload \<times> metrics \<times> 'w" where
  "enrich_events E P namespace target payload m w =
    (case pl_k8sClient P of
       None \<Rightarrow> (payload, m, w)
     | Some cs \<Rightarrow>
        if namespace \<noteq> '''' then
          (let objects = tg_ResolvedPods target @ (if tg_Pvc target \<noteq> '''' then [tg_Pvc target] else []);
               (events, m', w') = object_events E (pl_redactor P) cs namespace objects (ap_Events payload) m w in
           (payload\<lparr>ap_Events := cap_events maxEventsPerPayload events\<rparr>, observe_EnrichDuration ''events'' m', w'))
        else (payload, m, w))"

text \<open>The error of the final \<open>forward\<close> is only logged.\<close>

definition ProcessAlert ::
    "'w pipeline_env \<Rightarrow> ('w, 'sel) Pipeline
     \<Rightarrow> (AlertPayload \<Rightarrow> metrics \<Rightarrow> 'f \<times> 'w \<Rightarrow> unit res outcome \<times> metrics \<times> 'f \<times> 'w)
     \<Rightarrow> Alert \<Rightarrow> metrics \<Rightarrow> 'f \<times> 'w \<Rightarrow> unit outcome \<times> metrics \<times> 'f \<times> 'w" where
  "ProcessAlert E P forward alert m = (\<lambda>(f, w).
    (let namespace = lookup_or_empty (al_Labels alert) ''namespace'';
         status = alert_status alert;
         m = inc_AlertsReceived status m;
         (target, w) = Resolve (pl_resolver P) (al_Labels alert) w;
         (payload, m) = initial_payload P alert target m in
     if status = ''resolved'' then
       (case forward payload m (f, w) of
          (Panic, s) \<Rightarrow> (Panic, s)
        | (Done r, s) \<Rightarrow> (Done (), s))
     else
       (case enrich_logs E P namespace target payload m w of
          (Panic, m, w) \<Rightarrow> (Panic, m, f, w)
        | (Done payload, m, w) \<Rightarrow>
           (let (payload, m, w) = enrich_metrics E P namespace target payload m w;
                (payload, w) = enrich_meta P namespace target payload w;
                (payload, m, w) = enrich_events E P namespace target payload m w in
            case forward payload m (f, w) of
              (Panic, s) \<Rightarrow> (Panic, s)
            | (Done r, s) \<Rightarrow> (Done (), s)))))"

end
