(* ===== verification/PipelineSafety.thy ===== *)
theory PipelineSafety
  imports Pipeline
begin

text \<open>
  What \<open>ProcessAlert\<close> hands to the forwarder. \<open>assemble\<close> is the payload a run builds; every run either
  dies before the hand-over or forwards exactly that payload once (\<open>ProcessAlert_assemble\<close>). The stage
  lemmas say what each stage may change, and the properties combine them.
\<close>

section \<open>One hand-over per run\<close>

definition assemble ::
    "'w pipeline_env \<Rightarrow> ('w, 'sel) Pipeline \<Rightarrow> Alert \<Rightarrow> metrics \<Rightarrow> 'w \<Rightarrow> AlertPayload outcome \<times> metrics \<times> 'w" where
  "assemble E P alert m w =
    (let namespace = lookup_or_empty (al_Labels alert) ''namespace'';
         (target, w1) = Resolve (pl_resolver P) (al_Labels alert) w;
         (p0, m1) = initial_payload P alert target (inc_AlertsReceived (alert_status alert) m) in
     if alert_status alert = ''resolved'' then (Done p0, m1, w1)
     else case enrich_logs E P namespace target p0 m1 w1 of
       (Panic, m2, w2) \<Rightarrow> (Panic, m2, w2)
     | (Done p1, m2, w2) \<Rightarrow>
        (let (p2, m3, w3) = enrich_metrics E P namespace target p1 m2 w2;
             (p3, w4) = enrich_meta P namespace target p2 w3;
             (p4, m5, w5) = enrich_events E P namespace target p3 m3 w4 in
         (Done p4, m5, w5)))"

text \<open>A forwarder that also keeps what it was given, with the counters at that moment.\<close>

definition recording ::
    "(AlertPayload \<Rightarrow> metrics \<Rightarrow> 'f \<times> 'w \<Rightarrow> unit res outcome \<times> metrics \<times> 'f \<times> 'w)
     \<Rightarrow> AlertPayload \<Rightarrow> metrics \<Rightarrow> ((AlertPayload \<times> metrics) list \<times> 'f) \<times> 'w
     \<Rightarrow> unit res outcome \<times> metrics \<times> ((AlertPayload \<times> metrics) list \<times> 'f) \<times> 'w" where
  "recording forward payload m = (\<lambda>((sent, f), w).
    (case forward payload m (f, w) of (r, m', f', w') \<Rightarrow> (r, m', (sent @ [(payload, m)], f'), w')))"

lemma ProcessAlert_assemble:
  "ProcessAlert E P forward alert m (f, w) =
    (case assemble E P alert m w of
       (Panic, m1, w1) \<Rightarrow> (Panic, m1, f, w1)
     | (Done p, m1, w1) \<Rightarrow>
        (case forward p m1 (f, w1) of (Panic, s) \<Rightarrow> (Panic, s) | (Done r, s) \<Rightarrow> (Done (), s)))"
  unfolding ProcessAlert_def assemble_def
  by (auto simp: Let_def split_beta split: outcome.splits prod.splits)

lemma ProcessAlert_sent:
  assumes "ProcessAlert E P (recording forward) alert m (([], f), w) = (r, m', (sent, f'), w')"
  shows "(r = Panic \<and> sent = [] \<and> (\<exists>m1 w1. assemble E P alert m w = (Panic, m1, w1)))
    \<or> (\<exists>p m1 w1. assemble E P alert m w = (Done p, m1, w1) \<and> sent = [(p, m1)])"
  using assms unfolding ProcessAlert_assemble
  by (auto simp: recording_def split: outcome.splits prod.splits)

section \<open>Stages\<close>

definition free_texts :: "AlertPayload \<Rightarrow> string list" where
  "free_texts p = [ap_Summary p, ap_Description p] @ map lb_Name (ap_Labels p) @ map lb_Value (ap_Labels p)
     @ ap_RedactedLogs p @ map ms_Description (ap_Metrics p) @ map ev_Message (ap_Events p)"

text \<open>The fields that say what the alert is about, which the stages after the first leave alone.\<close>

definition identity_fields :: "AlertPayload \<Rightarrow> string list \<times> AlertTarget \<times> int \<times> Label list" where
  "identity_fields p = ([ap_ClusterId p, ap_AlertName p, ap_Severity p, ap_Namespace p, ap_PodName p,
     ap_Status p, ap_GrafanaBaseUrl p, ap_Summary p, ap_Description p], ap_Target p, ap_FiredAt p, ap_Labels p)"

definition enrichment :: "AlertPayload \<Rightarrow> string list \<times> MetricSeries list \<times> PodMeta list \<times> KubernetesEvent list" where
  "enrichment p = (ap_RedactedLogs p, ap_Metrics p, ap_PodMetas p, ap_Events p)"

lemma redact_errors [simp]: "EnrichErrors (snd (RedactString R m s)) = EnrichErrors m"
  by (auto simp: RedactString_def Let_def split: prod.splits)

lemma redactLine_errors: "redactLine R l st m = (a, b, st', m') \<Longrightarrow> EnrichErrors m' = EnrichErrors m"
  by (auto simp: redactLine_def Let_def split: prod.splits)

lemma Redact_loop_errors: "EnrichErrors (snd (snd (Redact_loop R ls res tb st m))) = EnrichErrors m"
proof (induction R ls res tb st m rule: Redact_loop.induct)
  case (2 R line lines res tb st m)
  obtain a b st' m' where r: "redactLine R line st m = (a, b, st', m')" by (metis prod_cases4)
  then show ?case using 2 redactLine_errors[OF r] by (simp add: Let_def)
qed simp

lemma Redact_errors [simp]: "EnrichErrors (snd (snd (Redact R m ls))) = EnrichErrors m"
  by (simp add: Redact_def Redact_loop_errors)

definition redacts :: "Redactor \<Rightarrow> bool" where
  "redacts R = (\<forall>m s. clean (fst (RedactString R m s)))"

lemma redacts_New [simp]: "redacts (Redactor_New compile extra logs ml mt ms)"
  by (simp add: redacts_def clean_RedactString)

lemma redactsD [simp]: "redacts R \<Longrightarrow> clean (fst (RedactString R m s))"
  by (simp add: redacts_def)

lemma redact_labels_clean:
  "redacts R \<Longrightarrow> list_all clean (map lb_Name (fst (redact_labels R ls m)) @ map lb_Value (fst (redact_labels R ls m)))"
  by (induction ls arbitrary: m) (auto simp: Let_def split_beta)

lemma redact_labels_errors: "EnrichErrors (snd (redact_labels R ls m)) = EnrichErrors m"
  by (induction ls arbitrary: m) (auto simp: Let_def split_beta)

lemma redact_descriptions_clean:
  "redacts R \<Longrightarrow> list_all clean (map ms_Description (fst (redact_descriptions R ss m)))"
  by (induction ss arbitrary: m) (auto simp: Let_def split_beta)

lemma redact_descriptions_rest:
  "length (fst (redact_descriptions R ss m)) = length ss \<and> EnrichErrors (snd (redact_descriptions R ss m)) = EnrichErrors m"
  by (induction ss arbitrary: m) (auto simp: Let_def split_beta)

lemma redact_messages_clean:
  "redacts R \<Longrightarrow> list_all clean (map ev_Message (fst (redact_messages R es m)))"
  by (induction es arbitrary: m) (auto simp: Let_def split_beta)

lemma redact_messages_errors: "EnrichErrors (snd (redact_messages R es m)) = EnrichErrors m"
  by (induction es arbitrary: m) (auto simp: Let_def split_beta)

lemma pod_metas_length: "length (fst (pod_metas cs ns pods acc w)) \<le> length acc + length pods"
proof (induction cs ns pods acc w rule: pod_metas.induct)
  case (2 cs ns pod pods acc w)
  show ?case using 2 by (cases "PodMeta_get cs ns pod w") (auto split: sum.splits)
qed simp

lemma object_events_clean:
  "redacts R \<Longrightarrow> list_all clean (map ev_Message acc) \<Longrightarrow>
   list_all clean (map ev_Message (fst (object_events E R cs ns objs acc m w)))"
proof (induction objs arbitrary: acc m w)
  case (Cons name objs)
  show ?case using Cons(2,3) by (cases "FetchEvents (pe_sortSlice E) cs ns name w")
      (auto simp: Let_def split_beta redact_messages_clean intro!: Cons(1) split: sum.splits)
qed simp

lemma object_events_errors:
  "k \<noteq> ''events'' \<Longrightarrow> EnrichErrors (fst (snd (object_events E R cs ns objs acc m w))) k = EnrichErrors m k"
proof (induction objs arbitrary: acc m w)
  case (Cons name objs)
  show ?case using Cons by (cases "FetchEvents (pe_sortSlice E) cs ns name w")
      (auto simp: Let_def split_beta redact_messages_errors split: sum.splits)
qed simp

text \<open>What the stages promise about the payload they are given.\<close>

lemma initial_payload_facts:
  assumes "initial_payload P alert target m = (p, m')"
  shows "redacts (pl_redactor P) \<Longrightarrow> list_all clean (free_texts p)"
    and "enrichment p = ([], [], [], [])" "EnrichErrors m' = EnrichErrors m"
    and "ap_AlertName p = lookup_or_empty (al_Labels alert) ''alertname''"
      "ap_Severity p = lookup_or_empty (al_Labels alert) ''severity''"
      "ap_Namespace p = lookup_or_empty (al_Labels alert) ''namespace''"
      "ap_PodName p = tg_PodName target" "ap_Target p = target" "ap_Status p = alert_status alert"
  using assms redact_labels_clean[of "pl_redactor P"] redact_labels_errors[of "pl_redactor P"]
  by (auto simp: initial_payload_def free_texts_def enrichment_def Let_def split_beta)

lemma Redact_length: "length (fst (Redact R m ls)) \<le> length ls"
  using render_length decide_length by (fastforce simp: Redact_def Redact_loop_lines intro: order_trans)

lemma enrich_logs_cases:
  assumes "enrich_logs E P ns target p m w = (r, m', w')"
  obtains (unchanged) "r = Done p" "EnrichErrors m' = EnrichErrors m"
  | (panicked) c where "r = Panic" "m' = m" "pl_loki P = Some c" "lk_maxLines c < 0"
  | (filled) c logs mr n1 n2 n3 where "pl_loki P = Some c" "0 \<le> lk_maxLines c \<longrightarrow> int (length logs) \<le> lk_maxLines c"
      "r = Done (p\<lparr>ap_RedactedLogs := fst (Redact (pl_redactor P) mr logs), ap_TotalLogLines := n1,
             ap_RedactedLogLines := n2, ap_TotalReplacements := n3\<rparr>)" "EnrichErrors m' = EnrichErrors m"
proof (cases "\<exists>c. pl_loki P = Some c \<and> tg_ResolvedPods target \<noteq> [] \<and> ns \<noteq> ''''")
  case False
  then show ?thesis using assms unchanged by (auto simp: enrich_logs_def split: option.splits)
next
  case True
  then obtain c where c: "pl_loki P = Some c" "tg_ResolvedPods target \<noteq> []" "ns \<noteq> ''''" by blast
  obtain q w1 where q: "FetchLogs (pe_isPrint E) (pe_decodeLoki E) (pe_http E) c ns (tg_ResolvedPods target) w = (q, w1)"
    by fastforce
  show ?thesis using FetchLogs_total[OF q]
  proof (elim disjE exE conjE)
    assume "q = Panic" "lk_maxLines c < 0"
    then show ?thesis using panicked assms c q by (simp add: enrich_logs_def)
  next
    fix logs assume l: "q = Done (Inr logs)" "0 \<le> lk_maxLines c \<longrightarrow> int (length logs) \<le> lk_maxLines c"
    let ?m0 = "observe_EnrichDuration ''loki'' m"
    show ?thesis
    proof (cases "logs = []")
      case True
      have "r = Done p" "m' = ?m0" using l(1) True assms c q by (simp_all add: enrich_logs_def)
      then show ?thesis using unchanged by simp
    next
      case False
      obtain red st mr where R: "Redact (pl_redactor P) ?m0 logs = (red, st, mr)" by (metis prod_cases3)
      have e: "r = Done (p\<lparr>ap_RedactedLogs := fst (Redact (pl_redactor P) ?m0 logs), ap_TotalLogLines := to_int32 (TotalLines st),
          ap_RedactedLogLines := to_int32 (RedactedLines st), ap_TotalReplacements := to_int32 (Replacements st)\<rparr>)" "m' = mr"
        using l(1) False assms c q R by (simp_all add: enrich_logs_def)
      have "EnrichErrors m' = EnrichErrors m" using arg_cong[OF R, of "\<lambda>x. EnrichErrors (snd (snd x))"] e(2) by simp
      then show ?thesis by (rule filled[OF c(1) l(2) e(1)])
    qed
  qed
qed

lemma enrich_metrics_shape:
  obtains series m0 w' where "length series \<le> 8" "EnrichErrors m0 = EnrichErrors m"
    "enrich_metrics E P ns target p m w
     = (p\<lparr>ap_Metrics := fst (redact_descriptions (pl_redactor P) series m0)\<rparr>,
        snd (redact_descriptions (pl_redactor P) series m0), w')"
proof -
  obtain series w' where f: "FetchMetrics (pe_isPrint E) (pe_decodeProm E) (pe_http E) (pl_prom P)
      (tg_TargetType target) ns (tg_ResolvedPods target) (tg_Node target) w = (Inr series, w')" "length series \<le> 8"
    using FetchMetrics_total by meson
  show ?thesis
    by (rule that[of series "observe_EnrichDuration ''prometheus'' m" w'])
      (use f in \<open>simp_all add: enrich_metrics_def Let_def split_beta\<close>)
qed

lemma enrich_meta_shape:
  obtains metas w' where "enrich_meta P ns target p w = (p\<lparr>ap_PodMetas := metas\<rparr>, w')"
    "length metas \<le> length (ap_PodMetas p) + length (tg_ResolvedPods target)"
proof (cases "pl_k8sClient P")
  case None
  then show ?thesis using that[of "ap_PodMetas p" w] by (simp add: enrich_meta_def)
next
  case (Some cs)
  let ?r = "pod_metas cs ns (tg_ResolvedPods target) (ap_PodMetas p) w"
  show ?thesis using that[of "fst ?r" "snd ?r"] Some pod_metas_length[of cs ns "tg_ResolvedPods target" "ap_PodMetas p" w]
    by (simp add: enrich_meta_def split_beta)
qed

lemma enrich_events_shape:
  assumes "enrich_events E P ns target p m w = (p', m', w')" "ap_Events p = []"
  obtains es where "p' = p\<lparr>ap_Events := es\<rparr>" "length es \<le> 50"
    "redacts (pl_redactor P) \<longrightarrow> list_all clean (map ev_Message es)"
    "\<forall>k. k \<noteq> ''events'' \<longrightarrow> EnrichErrors m' k = EnrichErrors m k"
proof (cases "\<exists>cs. pl_k8sClient P = Some cs \<and> ns \<noteq> ''''")
  case False
  then have "p' = p" "m' = m" using assms(1) by (auto simp: enrich_events_def split: option.splits)
  then show ?thesis using that[of "[]"] assms(2) by simp
next
  case True
  then obtain cs where cs: "pl_k8sClient P = Some cs" "ns \<noteq> ''''" by blast
  let ?o = "tg_ResolvedPods target @ (if tg_Pvc target \<noteq> '''' then [tg_Pvc target] else [])"
  let ?r = "object_events E (pl_redactor P) cs ns ?o [] m w"
  have e: "p' = p\<lparr>ap_Events := take 50 (fst ?r)\<rparr>" "m' = observe_EnrichDuration ''events'' (fst (snd ?r))"
    using assms cs by (simp_all add: enrich_events_def Let_def split_beta maxEventsPerPayload_def)
  have "redacts (pl_redactor P) \<longrightarrow> list_all clean (map ev_Message (take 50 (fst ?r)))"
    using object_events_clean[of "pl_redactor P" "[]" E cs ns ?o m w] by (auto simp: list_all_iff dest: in_set_takeD)
  then show ?thesis
    using that[of "take 50 (fst ?r)"] e object_events_errors[of _ E "pl_redactor P" cs ns ?o "[]" m w] by simp
qed

section \<open>The assembled payload\<close>

definition within_bounds :: "('w, 'sel) Pipeline \<Rightarrow> AlertPayload \<Rightarrow> bool" where
  "within_bounds P p =
    (length (ap_Events p) \<le> 50 \<and> length (ap_Metrics p) \<le> 8 \<and> length (ap_PodMetas p) \<le> 10
     \<and> (case pl_loki P of None \<Rightarrow> ap_RedactedLogs p = []
        | Some c \<Rightarrow> 0 \<le> lk_maxLines c \<longrightarrow> int (length (ap_RedactedLogs p)) \<le> lk_maxLines c))"

definition sanitised :: "('w, 'sel) Pipeline \<Rightarrow> AlertPayload \<Rightarrow> bool" where
  "sanitised P p = ((\<exists>compile extra logs ml mt ms. pl_redactor P = Redactor_New compile extra logs ml mt ms)
     \<longrightarrow> list_all clean (free_texts p))"

lemma sanitisedI:
  "(redacts (pl_redactor P) \<Longrightarrow> \<exists>compile extra logs ml mt ms. pl_redactor P = Redactor_New compile extra logs ml mt ms \<Longrightarrow>
     list_all clean (free_texts p)) \<Longrightarrow> sanitised P p"
  unfolding sanitised_def by (metis redacts_New)

lemma sanitisedD: "sanitised P p \<Longrightarrow> pl_redactor P = Redactor_New compile extra logs ml mt ms \<Longrightarrow> list_all clean (free_texts p)"
  unfolding sanitised_def by blast

lemma free_texts_parts:
  "list_all clean (free_texts p) \<longleftrightarrow> list_all clean (free_texts (p\<lparr>ap_RedactedLogs := [], ap_Metrics := [], ap_Events := []\<rparr>))
     \<and> list_all clean (ap_RedactedLogs p) \<and> list_all clean (map ms_Description (ap_Metrics p))
     \<and> list_all clean (map ev_Message (ap_Events p))"
  by (auto simp: free_texts_def)

lemma free_texts_update [simp]:
  "free_texts (p\<lparr>ap_PodMetas := x\<rparr>) = free_texts p" "free_texts (p\<lparr>ap_TotalLogLines := n\<rparr>) = free_texts p"
  "free_texts (p\<lparr>ap_RedactedLogLines := n\<rparr>) = free_texts p" "free_texts (p\<lparr>ap_TotalReplacements := n\<rparr>) = free_texts p"
  by (simp_all add: free_texts_def)

lemma identity_update [simp]:
  "identity_fields (p\<lparr>ap_PodMetas := x\<rparr>) = identity_fields p" "identity_fields (p\<lparr>ap_RedactedLogs := y\<rparr>) = identity_fields p"
  "identity_fields (p\<lparr>ap_Metrics := z\<rparr>) = identity_fields p" "identity_fields (p\<lparr>ap_Events := e\<rparr>) = identity_fields p"
  "identity_fields (p\<lparr>ap_TotalLogLines := n\<rparr>) = identity_fields p"
  "identity_fields (p\<lparr>ap_RedactedLogLines := n\<rparr>) = identity_fields p"
  "identity_fields (p\<lparr>ap_TotalReplacements := n\<rparr>) = identity_fields p"
  by (simp_all add: identity_fields_def)

text \<open>What every stage keeps: the fields about the alert, the bounds and the clean texts.\<close>

definition payload_ok :: "('w, 'sel) Pipeline \<Rightarrow> AlertPayload \<Rightarrow> AlertPayload \<Rightarrow> bool" where
  "payload_ok P p0 p = (identity_fields p = identity_fields p0 \<and> within_bounds P p \<and> sanitised P p)"

lemma initial_ok: "initial_payload P alert t m = (p, m') \<Longrightarrow> payload_ok P p p"
  using initial_payload_facts[of P alert t m p m']
  by (auto simp: payload_ok_def within_bounds_def enrichment_def intro!: sanitisedI split: option.splits)

lemma logs_ok:
  assumes "enrich_logs E P ns t p m w = (Done p', m', w')" "payload_ok P p0 p"
  shows "payload_ok P p0 p' \<and> ap_Metrics p' = ap_Metrics p \<and> ap_PodMetas p' = ap_PodMetas p \<and> ap_Events p' = ap_Events p
    \<and> EnrichErrors m' = EnrichErrors m"
proof (cases rule: enrich_logs_cases[OF assms(1)])
  case (3 c logs mr n1 n2 n3)
  have p': "p' = p\<lparr>ap_RedactedLogs := fst (Redact (pl_redactor P) mr logs), ap_TotalLogLines := n1,
             ap_RedactedLogLines := n2, ap_TotalReplacements := n3\<rparr>" using 3(3) by simp
  have "within_bounds P p'"
    using assms(2) 3(1,2) Redact_length[of "pl_redactor P" mr logs] by (auto simp: payload_ok_def within_bounds_def p')
  moreover have "sanitised P p'"
  proof (rule sanitisedI, elim exE)
    fix compile extra lg ml mt ms assume R: "pl_redactor P = Redactor_New compile extra lg ml mt ms"
    have "list_all clean (free_texts p)" using assms(2) R sanitisedD by (auto simp: payload_ok_def)
    moreover have "list_all clean (fst (Redact (pl_redactor P) mr logs))"
      using clean_Redact unfolding R list_all_iff by blast
    ultimately show "list_all clean (free_texts p')" by (auto simp: free_texts_def p')
  qed
  ultimately show ?thesis using assms(2) 3(4) by (simp add: payload_ok_def p')
qed (use assms(2) in auto)

lemma metrics_ok:
  assumes "enrich_metrics E P ns t p m w = (p', m', w')" "payload_ok P p0 p"
  shows "payload_ok P p0 p' \<and> ap_PodMetas p' = ap_PodMetas p \<and> ap_Events p' = ap_Events p
    \<and> EnrichErrors m' = EnrichErrors m"
proof (cases rule: enrich_metrics_shape[of m E P ns t p w])
  case (1 series mb wb)
  have p': "p' = p\<lparr>ap_Metrics := fst (redact_descriptions (pl_redactor P) series mb)\<rparr>"
    "m' = snd (redact_descriptions (pl_redactor P) series mb)" using 1(3) assms(1) by auto
  have "sanitised P p'"
  proof (rule sanitisedI)
    assume R: "redacts (pl_redactor P)" "\<exists>compile extra lg ml mt ms. pl_redactor P = Redactor_New compile extra lg ml mt ms"
    then have "list_all clean (free_texts p)" using assms(2) by (auto simp: payload_ok_def dest: sanitisedD)
    then show "list_all clean (free_texts p')" using redact_descriptions_clean[OF R(1), of series mb]
      by (auto simp: free_texts_def p')
  qed
  then show ?thesis using assms(2) 1(1,2) redact_descriptions_rest[of "pl_redactor P" series mb]
    by (simp add: payload_ok_def p' within_bounds_def split: option.splits)
qed

lemma meta_ok:
  assumes "enrich_meta P ns t p w = (p', w')" "payload_ok P p0 p" "ap_PodMetas p = []" "length (tg_ResolvedPods t) \<le> 10"
  shows "payload_ok P p0 p' \<and> ap_Events p' = ap_Events p"
proof (cases rule: enrich_meta_shape[of P ns t p w])
  case (1 metas wb)
  then show ?thesis using assms by (auto simp: payload_ok_def within_bounds_def sanitised_def split: option.splits)
qed

lemma events_ok:
  assumes "enrich_events E P ns t p m w = (p', m', w')" "payload_ok P p0 p" "ap_Events p = []"
  shows "payload_ok P p0 p' \<and> (\<forall>k. k \<noteq> ''events'' \<longrightarrow> EnrichErrors m' k = EnrichErrors m k)"
proof (cases rule: enrich_events_shape[OF assms(1,3)])
  case (1 es)
  have "sanitised P p'"
  proof (rule sanitisedI)
    assume R: "redacts (pl_redactor P)" "\<exists>compile extra lg ml mt ms. pl_redactor P = Redactor_New compile extra lg ml mt ms"
    then have "list_all clean (free_texts p)" using assms(2) by (auto simp: payload_ok_def dest: sanitisedD)
    then show "list_all clean (free_texts p')" using 1(3) R(1) by (auto simp: free_texts_def 1(1))
  qed
  then show ?thesis using assms(2) 1 by (simp add: payload_ok_def within_bounds_def split: option.splits)
qed

lemma assemble_resolved:
  assumes "assemble E P alert m w = (Done p, m', w')" "alert_status alert = ''resolved''"
  obtains target where "Resolve (pl_resolver P) (al_Labels alert) w = (target, w')"
    "initial_payload P alert target (inc_AlertsReceived ''resolved'' m) = (p, m')"
  using assms by (auto simp: assemble_def Let_def split: prod.splits)

lemma assemble_firing:
  assumes "assemble E P alert m w = (Done p, m', w')" "alert_status alert \<noteq> ''resolved''"
  obtains target w1 p0 m1 p1 m2 w2 p2 m3 w3 p3 w4 where
    "Resolve (pl_resolver P) (al_Labels alert) w = (target, w1)"
    "initial_payload P alert target (inc_AlertsReceived (alert_status alert) m) = (p0, m1)"
    "enrich_logs E P (lookup_or_empty (al_Labels alert) ''namespace'') target p0 m1 w1 = (Done p1, m2, w2)"
    "enrich_metrics E P (lookup_or_empty (al_Labels alert) ''namespace'') target p1 m2 w2 = (p2, m3, w3)"
    "enrich_meta P (lookup_or_empty (al_Labels alert) ''namespace'') target p2 w3 = (p3, w4)"
    "enrich_events E P (lookup_or_empty (al_Labels alert) ''namespace'') target p3 m3 w4 = (p, m', w')"
  using assms unfolding assemble_def
  by (auto simp: Let_def split: prod.splits outcome.splits)

lemma assemble_panics:
  assumes "assemble E P alert m w = (Panic, m', w')"
  shows "alert_status alert \<noteq> ''resolved'' \<and> (\<exists>c. pl_loki P = Some c \<and> lk_maxLines c < 0)"
proof -
  obtain target w1 p0 m1 where "alert_status alert \<noteq> ''resolved''"
    "enrich_logs E P (lookup_or_empty (al_Labels alert) ''namespace'') target p0 m1 w1 = (Panic, m', w')"
    using assms unfolding assemble_def by (auto simp: Let_def split: prod.splits outcome.splits if_splits)
  then show ?thesis by (metis enrich_logs_cases outcome.distinct(1))
qed

text \<open>The payload of a run: what it says of the alert, its size, its texts and the error counters.\<close>

lemma assemble_facts:
  assumes a: "assemble E P alert m w = (Done p, m', w')"
    and t: "fst (Resolve (pl_resolver P) (al_Labels alert) w) = t"
    and p0: "fst (initial_payload P alert t (inc_AlertsReceived (alert_status alert) m)) = p0"
  shows "payload_ok P p0 p \<and> (\<forall>k. k \<noteq> ''events'' \<longrightarrow> EnrichErrors m' k = EnrichErrors m k)"
proof (cases "alert_status alert = ''resolved''")
  case True
  show ?thesis
    by (rule assemble_resolved[OF a True])
      (use True t p0 in \<open>auto dest: initial_ok simp: initial_payload_facts(3)\<close>)
next
  case False
  show ?thesis
  proof (rule assemble_firing[OF a False], goal_cases)
    case (1 t' w1 q0 m1 p1 m2 w2 p2 m3 w3 p3 w4)
    note i = initial_payload_facts[OF 1(2)]
    have "payload_ok P q0 q0" by (rule initial_ok[OF 1(2)])
    note l = logs_ok[OF 1(3) this]
    then have "payload_ok P q0 p1" by simp
    note mt = metrics_ok[OF 1(4) this]
    have "length (tg_ResolvedPods t') \<le> 10"
      using Resolve_pods_bound[of "pl_resolver P" "al_Labels alert" w] 1(1) by simp
    then have k: "payload_ok P q0 p3 \<and> ap_Events p3 = ap_Events p2"
      using meta_ok[OF 1(5), of q0] l mt i(2) by (simp add: enrichment_def)
    then have "payload_ok P q0 p \<and> (\<forall>k. k \<noteq> ''events'' \<longrightarrow> EnrichErrors m' k = EnrichErrors m3 k)"
      using events_ok[OF 1(6), of q0] l mt i(2) by (simp add: enrichment_def)
    moreover have "q0 = p0" using 1(1,2) t p0 by simp
    moreover have "EnrichErrors m3 = EnrichErrors m" using l mt i(3) by simp
    ultimately show ?thesis by simp
  qed
qed

section \<open>Properties\<close>

text \<open>A collector without cluster access, Loki and Prometheus, and a brain that accepts everything.\<close>

definition demo_env :: "unit pipeline_env" where
  "demo_env = \<lparr>pe_isPrint = \<lambda>_. True, pe_decodeLoki = \<lambda>_. Inl (ErrExt ''bad''),
     pe_decodeProm = \<lparr>decodeProm = \<lambda>_. Inl (ErrExt ''bad''), unmarshalMatrix = \<lambda>_. Inl (ErrExt ''bad''),
       parseFloat64 = \<lambda>_. None, toInt64 = \<lambda>_. 0\<rparr>,
     pe_http = \<lparr>Do = \<lambda>_ w. (Inl (ErrExt ''refused''), w), now = \<lambda>_. 0, parse_url = \<lambda>_. None\<rparr>,
     pe_sortSlice = insertion_sort\<rparr>"

definition demo_pipeline :: "(unit, unit) Pipeline" where
  "demo_pipeline = Pipeline_New ''c1'' '''' (Resolver_New None) None (prom_NewClient ''http://p'' 15 False) None
     (Redactor_New (\<lambda>_. None) '''' False 0 0 0)"

definition mail_alert :: "string \<Rightarrow> Alert" where
  "mail_alert status = \<lparr>al_Status = status, al_Labels = [(''alertname'', ''a@b.cc'')],
     al_Annotations = [(''summary'', ''to a@b.cc'')], al_StartsAt = zero_time, al_EndsAt = zero_time\<rparr>"

definition accept_all :: "AlertPayload \<Rightarrow> metrics \<Rightarrow> unit \<times> unit \<Rightarrow> unit res outcome \<times> metrics \<times> unit \<times> unit" where
  "accept_all p m s = (Done (Inr ()), m, s)"

definition demo_sent :: "string \<Rightarrow> (AlertPayload \<times> metrics) list" where
  "demo_sent status = fst (fst (snd (snd (ProcessAlert demo_env demo_pipeline (recording accept_all) (mail_alert status)
     no_metrics (([], ()), ())))))"

lemma demo_summary: "redact_patterns builtinPatterns ''to a@b.cc'' 0 = (''to [email]'', 1)"
  by code_simp

lemma demo_value: "redact_patterns builtinPatterns ''a@b.cc'' 0 = (''[email]'', 1)"
  by code_simp

lemma demo_name: "redact_patterns builtinPatterns ''alertname'' 0 = (''alertname'', 0)"
  by code_simp

lemma demo_redact:
  "fst (RedactString (pl_redactor demo_pipeline) m ''to a@b.cc'') = ''to [email]''"
  "fst (RedactString (pl_redactor demo_pipeline) m ''a@b.cc'') = ''[email]''"
  "fst (RedactString (pl_redactor demo_pipeline) m ''alertname'') = ''alertname''"
  "fst (RedactString (pl_redactor demo_pipeline) m []) = []"
  by (simp_all add: demo_pipeline_def Pipeline_New_def RedactString_def Redactor_New_def parseExtraPatterns_def
      defaultMaxStringBytes_def demo_summary demo_value demo_name)

lemma demo_run:
  "\<exists>p m' m''. ProcessAlert demo_env demo_pipeline (recording accept_all) (mail_alert status) no_metrics (([], ()), ())
     = (Done (), m', ([(p, m'')], ()), ()) \<and> demo_sent status = [(p, m'')]
     \<and> ap_Summary p = ''to [email]'' \<and> ap_AlertName p = ''a@b.cc'' \<and> ap_Labels p = [\<lparr>lb_Name = ''alertname'', lb_Value = ''[email]''\<rparr>]"
proof -
  have P: "pl_loki demo_pipeline = None" "pl_k8sClient demo_pipeline = None" "\<not> pc_enabled (pl_prom demo_pipeline)"
    by (simp_all add: demo_pipeline_def Pipeline_New_def prom_NewClient_def)
  show ?thesis
    by (simp add: demo_sent_def ProcessAlert_def mail_alert_def accept_all_def recording_def Let_def split_beta
        initial_payload_def enrich_logs_def enrich_metrics_def FetchMetrics_def enrich_meta_def enrich_events_def
        P demo_redact)
qed

text \<open>Whatever the alert, the cluster, Loki, Prometheus and the operator's extra patterns are, a run of
  \<open>ProcessAlert\<close> hands at most one payload to the forwarder, and exactly one if it returns; and no bearer
  token, JWT, basic credential, AWS key or secret, private-key header or email address is left in any of
  its free texts: summary, description, label names and values, log lines, metric descriptions and
  event messages.\<close>

theorem ProcessAlert_forwards_clean:
  assumes "ProcessAlert E P (recording forward) alert m (([], f), w) = (r, m', (sent, f'), w')"
    and "pl_redactor P = Redactor_New compile extra logs ml mt ms"
  shows "length sent \<le> 1 \<and> (r = Done () \<longrightarrow> length sent = 1)
    \<and> (\<forall>(p, mp) \<in> set sent. \<forall>x \<in> set (free_texts p). \<forall>re \<in> set protected_regexes. \<not> MatchString re x)"
  using ProcessAlert_sent[OF assms(1)]
proof (elim disjE exE conjE)
  fix p m1 w1 assume a: "assemble E P alert m w = (Done p, m1, w1)" "sent = [(p, m1)]"
  have "list_all clean (free_texts p)"
    using assemble_facts[OF a(1) refl refl] assms(2) sanitisedD by (auto simp: payload_ok_def)
  then show ?thesis using a(2) cleanD by (auto simp: list_all_iff)
qed simp

theorem ProcessAlert_forwards_clean_witness:
  "re_email \<in> set protected_regexes \<and> MatchString re_email ''to a@b.cc''
   \<and> (\<exists>p mp. demo_sent ''firing'' = [(p, mp)] \<and> ap_Summary p = ''to [email]'' \<and> \<not> MatchString re_email (ap_Summary p))"
proof -
  obtain p m' m'' where r: "ProcessAlert demo_env demo_pipeline (recording accept_all) (mail_alert ''firing'') no_metrics (([], ()), ())
     = (Done (), m', ([(p, m'')], ()), ())" "demo_sent ''firing'' = [(p, m'')]" "ap_Summary p = ''to [email]''"
    using demo_run by metis
  have R: "pl_redactor demo_pipeline = Redactor_New (\<lambda>_. None) '''' False 0 0 0"
    by (simp add: demo_pipeline_def Pipeline_New_def)
  have e: "re_email \<in> set protected_regexes" by (simp add: protected_regexes_def)
  have "MatchString re_email ''to a@b.cc''" by code_simp
  then show ?thesis using ProcessAlert_forwards_clean[OF r(1) R] r(2,3) e by (auto simp: free_texts_def)
qed

text \<open>C23: the size of what is forwarded is bounded whatever the cluster answers: at most 50 events, eight
  metric series, ten pod descriptions, and as many log lines as configured. A run dies before the
  hand-over only if the configured number of log lines is negative.\<close>

theorem ProcessAlert_bounds:
  assumes "ProcessAlert E P (recording forward) alert m (([], f), w) = (r, m', (sent, f'), w')"
  shows "(sent = [] \<longrightarrow> r = Panic \<and> (\<exists>c. pl_loki P = Some c \<and> lk_maxLines c < 0))
    \<and> (\<forall>(p, mp) \<in> set sent. length (ap_Events p) \<le> 50 \<and> length (ap_Metrics p) \<le> 8 \<and> length (ap_PodMetas p) \<le> 10
         \<and> (case pl_loki P of None \<Rightarrow> ap_RedactedLogs p = []
            | Some c \<Rightarrow> 0 \<le> lk_maxLines c \<longrightarrow> int (length (ap_RedactedLogs p)) \<le> lk_maxLines c))"
  using ProcessAlert_sent[OF assms]
proof (elim disjE exE conjE)
  fix p m1 w1 assume a: "assemble E P alert m w = (Done p, m1, w1)" "sent = [(p, m1)]"
  have "within_bounds P p" using assemble_facts[OF a(1) refl refl] by (simp add: payload_ok_def)
  then show ?thesis using a(2) by (simp add: within_bounds_def)
qed (auto dest: assemble_panics)

theorem ProcessAlert_bounds_witness:
  "\<exists>p mp. demo_sent ''firing'' = [(p, mp)] \<and> length (ap_Events p) \<le> 50 \<and> ap_RedactedLogs p = []"
proof -
  obtain p m' m'' where r: "ProcessAlert demo_env demo_pipeline (recording accept_all) (mail_alert ''firing'') no_metrics (([], ()), ())
     = (Done (), m', ([(p, m'')], ()), ())" "demo_sent ''firing'' = [(p, m'')]"
    using demo_run by metis
  have "pl_loki demo_pipeline = None" by (simp add: demo_pipeline_def Pipeline_New_def)
  then show ?thesis using ProcessAlert_bounds[OF r(1)] r(2) by auto
qed

text \<open>A resolved alert is forwarded without enrichment: no logs, metrics, pod descriptions or events,
  and the outside world is consulted only to resolve the target and to forward.\<close>

theorem ProcessAlert_resolved:
  assumes "al_Status alert = ''resolved''"
  shows "\<exists>p m1. enrichment p = ([], [], [], []) \<and> ap_Status p = ''resolved''
    \<and> (\<forall>forward :: AlertPayload \<Rightarrow> metrics \<Rightarrow> 'f \<times> 'w \<Rightarrow> unit res outcome \<times> metrics \<times> 'f \<times> 'w.
        ProcessAlert E P forward alert m (f, w)
        = (case forward p m1 (f, snd (Resolve (pl_resolver P) (al_Labels alert) w)) of
             (Panic, s) \<Rightarrow> (Panic, s) | (Done r, s) \<Rightarrow> (Done (), s)))"
proof -
  have st: "alert_status alert = ''resolved''" using assms by (simp add: alert_status_def)
  obtain t w1 where t: "Resolve (pl_resolver P) (al_Labels alert) w = (t, w1)" by fastforce
  obtain p m1 where p: "initial_payload P alert t (inc_AlertsReceived ''resolved'' m) = (p, m1)" by fastforce
  have "assemble E P alert m w = (Done p, m1, w1)" using st t p by (simp add: assemble_def)
  then have "ProcessAlert E P forward alert m (f, w) = (case forward p m1 (f, w1) of
      (Panic, s) \<Rightarrow> (Panic, s) | (Done r, s) \<Rightarrow> (Done (), s))"
    for forward :: "AlertPayload \<Rightarrow> metrics \<Rightarrow> 'f \<times> 'w \<Rightarrow> unit res outcome \<times> metrics \<times> 'f \<times> 'w"
    by (simp add: ProcessAlert_assemble)
  moreover have "enrichment p = ([], [], [], [])" "ap_Status p = ''resolved''"
    using initial_payload_facts(2,9)[OF p] st by auto
  ultimately show ?thesis unfolding t snd_conv by blast
qed

theorem ProcessAlert_resolved_witness:
  "\<exists>p mp. demo_sent ''resolved'' = [(p, mp)] \<and> enrichment p = ([], [], [], [])"
proof -
  have s: "al_Status (mail_alert ''resolved'') = ''resolved''" by (simp add: mail_alert_def)
  show ?thesis
    using ProcessAlert_resolved[OF s, where E = demo_env and P = demo_pipeline and m = no_metrics and w = "()"
      and f = "([] :: (AlertPayload \<times> metrics) list, ())"]
  proof (elim exE conjE)
    fix p m1
    assume p: "enrichment p = ([], [], [], [])"
      and q: "\<forall>forward. ProcessAlert demo_env demo_pipeline forward (mail_alert ''resolved'') no_metrics ((([] :: (AlertPayload \<times> metrics) list), ()), ())
       = (case forward p m1 (([], ()), snd (Resolve (pl_resolver demo_pipeline) (al_Labels (mail_alert ''resolved'')) ())) of
             (Panic, s) \<Rightarrow> (Panic, s) | (Done r, s) \<Rightarrow> (Done (), s))"
    have "demo_sent ''resolved'' = [(p, m1)]"
      using q[rule_format, of "recording accept_all"] by (simp add: demo_sent_def recording_def accept_all_def)
    then show ?thesis using p by blast
  qed
qed

text \<open>C38: the fields that name the alert and its target are forwarded verbatim: alert name, severity and
  namespace are the raw label values, and the target carries them again, so a secret in one of those
  labels reaches the brain although the copy in the label list is redacted.\<close>

theorem ProcessAlert_identity_verbatim:
  assumes "ProcessAlert E P (recording forward) alert m (([], f), w) = (r, m', (sent, f'), w')" "(p, mp) \<in> set sent"
  shows "ap_AlertName p = lookup_or_empty (al_Labels alert) ''alertname''
    \<and> ap_Severity p = lookup_or_empty (al_Labels alert) ''severity''
    \<and> ap_Namespace p = lookup_or_empty (al_Labels alert) ''namespace''
    \<and> (ap_Target p)\<lparr>tg_ResolvedPods := []\<rparr> = spec_target (al_Labels alert)
    \<and> ap_PodName p = tg_PodName (spec_target (al_Labels alert))"
  using ProcessAlert_sent[OF assms(1)]
proof (elim disjE exE conjE)
  fix q m1 w1 assume a: "assemble E P alert m w = (Done q, m1, w1)" "sent = [(q, m1)]"
  let ?t = "fst (Resolve (pl_resolver P) (al_Labels alert) w)"
  obtain p0 m0 where p0: "initial_payload P alert ?t (inc_AlertsReceived (alert_status alert) m) = (p0, m0)" by fastforce
  have "identity_fields p = identity_fields p0"
    using assemble_facts[OF a(1) refl refl] p0 a(2) assms(2) by (simp add: payload_ok_def)
  moreover have "tg_PodName ?t = tg_PodName (spec_target (al_Labels alert))"
    using arg_cong[OF Resolve_spec[of "pl_resolver P" "al_Labels alert" w], of tg_PodName] by simp
  ultimately show ?thesis using initial_payload_facts(4-8)[OF p0] Resolve_spec by (auto simp: identity_fields_def)
qed (use assms(2) in simp)

theorem ProcessAlert_identity_verbatim_witness:
  "\<exists>p mp. demo_sent ''firing'' = [(p, mp)] \<and> MatchString re_email (ap_AlertName p)
     \<and> map lb_Value (ap_Labels p) = [''[email]'']"
proof -
  obtain p m' m'' where r: "ProcessAlert demo_env demo_pipeline (recording accept_all) (mail_alert ''firing'') no_metrics (([], ()), ())
     = (Done (), m', ([(p, m'')], ()), ())" "demo_sent ''firing'' = [(p, m'')]"
     "ap_Labels p = [\<lparr>lb_Name = ''alertname'', lb_Value = ''[email]''\<rparr>]"
    using demo_run by metis
  have "ap_AlertName p = ''a@b.cc''"
    using ProcessAlert_identity_verbatim[OF r(1)] by (simp add: mail_alert_def)
  moreover have "MatchString re_email ''a@b.cc''" by code_simp
  ultimately show ?thesis using r(2,3) by simp
qed

text \<open>Of the enrichment-error counters only the one for events can move: when a payload is handed over,
  the counters for Loki and Prometheus (and any other source) are what they were when the run began,
  however the queries went.\<close>

theorem ProcessAlert_errors_uncounted:
  assumes "ProcessAlert E P (recording forward) alert m (([], f), w) = (r, m', (sent, f'), w')" "(p, mp) \<in> set sent"
    and "source \<noteq> ''events''"
  shows "EnrichErrors mp source = EnrichErrors m source"
  using ProcessAlert_sent[OF assms(1)]
proof (elim disjE exE conjE)
  fix q m1 w1 assume a: "assemble E P alert m w = (Done q, m1, w1)" "sent = [(q, m1)]"
  then show ?thesis using assemble_facts[OF a(1) refl refl] assms(2,3) by simp
qed (use assms(2) in simp)

theorem ProcessAlert_errors_uncounted_witness:
  "\<exists>p mp. demo_sent ''firing'' = [(p, mp)] \<and> EnrichErrors mp ''loki'' = 0 \<and> EnrichErrors mp ''prometheus'' = 0"
proof -
  obtain p m' m'' where r: "ProcessAlert demo_env demo_pipeline (recording accept_all) (mail_alert ''firing'') no_metrics (([], ()), ())
     = (Done (), m', ([(p, m'')], ()), ())" "demo_sent ''firing'' = [(p, m'')]"
    using demo_run by metis
  have "EnrichErrors m'' s = EnrichErrors no_metrics s" if "s \<noteq> ''events''" for s
    using ProcessAlert_errors_uncounted[OF r(1) _ that] by simp
  then show ?thesis using r(2) by (auto simp: no_metrics_def)
qed

end
