(* ===== verification/GoEncoding.thy ===== *)
theory GoEncoding
  imports GoFormat
begin

text \<open>
  Go's \<^verbatim>\<open>encoding/hex\<close> and \<^verbatim>\<open>encoding/base64\<close> (\<^verbatim>\<open>StdEncoding\<close>), and the big-endian
  conversions \<^verbatim>\<open>big.Int.FillBytes\<close> and \<^verbatim>\<open>SetBytes\<close>. The lemmas are the round trips and the
  alphabets of the results.
\<close>

section \<open>Hexadecimal\<close>

definition hex_EncodeToString :: "bytes \<Rightarrow> string" where
  "hex_EncodeToString s = concat (map (\<lambda>c. hex2 lower_hex (byte_of c)) s)"

lemma length_hex [simp]: "length (hex_EncodeToString s) = 2 * length s"
  by (induction s) (auto simp: hex_EncodeToString_def hex2_def)

definition hex_digit :: "char \<Rightarrow> bool" where
  "hex_digit c = (c \<in> set lower_hex)"

lemma lower_hex_nth: "n < 16 \<Longrightarrow> lower_hex ! n \<in> set lower_hex"
  by (rule nth_mem) (simp add: lower_hex_def)

lemma hex_chars: "c \<in> set (hex_EncodeToString s) \<Longrightarrow> hex_digit c"
  by (auto simp: hex_EncodeToString_def hex2_def hex_digit_def lower_hex_nth)

fun hex_decode :: "string \<Rightarrow> bytes option" where
  "hex_decode [] = Some []"
| "hex_decode [a] = None"
| "hex_decode (a # b # cs) =
    (case (unhex a, unhex b) of
       (Some x, Some y) \<Rightarrow> map_option (Cons (char_of (x * 16 + y))) (hex_decode cs)
     | _ \<Rightarrow> None)"

lemma hex_decode_encode: "hex_decode (hex_EncodeToString s) = Some s"
proof (induction s)
  case (Cons c s)
  have "unhex (lower_hex ! (byte_of c div 16)) = Some (byte_of c div 16)"
    "unhex (lower_hex ! (byte_of c mod 16)) = Some (byte_of c mod 16)"
    using unhex_hex nibbles by blast+
  moreover have "char_of (byte_of c div 16 * 16 + byte_of c mod 16) = c" by simp
  ultimately show ?case using Cons by (simp add: hex_EncodeToString_def hex2_def)
qed (simp add: hex_EncodeToString_def)

lemma hex_EncodeToString_inject: "hex_EncodeToString a = hex_EncodeToString b \<Longrightarrow> a = b"
  using hex_decode_encode by (metis option.inject)

section \<open>Base64\<close>

definition b64_alphabet :: string where
  "b64_alphabet = ''ABCDEFGHIJKLMNOPQRSTUVWXYZabcdefghijklmnopqrstuvwxyz0123456789+/''"

definition b64_char :: "nat \<Rightarrow> char" where
  "b64_char n = b64_alphabet ! n"

definition b64_value :: "char \<Rightarrow> nat option" where
  "b64_value c =
    (let b = byte_of c in
     if 65 \<le> b \<and> b \<le> 90 then Some (b - 65)
     else if 97 \<le> b \<and> b \<le> 122 then Some (b - 71)
     else if 48 \<le> b \<and> b \<le> 57 then Some (b + 4)
     else if b = 43 then Some 62 else if b = 47 then Some 63 else None)"

fun b64_encode :: "bytes \<Rightarrow> string" where
  "b64_encode [] = []"
| "b64_encode [a] =
    [b64_char (byte_of a div 4), b64_char (byte_of a mod 4 * 16), CHR ''='', CHR ''='']"
| "b64_encode [a, b] =
    [b64_char (byte_of a div 4), b64_char (byte_of a mod 4 * 16 + byte_of b div 16),
     b64_char (byte_of b mod 16 * 4), CHR ''='']"
| "b64_encode (a # b # c # cs) =
    [b64_char (byte_of a div 4), b64_char (byte_of a mod 4 * 16 + byte_of b div 16),
     b64_char (byte_of b mod 16 * 4 + byte_of c div 64), b64_char (byte_of c mod 64)] @ b64_encode cs"

text \<open>
  Decoding reads quantums of four characters; padding ends the input. The unused low bits of a
  padded quantum are not checked (\<^verbatim>\<open>StdEncoding\<close> is not strict).
\<close>

fun b64_quantums :: "string \<Rightarrow> bytes option" where
  "b64_quantums [] = Some []"
| "b64_quantums (a # b # c # d # cs) =
    (case (b64_value a, b64_value b) of
       (Some v, Some w) \<Rightarrow>
         if c = CHR ''='' then
           (if d = CHR ''='' \<and> cs = [] then Some [char_of (v * 4 + w div 16)] else None)
         else
           (case b64_value c of
              None \<Rightarrow> None
            | Some x \<Rightarrow>
                if d = CHR ''='' then
                  (if cs = [] then Some [char_of (v * 4 + w div 16), char_of (w mod 16 * 16 + x div 4)]
                   else None)
                else
                  (case b64_value d of
                     None \<Rightarrow> None
                   | Some y \<Rightarrow>
                       map_option (\<lambda>rest. [char_of (v * 4 + w div 16), char_of (w mod 16 * 16 + x div 4),
                           char_of (x mod 4 * 64 + y)] @ rest) (b64_quantums cs)))
     | _ \<Rightarrow> None)"
| "b64_quantums cs = None"

definition b64_DecodeString :: "string \<Rightarrow> bytes option" where
  "b64_DecodeString s = b64_quantums (filter (\<lambda>c. c \<noteq> CHR 0x0A \<and> c \<noteq> CHR 0x0D) s)"

lemma b64_alphabet_length: "length b64_alphabet = 64"
  by (simp add: b64_alphabet_def)

lemma b64_alphabet_values: "map b64_value b64_alphabet = map Some [0..<64]"
  by code_simp

lemma b64_value_char: "n < 64 \<Longrightarrow> b64_value (b64_char n) = Some n"
  using arg_cong[OF b64_alphabet_values, of "\<lambda>l. l ! n"] b64_alphabet_length by (simp add: b64_char_def)

lemma b64_char_sane:
  assumes "n < 64"
  shows "b64_char n \<noteq> CHR ''='' \<and> b64_char n \<noteq> CHR 0x0A \<and> b64_char n \<noteq> CHR 0x0D \<and> b64_char n \<noteq> CHR '':''"
proof -
  have "set b64_alphabet \<inter> {CHR ''='', CHR 0x0A, CHR 0x0D, CHR '':''} = {}"
    by (simp add: b64_alphabet_def)
  moreover have "b64_char n \<in> set b64_alphabet"
    using assms b64_alphabet_length by (simp add: b64_char_def)
  ultimately show ?thesis by auto
qed

lemma sextets:
  "byte_of a div 4 < 64" "byte_of a mod 4 * 16 < 64" "byte_of a mod 4 * 16 + byte_of b div 16 < 64"
  "byte_of b mod 16 * 4 < 64" "byte_of b mod 16 * 4 + byte_of c div 64 < 64" "byte_of c mod 64 < 64"
  using byte_of_less[of a] byte_of_less[of b] byte_of_less[of c]
  by (auto simp: less_mult_imp_div_less) (presburger+)?

lemma sextets_bytes:
  fixes x y z :: nat
  assumes "x < 256" "y < 256" "z < 256"
  shows "x div 4 * 4 + (x mod 4 * 16) div 16 = x"
    "x div 4 * 4 + (x mod 4 * 16 + y div 16) div 16 = x"
    "(x mod 4 * 16 + y div 16) mod 16 * 16 + (y mod 16 * 4) div 4 = y"
    "(x mod 4 * 16 + y div 16) mod 16 * 16 + (y mod 16 * 4 + z div 64) div 4 = y"
    "(y mod 16 * 4 + z div 64) mod 4 * 64 + z mod 64 = z"
proof -
  have d: "y div 16 < 16" "z div 64 < 4" using assms by auto
  have m: "(a * 16 + e) div 16 = a" "(a * 16 + e) mod 16 = e" if "e < 16" for a e :: nat
    using that by auto
  have q: "(a * 4 + e) div 4 = a" "(a * 4 + e) mod 4 = e" if "e < 4" for a e :: nat
    using that by auto
  show "x div 4 * 4 + (x mod 4 * 16) div 16 = x" by simp
  show "x div 4 * 4 + (x mod 4 * 16 + y div 16) div 16 = x"
    unfolding m(1)[OF d(1)] by simp
  show "(x mod 4 * 16 + y div 16) mod 16 * 16 + (y mod 16 * 4) div 4 = y"
    unfolding m(2)[OF d(1)] by simp
  show "(x mod 4 * 16 + y div 16) mod 16 * 16 + (y mod 16 * 4 + z div 64) div 4 = y"
    unfolding m(2)[OF d(1)] q(1)[OF d(2)] by simp
  show "(y mod 16 * 4 + z div 64) mod 4 * 64 + z mod 64 = z"
    unfolding q(2)[OF d(2)] by simp
qed

lemma b64_quantums_encode: "b64_quantums (b64_encode s) = Some s"
proof (induction s rule: b64_encode.induct)
  case (2 a)
  then show ?case using byte_of_less[of a]
    by (simp add: b64_value_char sextets sextets_bytes(1)[of _ 0 0])
next
  case (3 a b)
  then show ?case using byte_of_less[of a] byte_of_less[of b]
    by (simp add: b64_value_char b64_char_sane sextets sextets_bytes(2,3)[of _ _ 0])
next
  case (4 a b c cs)
  then show ?case using byte_of_less[of a] byte_of_less[of b] byte_of_less[of c]
    by (simp add: b64_value_char b64_char_sane sextets sextets_bytes)
qed simp

lemma b64_encode_chars:
  "c \<in> set (b64_encode s) \<Longrightarrow> c \<noteq> CHR 0x0A \<and> c \<noteq> CHR 0x0D \<and> c \<noteq> CHR '':''"
  by (induction s rule: b64_encode.induct) (auto simp: b64_char_sane sextets)

lemma b64_Decode_encode [simp]: "b64_DecodeString (b64_encode s) = Some s"
proof -
  have "filter (\<lambda>c. c \<noteq> CHR 0x0A \<and> c \<noteq> CHR 0x0D) (b64_encode s) = b64_encode s"
    using b64_encode_chars by (auto intro: filter_True)
  then show ?thesis by (simp add: b64_DecodeString_def b64_quantums_encode)
qed

lemma b64_encode_inject: "b64_encode a = b64_encode b \<Longrightarrow> a = b"
  using b64_quantums_encode by (metis option.inject)

section \<open>Big-endian integers\<close>

fun FillBytes :: "nat \<Rightarrow> nat \<Rightarrow> bytes" where
  "FillBytes 0 n = []"
| "FillBytes (Suc k) n = FillBytes k (n div 256) @ [char_of (n mod 256)]"

definition SetBytes :: "bytes \<Rightarrow> nat" where
  "SetBytes s = foldl (\<lambda>a c. a * 256 + byte_of c) 0 s"

lemma length_FillBytes [simp]: "length (FillBytes k n) = k"
  by (induction k arbitrary: n) auto

lemma SetBytes_FillBytes: "n < 256 ^ k \<Longrightarrow> SetBytes (FillBytes k n) = n"
proof (induction k arbitrary: n)
  case (Suc k)
  then have "n div 256 < 256 ^ k" by (simp add: less_mult_imp_div_less mult.commute)
  moreover have "byte_of (char_of (n mod 256)) = n mod 256" by (simp add: byte_of_def)
  ultimately show ?case using Suc by (simp add: SetBytes_def)
qed (simp add: SetBytes_def)

end
