(* ===== verification/Httpsig.thy ===== *)
theory Httpsig
  imports GoHttp GoEncoding
begin

text \<open>
  \<^verbatim>\<open>internal/auth/httpsig.go\<close> and \<^verbatim>\<open>replay.go\<close>: HTTP message signatures over a fixed list of
  components. The primitives of \<^verbatim>\<open>crypto/sha256\<close> and \<^verbatim>\<open>crypto/ecdsa\<close> are the fields of \<open>sigs\<close>;
  signing draws randomness from the outside world. \<open>ecdsa_correct\<close> states what their documentation
  promises: a signature fits its 64 bytes and verifies under the matching public key.
\<close>

section \<open>Primitives\<close>

record ('sk, 'pk, 'w) sigs =
  sha256 :: "bytes \<Rightarrow> bytes"
  ecdsa_Sign :: "'sk \<Rightarrow> bytes \<Rightarrow> 'w \<Rightarrow> (nat \<times> nat) res \<times> 'w"
  ecdsa_Verify :: "'pk \<Rightarrow> bytes \<Rightarrow> nat \<Rightarrow> nat \<Rightarrow> bool"
  sk_P256 :: "'sk \<Rightarrow> bool"
  pk_P256 :: "'pk \<Rightarrow> bool"
  public_of :: "'sk \<Rightarrow> 'pk"

definition ecdsa_correct :: "('sk, 'pk, 'w) sigs \<Rightarrow> bool" where
  "ecdsa_correct S =
    (\<forall>sk d w r s w'. ecdsa_Sign S sk d w = (Inr (r, s), w') \<longrightarrow>
       r < 256 ^ 32 \<and> s < 256 ^ 32 \<and> ecdsa_Verify S (public_of S sk) d r s
       \<and> (sk_P256 S sk \<longrightarrow> pk_P256 S (public_of S sk)))"

section \<open>Constants\<close>

definition HeaderTimestamp :: string where "HeaderTimestamp = ''X-Muthur-Timestamp''"
definition HeaderNonce :: string where "HeaderNonce = ''X-Muthur-Nonce''"
definition HeaderCert :: string where "HeaderCert = ''X-Muthur-Cert''"
definition HeaderHPKEKid :: string where "HeaderHPKEKid = ''X-Muthur-Hpke-Kid''"
definition HeaderContentDigest :: string where "HeaderContentDigest = ''Content-Digest''"
definition HeaderSignatureInput :: string where "HeaderSignatureInput = ''Signature-Input''"
definition HeaderSignature :: string where "HeaderSignature = ''Signature''"
definition SignatureLabel :: string where "SignatureLabel = ''sig1''"
definition SignatureAlg :: string where "SignatureAlg = ''ecdsa-p256-sha256''"
definition SealedContentType :: string where "SealedContentType = ''application/vnd.muthur.sealed''"

definition signedComponents :: "string list" where
  "signedComponents =
    [''@method'', ''@path'', ''content-digest'', ''x-muthur-timestamp'', ''x-muthur-nonce'',
     ''x-muthur-cert'', ''x-muthur-hpke-kid'']"

definition ErrSignatureMissing :: go_error where
  "ErrSignatureMissing = ErrNew ''auth: request is not signed''"
definition ErrSignatureMalformed :: go_error where
  "ErrSignatureMalformed = ErrNew ''auth: malformed signature headers''"
definition ErrSignatureInvalid :: go_error where
  "ErrSignatureInvalid = ErrNew ''auth: signature verification failed''"
definition ErrSignatureKeyType :: go_error where
  "ErrSignatureKeyType = ErrNew ''auth: signing key must be ECDSA P-256''"
definition ErrDigestMismatch :: go_error where
  "ErrDigestMismatch = ErrNew ''auth: content-digest does not match body''"

section \<open>Digests\<close>

definition ContentDigest :: "('sk, 'pk, 'w) sigs \<Rightarrow> bytes \<Rightarrow> string" where
  "ContentDigest S body = ''sha-256=:'' @ b64_encode (sha256 S body) @ '':''"

definition VerifyContentDigest :: "('sk, 'pk, 'w) sigs \<Rightarrow> strmap \<Rightarrow> bytes \<Rightarrow> unit res" where
  "VerifyContentDigest S h body =
    (let want = ContentDigest S body; got = TrimSpace (header_Get h HeaderContentDigest) in
     if got = '''' \<or> got \<noteq> want then Inl ErrDigestMismatch else Inr ())"

definition CertKeyID :: "('sk, 'pk, 'w) sigs \<Rightarrow> bytes \<Rightarrow> string" where
  "CertKeyID S leafDER = hex_EncodeToString (sha256 S leafDER)"

section \<open>Signing\<close>

definition signatureParams :: "(nat \<Rightarrow> bool) \<Rightarrow> int \<Rightarrow> string \<Rightarrow> string" where
  "signatureParams isPrint created keyID =
    ''('' @ Join (map (Quote isPrint) signedComponents) '' ''
    @ '');created='' @ itoa created @ '';alg='' @ Quote isPrint SignatureAlg
    @ '';keyid='' @ Quote isPrint keyID"

definition component_value :: "string \<Rightarrow> string \<Rightarrow> strmap \<Rightarrow> string \<Rightarrow> string" where
  "component_value meth path h c =
    (if c = ''@method'' then ToUpper meth
     else if c = ''@path'' then path
     else TrimSpace (header_Get h c))"

definition base_line :: "(nat \<Rightarrow> bool) \<Rightarrow> string \<Rightarrow> string \<Rightarrow> string" where
  "base_line isPrint c v = Quote isPrint c @ '': '' @ v @ [CHR 0x0A]"

definition SignatureBase :: "(nat \<Rightarrow> bool) \<Rightarrow> string \<Rightarrow> string \<Rightarrow> strmap \<Rightarrow> string \<Rightarrow> string" where
  "SignatureBase isPrint meth path h params =
    concat (map (\<lambda>c. base_line isPrint c (component_value meth path h c)) signedComponents)
    @ Quote isPrint ''@signature-params'' @ '': '' @ params"

definition SignRequest ::
    "(nat \<Rightarrow> bool) \<Rightarrow> ('sk, 'pk, 'w) sigs \<Rightarrow> strmap \<Rightarrow> string \<Rightarrow> string \<Rightarrow> 'sk option \<Rightarrow> bytes \<Rightarrow> int \<Rightarrow> 'w
     \<Rightarrow> strmap res \<times> 'w" where
  "SignRequest isPrint S h meth path key leafDER created w =
    (case key of
       None \<Rightarrow> (Inl ErrSignatureKeyType, w)
     | Some sk \<Rightarrow>
        if \<not> sk_P256 S sk then (Inl ErrSignatureKeyType, w)
        else
          (let params = signatureParams isPrint created (CertKeyID S leafDER);
               digest = sha256 S (SignatureBase isPrint meth path h params) in
           case ecdsa_Sign S sk digest w of
             (Inl e, w') \<Rightarrow> (Inl (ErrWrap ''auth: sign request'' e), w')
           | (Inr (r, s), w') \<Rightarrow>
               (let sig = FillBytes 32 r @ FillBytes 32 s;
                    h' = header_Set h HeaderSignatureInput (SignatureLabel @ ''='' @ params) in
                (Inr (header_Set h' HeaderSignature (SignatureLabel @ ''=:'' @ b64_encode sig @ '':'')), w'))))"

section \<open>Verification\<close>

record SignatureInfo =
  si_Created :: int
  si_KeyID :: string

definition HasSuffix :: "string \<Rightarrow> string \<Rightarrow> bool" where
  "HasSuffix s t = (length t \<le> length s \<and> drop (length s - length t) s = t)"

definition TrimSuffix :: "string \<Rightarrow> string \<Rightarrow> string" where
  "TrimSuffix s t = (if HasSuffix s t then take (length s - length t) s else s)"

text \<open>The loop over the parameters behind the component list.\<close>

fun params_loop ::
    "(nat \<Rightarrow> bool) \<Rightarrow> string list \<Rightarrow> string list \<Rightarrow> SignatureInfo \<Rightarrow> (string list \<times> SignatureInfo) res" where
  "params_loop isPrint [] seen info = Inr (seen, info)"
| "params_loop isPrint (kv # kvs) seen info =
    (if kv = '''' then params_loop isPrint kvs seen info
     else case Cut kv (CHR ''='') of
       None \<Rightarrow> Inl ErrSignatureMalformed
     | Some (k, v) \<Rightarrow>
        if k \<in> set seen then Inl ErrSignatureMalformed
        else if k = ''created'' then
          (case ParseInt v of
             (n, None) \<Rightarrow> params_loop isPrint kvs (k # seen) (info\<lparr>si_Created := n\<rparr>)
           | _ \<Rightarrow> Inl ErrSignatureMalformed)
        else if k = ''alg'' then
          (if v \<noteq> Quote isPrint SignatureAlg then Inl (ErrWrap (''alg '' @ v) ErrSignatureMalformed)
           else params_loop isPrint kvs (k # seen) info)
        else if k = ''keyid'' then
          (case Unquote v of
             None \<Rightarrow> Inl ErrSignatureMalformed
           | Some i \<Rightarrow> params_loop isPrint kvs (k # seen) (info\<lparr>si_KeyID := i\<rparr>))
        else Inl (ErrWrap (''unknown parameter '' @ Quote isPrint k) ErrSignatureMalformed))"

definition parseSignatureParams :: "(nat \<Rightarrow> bool) \<Rightarrow> string \<Rightarrow> SignatureInfo res" where
  "parseSignatureParams isPrint params =
    (case IndexByte params (CHR '')'') of
       None \<Rightarrow> Inl ErrSignatureMalformed
     | Some closing \<Rightarrow>
        if \<not> HasPrefix params ''('' then Inl ErrSignatureMalformed
        else
          (let full = signatureParams isPrint 0 '''';
               wantList = (case IndexByte full (CHR '')'') of None \<Rightarrow> '''' | Some i \<Rightarrow> take (Suc i) full) in
           if take (Suc closing) params \<noteq> wantList
           then Inl (ErrWrap ''unexpected covered components'' ErrSignatureMalformed)
           else case params_loop isPrint (Split (drop (Suc closing) params) (CHR '';'')) []
                       \<lparr>si_Created = 0, si_KeyID = ''''\<rparr> of
                  Inl e \<Rightarrow> Inl e
                | Inr (seen, info) \<Rightarrow>
                    if ''created'' \<in> set seen \<and> ''alg'' \<in> set seen \<and> ''keyid'' \<in> set seen
                    then Inr info else Inl ErrSignatureMalformed))"

definition VerifyRequest ::
    "(nat \<Rightarrow> bool) \<Rightarrow> ('sk, 'pk, 'w) sigs \<Rightarrow> string \<Rightarrow> string \<Rightarrow> strmap \<Rightarrow> 'pk option \<Rightarrow> SignatureInfo res" where
  "VerifyRequest isPrint S meth path h pub =
    (case pub of
       None \<Rightarrow> Inl ErrSignatureKeyType
     | Some pk \<Rightarrow>
        if \<not> pk_P256 S pk then Inl ErrSignatureKeyType
        else
          (let inputRaw = TrimSpace (header_Get h HeaderSignatureInput);
               sigRaw = TrimSpace (header_Get h HeaderSignature) in
           if inputRaw = '''' \<or> sigRaw = '''' then Inl ErrSignatureMissing
           else case CutPrefix inputRaw (SignatureLabel @ ''='') of
             None \<Rightarrow> Inl ErrSignatureMalformed
           | Some params \<Rightarrow>
              (case parseSignatureParams isPrint params of
                 Inl e \<Rightarrow> Inl e
               | Inr info \<Rightarrow>
                  (case CutPrefix sigRaw (SignatureLabel @ ''=:'') of
                     None \<Rightarrow> Inl ErrSignatureMalformed
                   | Some sigB64 \<Rightarrow>
                      if \<not> HasSuffix sigB64 '':'' then Inl ErrSignatureMalformed
                      else case b64_DecodeString (TrimSuffix sigB64 '':'') of
                        None \<Rightarrow> Inl ErrSignatureMalformed
                      | Some sig \<Rightarrow>
                         if length sig \<noteq> 64 then Inl ErrSignatureMalformed
                         else
                           (let digest = sha256 S (SignatureBase isPrint meth path h params) in
                            if ecdsa_Verify S pk digest (SetBytes (take 32 sig)) (SetBytes (drop 32 sig))
                            then Inr info else Inl ErrSignatureInvalid)))))"

section \<open>Replay protection\<close>

text \<open>\<^verbatim>\<open>FreshNonce\<close> from the sixteen bytes read off \<^verbatim>\<open>crypto/rand\<close>; a failing read panics.\<close>

definition MetaTimestamp :: string where "MetaTimestamp = ''x-muthur-timestamp''"
definition MetaNonce :: string where "MetaNonce = ''x-muthur-nonce''"

definition FreshNonce :: "(nat \<Rightarrow> 'w \<Rightarrow> bytes option \<times> 'w) \<Rightarrow> 'w \<Rightarrow> string outcome \<times> 'w" where
  "FreshNonce rand_Read w =
    (case rand_Read 16 w of
       (None, w') \<Rightarrow> (Panic, w')
     | (Some b, w') \<Rightarrow> (Done (hex_EncodeToString b), w'))"

fun strip_first :: "string list \<Rightarrow> string \<Rightarrow> string" where
  "strip_first [] s = s"
| "strip_first (p # ps) s =
    (if length s > length p \<and> take (length p) s = p then drop (length p) s else strip_first ps s)"

definition StripScheme :: "string \<Rightarrow> string" where
  "StripScheme s = strip_first [''https://'', ''http://'', ''grpcs://'', ''grpc://''] s"

section \<open>Round trip\<close>

lemma bare_components: "list_all (list_all bare) (''@signature-params'' # signedComponents)"
  by code_simp

lemma Quote_components:
  "map (Quote isPrint) signedComponents = map (\<lambda>c. CHR 0x22 # c @ [CHR 0x22]) signedComponents"
  using bare_components by (auto simp: list_all_iff Quote_bare)

text \<open>The component list is a constant.\<close>

definition component_list :: string where
  "component_list = ''('' @ Join (map (\<lambda>c. CHR 0x22 # c @ [CHR 0x22]) signedComponents) '' ''"

lemma component_list_chars: "CHR '')'' \<notin> set component_list" "HasPrefix component_list ''(''"
  by code_simp+

definition params_tail :: "(nat \<Rightarrow> bool) \<Rightarrow> int \<Rightarrow> string \<Rightarrow> string" where
  "params_tail isPrint created keyID =
    '';created='' @ itoa created @ '';alg='' @ CHR 0x22 # SignatureAlg @ CHR 0x22 # '';keyid='' @ Quote isPrint keyID"

lemma Quote_alg: "Quote isPrint SignatureAlg = CHR 0x22 # SignatureAlg @ [CHR 0x22]"
proof -
  have "list_all bare SignatureAlg" by code_simp
  then show ?thesis by (rule Quote_bare)
qed

lemma signatureParams_split:
  "signatureParams isPrint created keyID = component_list @ CHR '')'' # params_tail isPrint created keyID"
  by (simp add: signatureParams_def component_list_def Quote_components params_tail_def Quote_alg)

lemma params_closing:
  "IndexByte (component_list @ CHR '')'' # t) (CHR '')'') = Some (length component_list)"
  by (rule IndexByte_append[OF component_list_chars(1)])

definition token_ok :: "string \<Rightarrow> bool" where
  "token_ok s = (list_all bare s \<and> CHR '';'' \<notin> set s)"

lemma itoa_no_sep: "CHR '';'' \<notin> set (itoa n)"
  using itoa_chars[of "CHR '';''" n] by (auto simp: is_digit_def byte_of_def)

lemma HasPrefix_extend: "HasPrefix s p \<Longrightarrow> HasPrefix (s @ t) p"
  by (auto simp: HasPrefix_iff)

lemma Split_sep: "Split (c # s) c = [] # Split s c"
  by simp

lemma params_tail_fields:
  assumes "token_ok keyID"
  shows "Split (params_tail isPrint created keyID) (CHR '';'')
    = ['''', ''created='' @ itoa created, ''alg='' @ Quote isPrint SignatureAlg, ''keyid='' @ Quote isPrint keyID]"
proof -
  have q: "Quote isPrint keyID = CHR 0x22 # keyID @ [CHR 0x22]"
    using assms by (simp add: token_ok_def Quote_bare)
  have a: "CHR '';'' \<notin> set (''alg='' @ CHR 0x22 # SignatureAlg @ [CHR 0x22])" by code_simp
  have c: "CHR '';'' \<notin> set (''created='' @ itoa created)" using itoa_no_sep by simp
  have k: "CHR '';'' \<notin> set (''keyid='' @ CHR 0x22 # keyID @ [CHR 0x22])" using assms by (simp add: token_ok_def)
  have "params_tail isPrint created keyID = [] @ CHR '';'' # (''created='' @ itoa created)
      @ CHR '';'' # (''alg='' @ CHR 0x22 # SignatureAlg @ [CHR 0x22])
      @ CHR '';'' # (''keyid='' @ CHR 0x22 # keyID @ [CHR 0x22])"
    by (simp add: params_tail_def q)
  then show ?thesis
    unfolding q Quote_alg
    by (simp only: append_Nil Split_append[OF c] Split_append[OF a] Split_no_sep[OF k]
        Split_sep)
qed

lemma Cut_Cons:
  "Cut (x # xs) c = (if x = c then Some ([], xs) else map_option (map_prod (Cons x) id) (Cut xs c))"
  by (simp add: Cut_def map_prod_def comp_def option.map_comp)

lemma parse_signatureParams:
  assumes "token_ok keyID" "- (2 ^ 63) \<le> created" "created < 2 ^ 63"
  shows "parseSignatureParams isPrint (signatureParams isPrint created keyID)
    = Inr \<lparr>si_Created = created, si_KeyID = keyID\<rparr>"
proof -
  have u: "Unquote (Quote isPrint keyID) = Some keyID"
    using assms by (simp add: token_ok_def Quote_bare Unquote_bare)
  have p: "ParseInt (itoa created) = (created, None)" using assms(2,3) by (rule parse_int_itoa)
  have "params_loop isPrint (Split (params_tail isPrint created keyID) (CHR '';'')) []
      \<lparr>si_Created = 0, si_KeyID = ''''\<rparr>
    = Inr ([''keyid'', ''alg'', ''created''], \<lparr>si_Created = created, si_KeyID = keyID\<rparr>)"
    unfolding params_tail_fields[OF assms(1)] by (simp add: Cut_Cons p u)
  then show ?thesis
    using HasPrefix_extend[OF component_list_chars(2)]
    by (simp add: parseSignatureParams_def signatureParams_split params_closing)
qed


lemma hex_token: "token_ok (hex_EncodeToString s)"
proof -
  have "list_all (\<lambda>c. bare c \<and> c \<noteq> CHR '';'') lower_hex" by code_simp
  then show ?thesis using hex_chars[of _ s] by (auto simp: token_ok_def list_all_iff hex_digit_def)
qed

lemma Get_other_header:
  assumes "c \<in> set signedComponents"
  shows "header_Get (header_Set (header_Set h HeaderSignatureInput a) HeaderSignature b) c = header_Get h c"
proof -
  have "list_all (\<lambda>c. CanonicalHeaderKey c \<noteq> CanonicalHeaderKey HeaderSignatureInput
      \<and> CanonicalHeaderKey c \<noteq> CanonicalHeaderKey HeaderSignature) signedComponents" by code_simp
  then show ?thesis using assms by (simp add: header_Get_Set list_all_iff)
qed

lemma SignatureBase_signed:
  "SignatureBase isPrint meth path (header_Set (header_Set h HeaderSignatureInput a) HeaderSignature b) params
   = SignatureBase isPrint meth path h params"
  unfolding SignatureBase_def
  by (intro arg_cong2[of _ _ _ _ "(@)"] arg_cong[of _ _ concat] map_cong refl)
    (simp add: component_value_def Get_other_header)

lemma Get_signature_headers:
  "header_Get (header_Set (header_Set h HeaderSignatureInput a) HeaderSignature b) HeaderSignatureInput = a"
  "header_Get (header_Set (header_Set h HeaderSignatureInput a) HeaderSignature b) HeaderSignature = b"
proof -
  have "CanonicalHeaderKey HeaderSignature \<noteq> CanonicalHeaderKey HeaderSignatureInput" by code_simp
  then show "header_Get (header_Set (header_Set h HeaderSignatureInput a) HeaderSignature b) HeaderSignatureInput = a"
    by (simp add: header_Get_Set)
qed (simp add: header_Get_Set)

text \<open>A header value that begins with a letter and ends with a printable character is not trimmed.\<close>

lemma TrimSpace_token: "d \<in> {CHR '':'', CHR 0x22} \<Longrightarrow> TrimSpace (CHR ''s'' # s @ [d]) = CHR ''s'' # s @ [d]"
  by (rule TrimSpace_id) (auto simp: is_space_def byte_of_def Let_def)

lemma Verify_signed:
  assumes "ecdsa_correct S" "- (2 ^ 63) \<le> created" "created < 2 ^ 63"
    and "SignRequest isPrint S h meth path (Some sk) leaf created w = (Inr h', w')"
  shows "VerifyRequest isPrint S meth path h' (Some (public_of S sk))
    = Inr \<lparr>si_Created = created, si_KeyID = CertKeyID S leaf\<rparr>"
proof -
  let ?p = "signatureParams isPrint created (CertKeyID S leaf)"
  let ?d = "sha256 S (SignatureBase isPrint meth path h ?p)"
  obtain r s where sk: "sk_P256 S sk" and sg: "ecdsa_Sign S sk ?d w = (Inr (r, s), w')"
    and h': "h' = header_Set (header_Set h HeaderSignatureInput (SignatureLabel @ ''='' @ ?p)) HeaderSignature
        (SignatureLabel @ ''=:'' @ b64_encode (FillBytes 32 r @ FillBytes 32 s) @ '':'')"
    using assms(4) by (auto simp: SignRequest_def Let_def split: if_splits prod.splits sum.splits)
  have ok: "r < 256 ^ 32" "s < 256 ^ 32" "ecdsa_Verify S (public_of S sk) ?d r s" "pk_P256 S (public_of S sk)"
    using assms(1) sk sg unfolding ecdsa_correct_def by blast+
  have t: "token_ok (CertKeyID S leaf)" by (simp add: CertKeyID_def hex_token)
  obtain u where q: "?p = u @ [CHR 0x22]"
    using t by (simp add: signatureParams_def token_ok_def Quote_bare)
  have 1: "TrimSpace (SignatureLabel @ ''='' @ ?p) = SignatureLabel @ ''='' @ ?p"
    using TrimSpace_token[of "CHR 0x22" "''ig1='' @ u"] unfolding q by (simp add: SignatureLabel_def)
  have 2: "TrimSpace (SignatureLabel @ ''=:'' @ x @ '':'') = SignatureLabel @ ''=:'' @ x @ '':''" for x
    using TrimSpace_token[of "CHR '':''" "''ig1=:'' @ x"] by (simp add: SignatureLabel_def)
  have 3: "CutPrefix (SignatureLabel @ ''='' @ x) (SignatureLabel @ ''='') = Some x"
    "CutPrefix (SignatureLabel @ ''=:'' @ x) (SignatureLabel @ ''=:'') = Some x" for x
    using CutPrefix_append[of "SignatureLabel @ ''=''" x] CutPrefix_append[of "SignatureLabel @ ''=:''" x] by simp_all
  have 4: "SignatureLabel @ x \<noteq> ''''" for x by (simp add: SignatureLabel_def)
  have 5: "HasSuffix (x @ '':'') '':''" "TrimSuffix (x @ '':'') '':'' = x" for x
    by (simp_all add: HasSuffix_def TrimSuffix_def)
  show ?thesis
    using ok sk
    by (simp add: VerifyRequest_def h' Get_signature_headers 1[simplified] 2[simplified] 3[simplified] 4 5 Let_def SignatureBase_signed
        parse_signatureParams[OF t assms(2,3)] SetBytes_FillBytes)
qed

section \<open>What a signature covers\<close>

definition newline_free :: "string \<Rightarrow> bool" where
  "newline_free s = (CHR 0x0A \<notin> set s)"

definition base_lines :: "(nat \<Rightarrow> bool) \<Rightarrow> string \<Rightarrow> string \<Rightarrow> strmap \<Rightarrow> string list" where
  "base_lines isPrint meth path h =
    map (\<lambda>c. Quote isPrint c @ '': '' @ component_value meth path h c) signedComponents"

lemma Quote_newline_free: "c \<in> set (''@signature-params'' # signedComponents) \<Longrightarrow> newline_free (Quote isPrint c)"
  using bare_components
  by (fastforce simp: list_all_iff Quote_bare newline_free_def bare_def byte_of_def)

lemma Split_lines:
  "list_all newline_free ls \<Longrightarrow> newline_free t \<Longrightarrow>
   Split (concat (map (\<lambda>l. l @ [CHR 0x0A]) ls) @ t) (CHR 0x0A) = ls @ [t]"
  by (induction ls) (auto simp: newline_free_def Split_no_sep Split_append)

lemma SignatureBase_lines:
  assumes "\<forall>c\<in>set signedComponents. newline_free (component_value meth path h c)" "newline_free params"
  shows "Split (SignatureBase isPrint meth path h params) (CHR 0x0A)
    = base_lines isPrint meth path h @ [Quote isPrint ''@signature-params'' @ '': '' @ params]"
proof -
  have "SignatureBase isPrint meth path h params
      = concat (map (\<lambda>l. l @ [CHR 0x0A]) (base_lines isPrint meth path h))
        @ Quote isPrint ''@signature-params'' @ '': '' @ params"
    by (simp add: SignatureBase_def base_lines_def base_line_def comp_def)
  moreover have "list_all newline_free (base_lines isPrint meth path h)"
    using assms(1) Quote_newline_free by (auto simp: base_lines_def list_all_iff newline_free_def)
  moreover have "newline_free (Quote isPrint ''@signature-params'' @ '': '' @ params)"
    using assms(2) Quote_newline_free[of "''@signature-params''"] by (simp add: newline_free_def)
  ultimately show ?thesis by (simp only: Split_lines)
qed

lemma parse_covers:
  assumes "parseSignatureParams isPrint params = Inr info"
  shows "\<exists>rest. params = component_list @ CHR '')'' # rest"
proof -
  obtain i where i: "take (Suc i) params = component_list @ [CHR '')'']"
    using assms
    by (auto simp: parseSignatureParams_def signatureParams_split params_closing Let_def
        split: option.splits if_splits)
  then show ?thesis by (metis append.assoc append_Cons append_Nil append_take_drop_id)
qed

section \<open>Properties\<close>

text \<open>C10: a request signed by \<open>SignRequest\<close> is accepted by \<open>VerifyRequest\<close> under the matching public key,
  which recovers the creation time and the key id, for every method, path and header set.\<close>

theorem sign_verify_roundtrip:
  assumes "ecdsa_correct S" "- (2 ^ 63) \<le> created" "created < 2 ^ 63"
    and "SignRequest isPrint S h meth path (Some sk) leaf created w = (Inr h', w')"
  shows "VerifyRequest isPrint S meth path h' (Some (public_of S sk))
    = Inr \<lparr>si_Created = created, si_KeyID = CertKeyID S leaf\<rparr>"
  by (rule Verify_signed[OF assms])

text \<open>A signature scheme whose signatures are the constants one and two, for the witnesses.\<close>

definition constant_sigs :: "(nat, nat, nat) sigs" where
  "constant_sigs =
    \<lparr>sha256 = \<lambda>b. [CHR 0x2A], ecdsa_Sign = \<lambda>sk d w. (Inr (1, 2), w),
     ecdsa_Verify = \<lambda>pk d r s. r = 1 \<and> s = 2, sk_P256 = \<lambda>_. True, pk_P256 = \<lambda>_. True, public_of = id\<rparr>"

lemma constant_sigs_correct: "ecdsa_correct constant_sigs"
  by (simp add: ecdsa_correct_def constant_sigs_def)

theorem sign_verify_roundtrip_witness:
  "\<exists>h' w'. SignRequest (\<lambda>_. True) constant_sigs [] ''POST'' ''/p'' (Some 5) [CHR ''x''] 1700000000 0 = (Inr h', w')
    \<and> VerifyRequest (\<lambda>_. True) constant_sigs ''POST'' ''/p'' h' (Some (public_of constant_sigs 5))
      = Inr \<lparr>si_Created = 1700000000, si_KeyID = ''2a''\<rparr>"
proof -
  obtain h' w' where s: "SignRequest (\<lambda>_. True) constant_sigs [] ''POST'' ''/p'' (Some 5) [CHR ''x''] 1700000000 0
      = (Inr h', w')"
    by (simp add: SignRequest_def constant_sigs_def Let_def)
  have "CertKeyID constant_sigs [CHR ''x''] = ''2a''" by code_simp
  then show ?thesis
    using s sign_verify_roundtrip[OF constant_sigs_correct _ _ s] by simp
qed

text \<open>C11: the signature base determines what is signed. Two requests with the same base, whose values
  carry no line break (an HTTP header value cannot), agree on the method, the path, the body digest,
  the timestamp, the nonce, the certificate, the HPKE key id and the signature parameters.\<close>

theorem SignatureBase_binds:
  assumes "\<forall>c\<in>set signedComponents. newline_free (component_value m1 p1 h1 c)" "newline_free params1"
    and "\<forall>c\<in>set signedComponents. newline_free (component_value m2 p2 h2 c)" "newline_free params2"
    and "SignatureBase isPrint m1 p1 h1 params1 = SignatureBase isPrint m2 p2 h2 params2"
  shows "ToUpper m1 = ToUpper m2 \<and> p1 = p2 \<and> params1 = params2
    \<and> (\<forall>k\<in>{HeaderContentDigest, HeaderTimestamp, HeaderNonce, HeaderCert, HeaderHPKEKid}.
          TrimSpace (header_Get h1 k) = TrimSpace (header_Get h2 k))"
proof -
  have e: "base_lines isPrint m1 p1 h1 @ [Quote isPrint ''@signature-params'' @ '': '' @ params1]
      = base_lines isPrint m2 p2 h2 @ [Quote isPrint ''@signature-params'' @ '': '' @ params2]"
    using SignatureBase_lines[OF assms(1,2), of isPrint] SignatureBase_lines[OF assms(3,4), of isPrint] assms(5)
    by simp
  then have "\<forall>c\<in>set signedComponents. component_value m1 p1 h1 c = component_value m2 p2 h2 c"
    by (simp add: base_lines_def)
  then have v: "ToUpper m1 = ToUpper m2" "p1 = p2"
    and g: "\<forall>c\<in>set (drop 2 signedComponents). TrimSpace (header_Get h1 c) = TrimSpace (header_Get h2 c)"
    by (simp_all add: signedComponents_def component_value_def)
  have k: "map CanonicalHeaderKey (drop 2 signedComponents)
      = map CanonicalHeaderKey [HeaderContentDigest, HeaderTimestamp, HeaderNonce, HeaderCert, HeaderHPKEKid]"
    by code_simp
  have "\<forall>c\<in>set [HeaderContentDigest, HeaderTimestamp, HeaderNonce, HeaderCert, HeaderHPKEKid].
      \<exists>c'\<in>set (drop 2 signedComponents). CanonicalHeaderKey c' = CanonicalHeaderKey c"
    using k by (metis (no_types, lifting) image_iff list.set_map)
  then have "\<forall>c\<in>set [HeaderContentDigest, HeaderTimestamp, HeaderNonce, HeaderCert, HeaderHPKEKid].
      TrimSpace (header_Get h1 c) = TrimSpace (header_Get h2 c)"
    using g unfolding header_Get_def by metis
  then show ?thesis using v e by simp
qed

theorem SignatureBase_binds_witness:
  "let h = [(HeaderNonce, ''ab'')] in
   SignatureBase (\<lambda>_. True) ''post'' ''/p'' h ''x'' = SignatureBase (\<lambda>_. True) ''POST'' ''/p'' h ''x''
   \<and> ToUpper ''post'' = ToUpper ''POST''"
proof -
  let ?h = "[(HeaderNonce, ''ab'')]"
  have u: "ToUpper ''post'' = ToUpper ''POST''" by code_simp
  have e: "SignatureBase (\<lambda>_. True) ''post'' ''/p'' ?h ''x'' = SignatureBase (\<lambda>_. True) ''POST'' ''/p'' ?h ''x''"
    unfolding SignatureBase_def component_value_def u ..
  have 1: "\<forall>c\<in>set signedComponents. newline_free (component_value ''post'' ''/p'' ?h c)"
    and 2: "\<forall>c\<in>set signedComponents. newline_free (component_value ''POST'' ''/p'' ?h c)"
    and 3: "newline_free ''x''"
    by code_simp+
  show ?thesis using e SignatureBase_binds[OF 1 3 2 3 e] by simp
qed

text \<open>C36: verification cannot be downgraded. An accepted request carries a signature that verifies over
  the base of the full component list; whatever the peer puts into \<^verbatim>\<open>Signature-Input\<close>, a shorter or
  reordered list is rejected.\<close>

theorem VerifyRequest_no_downgrade:
  assumes "VerifyRequest isPrint S meth path h pub = Inr info"
  shows "\<exists>pk params rest r s. pub = Some pk \<and> pk_P256 S pk
    \<and> TrimSpace (header_Get h HeaderSignatureInput) = SignatureLabel @ ''='' @ params
    \<and> params = component_list @ CHR '')'' # rest
    \<and> ecdsa_Verify S pk (sha256 S (SignatureBase isPrint meth path h params)) r s"
proof -
  obtain pk params r s where "pub = Some pk" "pk_P256 S pk"
    "CutPrefix (TrimSpace (header_Get h HeaderSignatureInput)) (SignatureLabel @ ''='') = Some params"
    "parseSignatureParams isPrint params = Inr info"
    "ecdsa_Verify S pk (sha256 S (SignatureBase isPrint meth path h params)) r s"
    using assms by (auto simp: VerifyRequest_def Let_def split: option.splits if_splits sum.splits)
  moreover from this obtain rest where "params = component_list @ CHR '')'' # rest"
    using parse_covers by blast
  ultimately show ?thesis by (auto simp: CutPrefix_Some_iff)
qed

theorem VerifyRequest_no_downgrade_witness:
  "\<exists>h info pk params rest r s. VerifyRequest (\<lambda>_. True) constant_sigs ''POST'' ''/p'' h (Some 5) = Inr info
    \<and> Some 5 = Some pk \<and> params = component_list @ CHR '')'' # rest
    \<and> ecdsa_Verify constant_sigs pk (sha256 constant_sigs (SignatureBase (\<lambda>_. True) ''POST'' ''/p'' h params)) r s"
proof -
  obtain h' w' where s: "SignRequest (\<lambda>_. True) constant_sigs [] ''POST'' ''/p'' (Some 5) [CHR ''x''] 1700000000 0
      = (Inr h', w')"
    by (simp add: SignRequest_def constant_sigs_def Let_def)
  have "public_of constant_sigs 5 = 5" by (simp add: constant_sigs_def)
  then have v: "VerifyRequest (\<lambda>_. True) constant_sigs ''POST'' ''/p'' h' (Some 5)
      = Inr \<lparr>si_Created = 1700000000, si_KeyID = CertKeyID constant_sigs [CHR ''x'']\<rparr>"
    using Verify_signed[OF constant_sigs_correct _ _ s] by simp
  show ?thesis using v VerifyRequest_no_downgrade[OF v] by blast
qed

text \<open>The digest header binds the body. A header made by \<open>ContentDigest\<close> for one body is accepted
  for a body exactly when the two have the same SHA-256 hash.\<close>

theorem ContentDigest_binds:
  "VerifyContentDigest S (header_Set h HeaderContentDigest (ContentDigest S b)) b' = Inr ()
   \<longleftrightarrow> sha256 S b = sha256 S b'"
proof -
  have "TrimSpace (ContentDigest S b) = ContentDigest S b"
    using TrimSpace_token[of "CHR '':''" "''ha-256=:'' @ b64_encode (sha256 S b)"] by (simp add: ContentDigest_def)
  then show ?thesis
    by (auto simp: VerifyContentDigest_def header_Get_Set ContentDigest_def Let_def dest: b64_encode_inject)
qed

end
