(* ===== verification/Sealed.thy ===== *)
theory Sealed
  imports Httpsig
begin

text \<open>
  \<^verbatim>\<open>internal/auth/sealed.go\<close>: the sealed envelope of the signed transport. HPKE and AES-GCM
  are the fields of \<open>hpke\<close>; randomness comes from the outside world. The key files of the set are in
  \<open>HpkeKeys\<close>. \<open>hpke_correct\<close> states what
  the packages document: a recipient holding the private key opens what was sealed to its public key
  for the same info and additional data and exports the same secret, and AES-GCM opens what it sealed.
\<close>

section \<open>Primitives\<close>

text \<open>A sender or recipient context is the value it was set up to; \<open>'c\<close> is that of the library.\<close>

datatype ecdh_curve = X25519 | P256 | P384 | P521
datatype hpke_kem = DHKEM ecdh_curve
datatype hpke_kdf = HKDFSHA256 | HKDFSHA384 | HKDFSHA512
datatype hpke_aead = AES128GCM | AES256GCM | ChaCha20Poly1305

record ('pk, 'sk, 'c, 'w) hpke =
  NewSender :: "'pk \<Rightarrow> hpke_kdf \<Rightarrow> hpke_aead \<Rightarrow> bytes \<Rightarrow> 'w \<Rightarrow> (bytes \<times> 'c) res \<times> 'w"
  NewRecipient :: "bytes \<Rightarrow> 'sk \<Rightarrow> hpke_kdf \<Rightarrow> hpke_aead \<Rightarrow> bytes \<Rightarrow> 'c res"
  ctx_Seal :: "'c \<Rightarrow> bytes \<Rightarrow> bytes \<Rightarrow> bytes res"
  ctx_Open :: "'c \<Rightarrow> bytes \<Rightarrow> bytes \<Rightarrow> bytes res"
  ctx_Export :: "'c \<Rightarrow> string \<Rightarrow> nat \<Rightarrow> bytes res"
  PublicKey :: "'sk \<Rightarrow> 'pk"
  pk_Bytes :: "'pk \<Rightarrow> bytes"
  NewPublicKey :: "hpke_kem \<Rightarrow> bytes \<Rightarrow> 'pk res"
  aes_NewCipher :: "bytes \<Rightarrow> go_error option"
  NewGCM :: "bytes \<Rightarrow> go_error option"
  gcm_Seal :: "bytes \<Rightarrow> bytes \<Rightarrow> bytes \<Rightarrow> bytes"
  gcm_Open :: "bytes \<Rightarrow> bytes \<Rightarrow> bytes \<Rightarrow> bytes res"

definition hpke_correct :: "('pk, 'sk, 'c, 'w) hpke \<Rightarrow> bool" where
  "hpke_correct H =
    ((\<forall>sk kdf aead info w enc c w'. NewSender H (PublicKey H sk) kdf aead info w = (Inr (enc, c), w') \<longrightarrow>
        length enc = 32 \<and>
        (\<exists>c'. NewRecipient H enc sk kdf aead info = Inr c'
           \<and> (\<forall>aad pt ct. ctx_Seal H c aad pt = Inr ct \<longrightarrow> ctx_Open H c' aad ct = Inr pt)
           \<and> (\<forall>x n k. ctx_Export H c x n = Inr k \<longrightarrow> ctx_Export H c' x n = Inr k)))
     \<and> (\<forall>key nonce pt. aes_NewCipher H key = None \<and> NewGCM H key = None \<longrightarrow>
          gcm_Open H key nonce (gcm_Seal H key nonce pt) = Inr pt))"

section \<open>Constants\<close>

definition SealedVersion :: char where "SealedVersion = CHR 0x01"
definition hpkeEncSize :: nat where "hpkeEncSize = 32"
definition responseKeyLen :: nat where "responseKeyLen = 32"
definition gcmNonceLen :: nat where "gcmNonceLen = 12"
definition hpkeInfoPrefix :: string where "hpkeInfoPrefix = ''muthur/v1 ''"
definition responseExportContext :: string where "responseExportContext = ''muthur/v1 response''"
definition HPKEKEMName :: string where "HPKEKEMName = ''dhkem-x25519-hkdf-sha256''"
definition HPKEKDFName :: string where "HPKEKDFName = ''hkdf-sha256''"
definition HPKEAEADName :: string where "HPKEAEADName = ''aes-256-gcm''"

definition ErrSealedMalformed :: go_error where
  "ErrSealedMalformed = ErrNew ''auth: malformed sealed envelope''"
definition ErrUnknownHPKEKey :: go_error where
  "ErrUnknownHPKEKey = ErrNew ''auth: unknown HPKE key id''"

definition hpkeKEM :: hpke_kem where "hpkeKEM = DHKEM X25519"
definition hpkeKDF :: hpke_kdf where "hpkeKDF = HKDFSHA256"
definition hpkeAEAD :: hpke_aead where "hpkeAEAD = AES256GCM"

definition hpkeInfo :: "string \<Rightarrow> bytes" where
  "hpkeInfo path = hpkeInfoPrefix @ path"

definition sealAAD :: "string \<Rightarrow> string \<Rightarrow> bytes" where
  "sealAAD timestamp nonce = timestamp @ [CHR 0x0A] @ nonce"

definition HPKEKeyID :: "(bytes \<Rightarrow> bytes) \<Rightarrow> ('pk, 'sk, 'c, 'w) hpke \<Rightarrow> 'pk \<Rightarrow> string" where
  "HPKEKeyID sha H pub = hex_EncodeToString (take 8 (sha (pk_Bytes H pub)))"

definition ParseHPKEPublicKey :: "('pk, 'sk, 'c, 'w) hpke \<Rightarrow> bytes \<Rightarrow> 'pk res" where
  "ParseHPKEPublicKey H raw = NewPublicKey H hpkeKEM raw"

section \<open>The client side\<close>

text \<open>A \<^verbatim>\<open>ResponseOpener\<close> and a \<^verbatim>\<open>ResponseSealer\<close> are the response key they hold.\<close>

record ResponseOpener = ro_key :: bytes
record ResponseSealer = rsl_key :: bytes

definition SealRequest ::
    "('pk, 'sk, 'c, 'w) hpke \<Rightarrow> 'pk \<Rightarrow> string \<Rightarrow> string \<Rightarrow> string \<Rightarrow> bytes \<Rightarrow> 'w
     \<Rightarrow> (bytes \<times> ResponseOpener) res \<times> 'w" where
  "SealRequest H pub path timestamp nonce plaintext w =
    (case NewSender H pub hpkeKDF hpkeAEAD (hpkeInfo path) w of
       (Inl e, w') \<Rightarrow> (Inl (ErrWrap ''auth: hpke sender'' e), w')
     | (Inr (enc, sender), w') \<Rightarrow>
        (case ctx_Seal H sender (sealAAD timestamp nonce) plaintext of
           Inl e \<Rightarrow> (Inl (ErrWrap ''auth: hpke seal'' e), w')
         | Inr ct \<Rightarrow>
            (case ctx_Export H sender responseExportContext responseKeyLen of
               Inl e \<Rightarrow> (Inl (ErrWrap ''auth: hpke export'' e), w')
             | Inr rk \<Rightarrow> (Inr ([SealedVersion] @ enc @ ct, \<lparr>ro_key = rk\<rparr>), w'))))"

definition newGCM :: "('pk, 'sk, 'c, 'w) hpke \<Rightarrow> bytes \<Rightarrow> unit res" where
  "newGCM H key =
    (case aes_NewCipher H key of
       Some e \<Rightarrow> Inl (ErrWrap ''auth: response cipher'' e)
     | None \<Rightarrow> (case NewGCM H key of Some e \<Rightarrow> Inl e | None \<Rightarrow> Inr ()))"

definition opener_Open :: "('pk, 'sk, 'c, 'w) hpke \<Rightarrow> ResponseOpener \<Rightarrow> bytes \<Rightarrow> bytes res" where
  "opener_Open H ro body =
    (if length body < 1 + gcmNonceLen \<or> hd body \<noteq> SealedVersion then Inl ErrSealedMalformed
     else case newGCM H (ro_key ro) of
            Inl e \<Rightarrow> Inl e
          | Inr _ \<Rightarrow>
             (case gcm_Open H (ro_key ro) (take gcmNonceLen (drop 1 body)) (drop (1 + gcmNonceLen) body) of
                Inl e \<Rightarrow> Inl ErrSealedMalformed
              | Inr pt \<Rightarrow> Inr pt))"

section \<open>The brain side\<close>

definition sealer_Seal ::
    "('pk, 'sk, 'c, 'w) hpke \<Rightarrow> (nat \<Rightarrow> 'w \<Rightarrow> bytes res \<times> 'w) \<Rightarrow> ResponseSealer \<Rightarrow> bytes \<Rightarrow> 'w \<Rightarrow> bytes res \<times> 'w" where
  "sealer_Seal H rand_Read rs plaintext w =
    (case newGCM H (rsl_key rs) of
       Inl e \<Rightarrow> (Inl e, w)
     | Inr _ \<Rightarrow>
        (case rand_Read gcmNonceLen w of
           (Inl e, w') \<Rightarrow> (Inl (ErrWrap ''auth: response nonce'' e), w')
         | (Inr nonce, w') \<Rightarrow> (Inr ([SealedVersion] @ nonce @ gcm_Seal H (rsl_key rs) nonce plaintext), w')))"

record 'sk HPKEKeySet =
  ks_order :: "string list"
  ks_keys :: "(string \<times> 'sk) list"

record 'pk HPKEPublicKey =
  hk_KID :: string
  hk_Key :: 'pk

text \<open>\<^verbatim>\<open>ks.keys[kid]\<close> of an id that is not in the map would be the zero value; \<open>key_set_ok\<close> rules it out.\<close>

definition ks_Public :: "('pk, 'sk, 'c, 'w) hpke \<Rightarrow> 'sk HPKEKeySet \<Rightarrow> 'pk HPKEPublicKey list" where
  "ks_Public H ks =
    map (\<lambda>kid. \<lparr>hk_KID = kid, hk_Key = PublicKey H (the (map_of (ks_keys ks) kid))\<rparr>) (ks_order ks)"

definition OpenRequest ::
    "('pk, 'sk, 'c, 'w) hpke \<Rightarrow> 'sk HPKEKeySet \<Rightarrow> string \<Rightarrow> string \<Rightarrow> string \<Rightarrow> string \<Rightarrow> bytes
     \<Rightarrow> (bytes \<times> ResponseSealer) res" where
  "OpenRequest H ks kid path timestamp nonce body =
    (case map_of (ks_keys ks) kid of
       None \<Rightarrow> Inl ErrUnknownHPKEKey
     | Some key \<Rightarrow>
        if length body < 1 + hpkeEncSize \<or> hd body \<noteq> SealedVersion then Inl ErrSealedMalformed
        else
          (let enc = take hpkeEncSize (drop 1 body); ct = drop (1 + hpkeEncSize) body in
           case NewRecipient H enc key hpkeKDF hpkeAEAD (hpkeInfo path) of
             Inl e \<Rightarrow> Inl ErrSealedMalformed
           | Inr recipient \<Rightarrow>
              (case ctx_Open H recipient (sealAAD timestamp nonce) ct of
                 Inl e \<Rightarrow> Inl ErrSealedMalformed
               | Inr pt \<Rightarrow>
                  (case ctx_Export H recipient responseExportContext responseKeyLen of
                     Inl e \<Rightarrow> Inl (ErrWrap ''auth: hpke export'' e)
                   | Inr rk \<Rightarrow> Inr (pt, \<lparr>rsl_key = rk\<rparr>)))))"

section \<open>Payload signatures\<close>

datatype key_kind = ECDSA_key | RSA_key | Ed25519_key | Other_key string

datatype sig_algo = ECDSAWithSHA256 | SHA256WithRSA | PureEd25519

text \<open>\<open>sign\<close> is \<^verbatim>\<open>crypto.Signer.Sign\<close>; its flag says whether the argument is a SHA-256 digest.\<close>

definition SignPayload ::
    "(bytes \<Rightarrow> bytes) \<Rightarrow> key_kind \<Rightarrow> (bytes \<Rightarrow> bool \<Rightarrow> 'w \<Rightarrow> bytes res \<times> 'w) \<Rightarrow> bytes \<Rightarrow> 'w \<Rightarrow> bytes res \<times> 'w" where
  "SignPayload sha kind sign payload w =
    (case kind of
       ECDSA_key \<Rightarrow> sign (sha payload) True w
     | RSA_key \<Rightarrow> sign (sha payload) True w
     | Ed25519_key \<Rightarrow> sign payload False w
     | Other_key t \<Rightarrow> (Inl (ErrNew (''auth: unsupported signer key '' @ t)), w))"

definition VerifyPayload ::
    "key_kind \<Rightarrow> (sig_algo \<Rightarrow> bytes \<Rightarrow> bytes \<Rightarrow> unit res) \<Rightarrow> bytes \<Rightarrow> bytes \<Rightarrow> unit res" where
  "VerifyPayload kind checkSignature payload sig =
    (case kind of
       ECDSA_key \<Rightarrow> checkSignature ECDSAWithSHA256 payload sig
     | RSA_key \<Rightarrow> checkSignature SHA256WithRSA payload sig
     | Ed25519_key \<Rightarrow> checkSignature PureEd25519 payload sig
     | Other_key t \<Rightarrow> Inl (ErrNew (''auth: unsupported signer key '' @ t)))"

section \<open>Facts\<close>

text \<open>What \<^verbatim>\<open>crypto/rand.Read\<close> documents: it fills the whole buffer or fails.\<close>

definition reads_full :: "(nat \<Rightarrow> 'w \<Rightarrow> bytes res \<times> 'w) \<Rightarrow> bool" where
  "reads_full rand_Read = (\<forall>n w b w'. rand_Read n w = (Inr b, w') \<longrightarrow> length b = n)"

lemma sealAAD_inject:
  assumes "CHR 0x0A \<notin> set t1" "CHR 0x0A \<notin> set t2" "sealAAD t1 n1 = sealAAD t2 n2"
  shows "t1 = t2" "n1 = n2"
proof -
  have "Cut (sealAAD t1 n1) (CHR 0x0A) = Some (t1, n1)" "Cut (sealAAD t2 n2) (CHR 0x0A) = Some (t2, n2)"
    using assms(1,2) by (simp_all add: sealAAD_def)
  then show "t1 = t2" "n1 = n2" using assms(3) by (metis option.inject prod.inject)+
qed

lemma OpenRequest_SealRequest:
  assumes "hpke_correct H" "map_of (ks_keys ks) kid = Some sk"
    and "SealRequest H (PublicKey H sk) path ts nonce pt w = (Inr (body, ro), w')"
  shows "OpenRequest H ks kid path ts nonce body = Inr (pt, \<lparr>rsl_key = ro_key ro\<rparr>)"
proof -
  obtain enc c ct rk where s: "NewSender H (PublicKey H sk) hpkeKDF hpkeAEAD (hpkeInfo path) w = (Inr (enc, c), w')"
    "ctx_Seal H c (sealAAD ts nonce) pt = Inr ct"
    "ctx_Export H c responseExportContext responseKeyLen = Inr rk"
    and body: "body = [SealedVersion] @ enc @ ct" and ro: "ro = \<lparr>ro_key = rk\<rparr>"
    using assms(3) by (auto simp: SealRequest_def split: prod.splits sum.splits)
  obtain c' where "length enc = 32" "NewRecipient H enc sk hpkeKDF hpkeAEAD (hpkeInfo path) = Inr c'"
    "ctx_Open H c' (sealAAD ts nonce) ct = Inr pt"
    "ctx_Export H c' responseExportContext responseKeyLen = Inr rk"
    using assms(1) s unfolding hpke_correct_def by metis
  then show ?thesis using assms(2) by (simp add: OpenRequest_def body ro hpkeEncSize_def)
qed

lemma opener_sealer:
  assumes "hpke_correct H" "reads_full rand_Read"
    and "sealer_Seal H rand_Read \<lparr>rsl_key = ro_key ro\<rparr> resp w = (Inr body, w')"
  shows "opener_Open H ro body = Inr resp"
proof -
  obtain nonce where n: "aes_NewCipher H (ro_key ro) = None \<and> NewGCM H (ro_key ro) = None" "length nonce = gcmNonceLen"
    "body = [SealedVersion] @ nonce @ gcm_Seal H (ro_key ro) nonce resp"
    using assms(2,3)
    by (auto simp: sealer_Seal_def newGCM_def reads_full_def split: option.splits prod.splits sum.splits)
      blast
  moreover have "gcm_Open H (ro_key ro) nonce (gcm_Seal H (ro_key ro) nonce resp) = Inr resp"
    using assms(1) n(1) by (simp add: hpke_correct_def)
  ultimately show ?thesis by (simp add: opener_Open_def newGCM_def)
qed

section \<open>Properties\<close>

text \<open>C14: the sealed exchange works end to end. What \<open>SealRequest\<close> seals to a key of the set is opened
  by \<open>OpenRequest\<close> under that key id, for the same path, timestamp and nonce, and gives back the
  plaintext; and whatever the brain seals with the sealer it got, the client's opener reads.\<close>

theorem sealed_roundtrip:
  assumes "hpke_correct H" "reads_full rand_Read"
    and "map_of (ks_keys ks) kid = Some sk"
    and "SealRequest H (PublicKey H sk) path ts nonce pt w = (Inr (body, ro), w')"
  shows "\<exists>rs. OpenRequest H ks kid path ts nonce body = Inr (pt, rs)
    \<and> (\<forall>resp w1 rbody w2. sealer_Seal H rand_Read rs resp w1 = (Inr rbody, w2) \<longrightarrow> opener_Open H ro rbody = Inr resp)"
  using OpenRequest_SealRequest[OF assms(1,3,4)] opener_sealer[OF assms(1,2), of ro] by blast

text \<open>A null cipher that meets the contract, for the witnesses.\<close>

definition null_hpke :: "(nat, nat, bytes, nat) hpke" where
  "null_hpke =
    \<lparr>NewSender = \<lambda>pk kdf aead info w. (Inr (replicate 32 (char_of pk), info), w),
     NewRecipient = \<lambda>enc sk kdf aead info. Inr info,
     ctx_Seal = \<lambda>c aad pt. Inr pt, ctx_Open = \<lambda>c aad ct. Inr ct,
     ctx_Export = \<lambda>c x n. Inr (replicate n (CHR 0x00)),
     PublicKey = id, pk_Bytes = \<lambda>pk. [char_of pk], NewPublicKey = \<lambda>kem b. Inr (length b),
     aes_NewCipher = \<lambda>k. None, NewGCM = \<lambda>k. None, gcm_Seal = \<lambda>k n pt. pt, gcm_Open = \<lambda>k n ct. Inr ct\<rparr>"

lemma null_hpke_correct: "hpke_correct null_hpke"
  by (auto simp: hpke_correct_def null_hpke_def)

theorem sealed_roundtrip_witness:
  "\<exists>body ro rs. SealRequest null_hpke (PublicKey null_hpke 7) ''/p'' ''1'' ''n'' ''hello'' 0 = (Inr (body, ro), 0)
    \<and> OpenRequest null_hpke \<lparr>ks_order = [''k''], ks_keys = [(''k'', 7)]\<rparr> ''k'' ''/p'' ''1'' ''n'' body = Inr (''hello'', rs)"
proof -
  let ?rand = "\<lambda>n (w::nat). (Inr (replicate n (CHR 0x00)) :: bytes res, w)"
  obtain body ro where s: "SealRequest null_hpke (PublicKey null_hpke 7) ''/p'' ''1'' ''n'' ''hello'' 0
      = (Inr (body, ro), 0)"
    by (simp add: SealRequest_def null_hpke_def)
  have m: "map_of (ks_keys \<lparr>ks_order = [''k''], ks_keys = [(''k'', 7)]\<rparr>) ''k'' = Some 7" by simp
  show ?thesis
    using s sealed_roundtrip[OF null_hpke_correct, of ?rand, OF _ m s] by (auto simp: reads_full_def)
qed

text \<open>An envelope is bound to its addressee and its freshness. An unknown key id, a body too short
  for the header, or a wrong version byte is rejected before any decryption, and the additional data
  determines timestamp and nonce, so a body re-paired with other freshness headers is opened with
  different additional data.\<close>

theorem OpenRequest_rejects:
  "(map_of (ks_keys ks) kid = None \<longrightarrow> OpenRequest H ks kid path ts nonce body = Inl ErrUnknownHPKEKey)
   \<and> (map_of (ks_keys ks) kid \<noteq> None \<and> (length body < 33 \<or> hd body \<noteq> CHR 0x01) \<longrightarrow>
        OpenRequest H ks kid path ts nonce body = Inl ErrSealedMalformed)
   \<and> (sealAAD (itoa t1) n1 = sealAAD (itoa t2) n2 \<longrightarrow> itoa t1 = itoa t2 \<and> n1 = n2)"
proof -
  have "CHR 0x0A \<notin> set (itoa t)" for t
    using itoa_chars[of "CHR 0x0A" t] by (auto simp: is_digit_def byte_of_def)
  then have "sealAAD (itoa t1) n1 = sealAAD (itoa t2) n2 \<longrightarrow> itoa t1 = itoa t2 \<and> n1 = n2"
    using sealAAD_inject by metis
  then show ?thesis by (auto simp: OpenRequest_def hpkeEncSize_def SealedVersion_def)
qed

theorem OpenRequest_rejects_witness:
  "OpenRequest null_hpke \<lparr>ks_order = [''k''], ks_keys = [(''k'', 7)]\<rparr> ''other'' ''/p'' ''1'' ''n'' ''x'' = Inl ErrUnknownHPKEKey
   \<and> OpenRequest null_hpke \<lparr>ks_order = [''k''], ks_keys = [(''k'', 7)]\<rparr> ''k'' ''/p'' ''1'' ''n'' ''x'' = Inl ErrSealedMalformed"
  using OpenRequest_rejects[of "\<lparr>ks_order = [''k''], ks_keys = [(''k'', 7::nat)]\<rparr>" "''other''" null_hpke "''/p''" "''1''" "''n''" "''x''" 0 "''''" 0 "''''"]
    OpenRequest_rejects[of "\<lparr>ks_order = [''k''], ks_keys = [(''k'', 7::nat)]\<rparr>" "''k''" null_hpke "''/p''" "''1''" "''n''" "''x''" 0 "''''" 0 "''''"]
  by simp

end
