(* ===== verification/SignedClient.thy ===== *)
theory SignedClient
  imports Sealed Proto
begin

text \<open>
  \<^verbatim>\<open>internal/auth/signedclient.go\<close>: the client of the signed transport. The state of a
  \<^verbatim>\<open>SignedClient\<close> is its cache of advertised keys; \<open>activeKey\<close> holds the mutex over its whole body,
  so it is one step. Everything outside the process and the libraries is the record \<open>transport\<close>.
  A result is an \<open>outcome\<close> because \<open>FreshNonce\<close> panics when no randomness is available.
\<close>

section \<open>Environment\<close>

datatype 'esk private_key = EcdsaKey 'esk | OtherPrivateKey

record 'esk tls_cert =
  tc_Certificate :: "bytes list"
  tc_PrivateKey :: "'esk private_key"

record keysDocument =
  kd_Payload :: string
  kd_Signature :: string
  kd_Signer :: string

record keyEntry =
  ke_KID :: string
  ke_KEM :: string
  ke_KDF :: string
  ke_AEAD :: string
  ke_PublicKey :: string

record keysPayload =
  kp_IssuedAt :: int
  kp_Keys :: "keyEntry list"

record parsed_url =
  u_Scheme :: string
  u_Host :: string
  u_Path :: string
  u_RawQuery :: string

record ('esk, 'epk, 'pk, 'hsk, 'c, 'crt, 'pool, 'w) transport =
  tr_isPrint :: "nat \<Rightarrow> bool"
  tr_sigs :: "('esk, 'epk, 'w) sigs"
  tr_hpke :: "('pk, 'hsk, 'c, 'w) hpke"
  tr_http :: "'w http_env"
  tr_rand :: "nat \<Rightarrow> 'w \<Rightarrow> bytes option \<times> 'w"
  ParseCertificate :: "bytes \<Rightarrow> 'crt res"
  cert_Verify :: "'crt \<Rightarrow> 'pool \<Rightarrow> int \<Rightarrow> unit res"
  cert_kind :: "'crt \<Rightarrow> key_kind"
  CheckSignature :: "'crt \<Rightarrow> sig_algo \<Rightarrow> bytes \<Rightarrow> bytes \<Rightarrow> unit res"
  json_error :: "bytes \<Rightarrow> (string \<times> string) res"
  json_document :: "bytes \<Rightarrow> keysDocument res"
  json_payload :: "bytes \<Rightarrow> keysPayload res"

section \<open>Constants and state\<close>

definition SignedPathKeys :: string where "SignedPathKeys = ''/muthur/v1/keys''"
definition SignedPathBootstrap :: string where "SignedPathBootstrap = ''/muthur/v1/bootstrap''"
definition SignedPathIngest :: string where "SignedPathIngest = ''/muthur/v1/ingest''"
definition SignedPathSignCSR :: string where "SignedPathSignCSR = ''/muthur/v1/sign-csr''"
definition codeHPKEKeyUnknown :: string where "codeHPKEKeyUnknown = ''hpke_key_unknown''"
definition signedKeysTTL :: int where "signedKeysTTL = 24 * 3600 * 1000000000"
definition signedCallTimeout :: int where "signedCallTimeout = 30 * 1000000000"
definition maxSignedResponse :: nat where "maxSignedResponse = 4 * 2 ^ 20"

record ('pk, 'pool) SignedClient =
  sc_base :: string
  sc_Timeout :: int
  sc_vendor :: 'pool
  sc_keys :: "'pk HPKEPublicKey list"
  sc_fetched :: int

section \<open>Errors\<close>

text \<open>\<^verbatim>\<open>errors.As(err, &he)\<close> for \<^verbatim>\<open>*HTTPError\<close>: the first one on the chain of wrapped errors.\<close>

fun as_HTTPError :: "go_error \<Rightarrow> (int \<times> string \<times> string) option" where
  "as_HTTPError (ErrHTTP s c m) = Some (s, c, m)"
| "as_HTTPError (ErrWrap m e) = as_HTTPError e"
| "as_HTTPError _ = None"

definition HTTPError_Error :: "int \<Rightarrow> string \<Rightarrow> string \<Rightarrow> string" where
  "HTTPError_Error status code message = ''brain replied '' @ itoa status @ '' '' @ code @ '': '' @ message"

definition Permanent :: "int \<Rightarrow> bool" where
  "Permanent s = (s \<in> {400, 401, 403, 404, 412, 413, 415})"

definition decodeHTTPError :: "(bytes \<Rightarrow> (string \<times> string) res) \<Rightarrow> int \<Rightarrow> bytes \<Rightarrow> go_error" where
  "decodeHTTPError decode stat data =
    (case decode data of
       Inr (code, msg) \<Rightarrow>
         if code = '''' then ErrHTTP stat (''http_'' @ itoa stat) (TrimSpace data)
         else ErrHTTP stat code msg
     | Inl e \<Rightarrow> ErrHTTP stat (''http_'' @ itoa stat) (TrimSpace data))"

text \<open>\<^verbatim>\<open>io.ReadAll(io.LimitReader(body, maxSignedResponse))\<close>: at the limit reading ends without error.\<close>

definition read_limited :: "http_response \<Rightarrow> bytes res" where
  "read_limited r =
    (if length (rs_Body r) \<ge> maxSignedResponse then Inr (take maxSignedResponse (rs_Body r))
     else case rs_BodyErr r of Some e \<Rightarrow> Inl e | None \<Rightarrow> Inr (rs_Body r))"

section \<open>Construction\<close>

definition Trim_slash :: "string \<Rightarrow> string" where
  "Trim_slash s = rev (dropWhile ((=) (CHR ''/'')) (rev (dropWhile ((=) (CHR ''/'')) s)))"

text \<open>\<open>pool_of\<close> is \<^verbatim>\<open>x509.NewCertPool\<close> with \<^verbatim>\<open>AppendCertsFromPEM\<close>: \<open>None\<close> when no certificate is usable.\<close>

definition NewSignedClient ::
    "(nat \<Rightarrow> bool) \<Rightarrow> (string \<Rightarrow> parsed_url res) \<Rightarrow> (string \<Rightarrow> bytes res) \<Rightarrow> (bytes \<Rightarrow> 'pool option)
     \<Rightarrow> string \<Rightarrow> string \<Rightarrow> string \<Rightarrow> ('pk, 'pool) SignedClient res" where
  "NewSignedClient isPrint url_Parse readFile pool_of baseURL vendorCAFile edgeCAFile =
    (case url_Parse (TrimSpace baseURL) of
       Inl e \<Rightarrow> Inl (ErrWrap ''auth: parse brain URL'' e)
     | Inr u \<Rightarrow>
        if u_Scheme u \<noteq> ''https'' \<and> u_Scheme u \<noteq> ''http''
        then Inl (ErrNew (''auth: brain URL must be http(s)://host, got '' @ Quote isPrint baseURL))
        else if Trim_slash (u_Path u) \<noteq> '''' \<or> u_RawQuery u \<noteq> ''''
        then Inl (ErrNew (''auth: brain URL must not carry a path prefix, got '' @ Quote isPrint baseURL))
        else case readFile vendorCAFile of
          Inl e \<Rightarrow> Inl (ErrWrap ''read CA bundle'' e)
        | Inr vendorPEM \<Rightarrow>
           (case pool_of vendorPEM of
              None \<Rightarrow> Inl (ErrNew ''auth: CA bundle has no usable PEM certificates'')
            | Some vendor \<Rightarrow>
               (let client = \<lparr>sc_base = u_Scheme u @ ''://'' @ u_Host u, sc_Timeout = signedCallTimeout, sc_vendor = vendor, sc_keys = [],
                              sc_fetched = 0\<rparr> in
                if edgeCAFile \<noteq> '''' then
                  (case readFile edgeCAFile of
                     Inl e \<Rightarrow> Inl (ErrWrap ''read edge CA bundle'' e)
                   | Inr edgePEM \<Rightarrow>
                      (case pool_of edgePEM of
                         None \<Rightarrow> Inl (ErrNew ''auth: edge CA bundle has no usable PEM certificates'')
                       | Some _ \<Rightarrow> Inr client))
                else Inr client)))"

section \<open>Keys\<close>

text \<open>The loop over the advertised keys: entries of another suite, undecodable ones and ones whose id
  does not match are skipped.\<close>

fun usable_keys ::
    "(bytes \<Rightarrow> bytes) \<Rightarrow> ('pk, 'hsk, 'c, 'w) hpke \<Rightarrow> keyEntry list \<Rightarrow> 'pk HPKEPublicKey list" where
  "usable_keys sha H [] = []"
| "usable_keys sha H (k # ks) =
    (if ke_KEM k \<noteq> HPKEKEMName \<or> ke_KDF k \<noteq> HPKEKDFName \<or> ke_AEAD k \<noteq> HPKEAEADName
     then usable_keys sha H ks
     else case b64_DecodeString (ke_PublicKey k) of
            None \<Rightarrow> usable_keys sha H ks
          | Some raw \<Rightarrow>
             (case ParseHPKEPublicKey H raw of
                Inl e \<Rightarrow> usable_keys sha H ks
              | Inr pub \<Rightarrow>
                  if HPKEKeyID sha H pub \<noteq> ke_KID k then usable_keys sha H ks
                  else \<lparr>hk_KID = ke_KID k, hk_Key = pub\<rparr> # usable_keys sha H ks))"

text \<open>The checks on a downloaded document, at time \<open>t\<close>.\<close>

definition verify_document ::
    "('esk, 'epk, 'pk, 'hsk, 'c, 'crt, 'pool, 'w) transport \<Rightarrow> 'pool \<Rightarrow> int \<Rightarrow> bytes
     \<Rightarrow> 'pk HPKEPublicKey list res" where
  "verify_document T vendor t data =
    (case json_document T data of
       Inl e \<Rightarrow> Inl (ErrWrap ''auth: decode brain keys'' e)
     | Inr doc \<Rightarrow>
     case b64_DecodeString (kd_Payload doc) of
       None \<Rightarrow> Inl (ErrNew ''auth: brain keys: malformed payload'')
     | Some payload \<Rightarrow>
     case b64_DecodeString (kd_Signature doc) of
       None \<Rightarrow> Inl (ErrNew ''auth: brain keys: malformed signature'')
     | Some sig \<Rightarrow>
     case b64_DecodeString (kd_Signer doc) of
       None \<Rightarrow> Inl (ErrNew ''auth: brain keys: malformed signer'')
     | Some signerDER \<Rightarrow>
     case ParseCertificate T signerDER of
       Inl e \<Rightarrow> Inl (ErrWrap ''auth: brain keys: parse signer'' e)
     | Inr signer \<Rightarrow>
     case cert_Verify T signer vendor t of
       Inl e \<Rightarrow> Inl (ErrWrap ''auth: brain keys: signer not trusted by vendor CA'' e)
     | Inr _ \<Rightarrow>
     case VerifyPayload (cert_kind T signer) (CheckSignature T signer) payload sig of
       Inl e \<Rightarrow> Inl (ErrWrap ''auth: brain keys: bad signature'' e)
     | Inr _ \<Rightarrow>
     case json_payload T payload of
       Inl e \<Rightarrow> Inl (ErrWrap ''auth: brain keys: decode payload'' e)
     | Inr kp \<Rightarrow>
        (let keys = usable_keys (sha256 (tr_sigs T)) (tr_hpke T) (kp_Keys kp) in
         if keys = [] then Inl (ErrNew ''auth: brain advertises no usable HPKE key'') else Inr keys))"

definition fetchKeysLocked ::
    "('esk, 'epk, 'pk, 'hsk, 'c, 'crt, 'pool, 'w) transport \<Rightarrow> ('pk, 'pool) SignedClient \<Rightarrow> 'w
     \<Rightarrow> unit res \<times> ('pk, 'pool) SignedClient \<times> 'w" where
  "fetchKeysLocked T c w =
    (case NewRequest (tr_http T) ''GET'' (sc_base c @ SignedPathKeys) '''' of
       Inl e \<Rightarrow> (Inl e, c, w)
     | Inr req \<Rightarrow>
     case Do (tr_http T) req w of
       (Inl e, w') \<Rightarrow> (Inl (ErrWrap ''auth: fetch brain keys'' e), c, w')
     | (Inr resp, w') \<Rightarrow>
     case read_limited resp of
       Inl e \<Rightarrow> (Inl (ErrWrap ''auth: read brain keys'' e), c, w')
     | Inr data \<Rightarrow>
        if rs_StatusCode resp \<noteq> 200
        then (Inl (decodeHTTPError (json_error T) (rs_StatusCode resp) data), c, w')
        else case verify_document T (sc_vendor c) (now (tr_http T) w') data of
          Inl e \<Rightarrow> (Inl e, c, w')
        | Inr keys \<Rightarrow> (Inr (), c\<lparr>sc_keys := keys, sc_fetched := now (tr_http T) w'\<rparr>, w'))"

text \<open>\<^verbatim>\<open>c.keys[0]\<close> of an empty slice would panic; \<open>activeKey_result\<close> shows that it is not reached.\<close>

definition activeKey ::
    "('esk, 'epk, 'pk, 'hsk, 'c, 'crt, 'pool, 'w) transport \<Rightarrow> ('pk, 'pool) SignedClient \<Rightarrow> bool \<Rightarrow> 'w
     \<Rightarrow> 'pk HPKEPublicKey res outcome \<times> ('pk, 'pool) SignedClient \<times> 'w" where
  "activeKey T c refresh w =
    (let (r, c', w') =
       (if refresh \<or> sc_keys c = [] \<or> now (tr_http T) w - sc_fetched c > signedKeysTTL
        then fetchKeysLocked T c w else (Inr (), c, w)) in
     case r of
       Inl e \<Rightarrow> (Done (Inl e), c', w')
     | Inr _ \<Rightarrow> (case sc_keys c' of [] \<Rightarrow> Panic | k # ks \<Rightarrow> Done (Inr k), c', w'))"

section \<open>Calls\<close>

text \<open>The part of \<^verbatim>\<open>once\<close> that builds the request: sealing, headers, and the signature when there is a
  certificate to sign with.\<close>

definition base_headers ::
    "('esk, 'epk, 'w) sigs \<Rightarrow> bytes \<Rightarrow> string \<Rightarrow> string \<Rightarrow> string \<Rightarrow> strmap" where
  "base_headers S body timestamp nonce kid =
    fold (\<lambda>(k, v) h. header_Set h k v)
      [(''Content-Type'', SealedContentType), (''Accept'', SealedContentType),
       (HeaderContentDigest, ContentDigest S body), (HeaderTimestamp, timestamp),
       (HeaderNonce, nonce), (HeaderHPKEKid, kid)] []"

definition sign_with ::
    "(nat \<Rightarrow> bool) \<Rightarrow> ('esk, 'epk, 'w) sigs \<Rightarrow> strmap \<Rightarrow> string \<Rightarrow> int \<Rightarrow> 'esk tls_cert option \<Rightarrow> 'w \<Rightarrow> strmap res \<times> 'w" where
  "sign_with isPrint S h path created cred w =
    (case cred of
       None \<Rightarrow> (Inr h, w)
     | Some crt \<Rightarrow>
        (case tc_Certificate crt of
           [] \<Rightarrow> (Inl (ErrNew ''auth: client cert has no certificate''), w)
         | leaf # _ \<Rightarrow>
            (case tc_PrivateKey crt of
               OtherPrivateKey \<Rightarrow> (Inl ErrSignatureKeyType, w)
             | EcdsaKey priv \<Rightarrow>
                 SignRequest isPrint S (header_Set h HeaderCert (b64_encode leaf)) ''POST'' path (Some priv)
                   leaf created w)))"

definition once_request ::
    "('esk, 'epk, 'pk, 'hsk, 'c, 'crt, 'pool, 'w) transport \<Rightarrow> string \<Rightarrow> 'pk HPKEPublicKey \<Rightarrow> string \<Rightarrow> bytes
     \<Rightarrow> 'esk tls_cert option \<Rightarrow> int \<Rightarrow> string \<Rightarrow> 'w \<Rightarrow> (http_request \<times> ResponseOpener) res \<times> 'w" where
  "once_request T base key path raw cred created nonce w =
    (let timestamp = itoa created in
     case SealRequest (tr_hpke T) (hk_Key key) path timestamp nonce raw w of
       (Inl e, w') \<Rightarrow> (Inl e, w')
     | (Inr (body, opener), w') \<Rightarrow>
     case NewRequest (tr_http T) ''POST'' (base @ path) body of
       Inl e \<Rightarrow> (Inl e, w')
     | Inr req \<Rightarrow>
     case sign_with (tr_isPrint T) (tr_sigs T)
            (base_headers (tr_sigs T) body timestamp nonce (hk_KID key)) path created cred w' of
       (Inl e, w'') \<Rightarrow> (Inl e, w'')
     | (Inr h, w'') \<Rightarrow> (Inr (req\<lparr>rq_Header := h\<rparr>, opener), w''))"

text \<open>The part of \<^verbatim>\<open>once\<close> that sends the request and reads the answer.\<close>

definition once_response ::
    "('esk, 'epk, 'pk, 'hsk, 'c, 'crt, 'pool, 'w) transport \<Rightarrow> string \<Rightarrow> (bytes \<Rightarrow> 'a res) \<Rightarrow> http_request
     \<Rightarrow> ResponseOpener \<Rightarrow> 'w \<Rightarrow> 'a res \<times> 'w" where
  "once_response T path unmarshal req opener w =
    (case Do (tr_http T) req w of
       (Inl e, w') \<Rightarrow> (Inl (ErrWrap (''auth: '' @ path) e), w')
     | (Inr resp, w') \<Rightarrow>
     case read_limited resp of
       Inl e \<Rightarrow> (Inl (ErrWrap ''auth: read response'' e), w')
     | Inr data \<Rightarrow>
        if rs_StatusCode resp \<noteq> 200
        then (Inl (decodeHTTPError (json_error T) (rs_StatusCode resp) data), w')
        else case opener_Open (tr_hpke T) opener data of
          Inl e \<Rightarrow> (Inl (ErrWrap ''auth: open response'' e), w')
        | Inr pt \<Rightarrow>
           (case unmarshal pt of
              Inl e \<Rightarrow> (Inl (ErrWrap ''auth: decode response'' e), w')
            | Inr a \<Rightarrow> (Inr a, w')))"

definition once ::
    "('esk, 'epk, 'pk, 'hsk, 'c, 'crt, 'pool, 'w) transport \<Rightarrow> ('pk, 'pool) SignedClient \<Rightarrow> string \<Rightarrow> bytes
     \<Rightarrow> (bytes \<Rightarrow> 'a res) \<Rightarrow> 'esk tls_cert option \<Rightarrow> bool \<Rightarrow> 'w
     \<Rightarrow> 'a res outcome \<times> ('pk, 'pool) SignedClient \<times> 'w" where
  "once T c path raw unmarshal cred refreshKeys w =
    (case activeKey T c refreshKeys w of
       (Panic, c1, w1) \<Rightarrow> (Panic, c1, w1)
     | (Done (Inl e), c1, w1) \<Rightarrow> (Done (Inl e), c1, w1)
     | (Done (Inr key), c1, w1) \<Rightarrow>
        (let created = now (tr_http T) w1 div 1000000000 in
         case FreshNonce (tr_rand T) w1 of
           (Panic, w2) \<Rightarrow> (Panic, c1, w2)
         | (Done nonce, w2) \<Rightarrow>
            (case once_request T (sc_base c1) key path raw cred created nonce w2 of
               (Inl e, w3) \<Rightarrow> (Done (Inl e), c1, w3)
             | (Inr (req, opener), w3) \<Rightarrow>
                (case once_response T path unmarshal req opener w3 of (r, w4) \<Rightarrow> (Done r, c1, w4)))))"

definition is_key_unknown :: "'a res outcome \<Rightarrow> bool" where
  "is_key_unknown r =
    (case r of
       Done (Inl e) \<Rightarrow> (case as_HTTPError e of Some (s, code, m) \<Rightarrow> code = codeHPKEKeyUnknown | None \<Rightarrow> False)
     | _ \<Rightarrow> False)"

definition call ::
    "('esk, 'epk, 'pk, 'hsk, 'c, 'crt, 'pool, 'w) transport \<Rightarrow> ('pk, 'pool) SignedClient \<Rightarrow> string \<Rightarrow> bytes res
     \<Rightarrow> (bytes \<Rightarrow> 'a res) \<Rightarrow> 'esk tls_cert option \<Rightarrow> 'w
     \<Rightarrow> 'a res outcome \<times> ('pk, 'pool) SignedClient \<times> 'w" where
  "call T c path marshalled unmarshal cred w =
    (case marshalled of
       Inl e \<Rightarrow> (Done (Inl (ErrWrap ''auth: encode request'' e)), c, w)
     | Inr raw \<Rightarrow>
        (case once T c path raw unmarshal cred False w of
           (r, c1, w1) \<Rightarrow>
             if is_key_unknown r then once T c1 path raw unmarshal cred True w1 else (r, c1, w1)))"

section \<open>API\<close>

text \<open>The protobuf codec of the generated code, as far as the client uses it.\<close>

record codec =
  marshal_AlertPayload :: "AlertPayload \<Rightarrow> bytes res"
  marshal_BootstrapRequest :: "BootstrapRequest \<Rightarrow> bytes res"
  marshal_SignCSRRequest :: "SignCSRRequest \<Rightarrow> bytes res"
  unmarshal_IngestResponse :: "bytes \<Rightarrow> unit res"
  unmarshal_BootstrapResponse :: "bytes \<Rightarrow> BootstrapResponse res"
  unmarshal_SignCSRResponse :: "bytes \<Rightarrow> SignCSRResponse res"

definition map_outcome :: "('a \<Rightarrow> 'b) \<Rightarrow> 'a outcome \<Rightarrow> 'b outcome" where
  "map_outcome f r = (case r of Done a \<Rightarrow> Done (f a) | Panic \<Rightarrow> Panic)"

text \<open>What \<^verbatim>\<open>Bootstrap\<close> and \<^verbatim>\<open>Renew\<close> make of the answer: the certificate must not be empty.\<close>

definition cert_or_error :: "string \<Rightarrow> (string \<times> string) res \<Rightarrow> (bytes \<times> bytes) res" where
  "cert_or_error what r =
    (case r of
       Inl e \<Rightarrow> Inl (ErrWrap what e)
     | Inr (cert, ca) \<Rightarrow> if cert = '''' then Inl (ErrNew ''brain returned empty certificate'') else Inr (cert, ca))"

definition signed_Bootstrap ::
    "('esk, 'epk, 'pk, 'hsk, 'c, 'crt, 'pool, 'w) transport \<Rightarrow> codec \<Rightarrow> ('pk, 'pool) SignedClient
     \<Rightarrow> string \<Rightarrow> string \<Rightarrow> bytes \<Rightarrow> 'w \<Rightarrow> (bytes \<times> bytes) res outcome \<times> ('pk, 'pool) SignedClient \<times> 'w" where
  "signed_Bootstrap T K c clusterID token csrPEM w =
    (if clusterID = '''' \<or> token = '''' \<or> csrPEM = ''''
     then (Done (Inl (ErrNew ''auth: clusterID, token, and CSR are required'')), c, w)
     else case call T c SignedPathBootstrap
                 (marshal_BootstrapRequest K
                    \<lparr>br_ClusterId = clusterID, br_BootstrapToken = token, br_Csr = csrPEM\<rparr>)
                 (unmarshal_BootstrapResponse K) None w of
            (r, c', w') \<Rightarrow>
              (map_outcome (\<lambda>x. cert_or_error ''bootstrap call''
                  (map_sum id (\<lambda>m. (brs_Certificate m, brs_Ca m)) x)) r, c', w'))"

definition signed_Renew ::
    "('esk, 'epk, 'pk, 'hsk, 'c, 'crt, 'pool, 'w) transport \<Rightarrow> codec \<Rightarrow> ('pk, 'pool) SignedClient
     \<Rightarrow> 'esk tls_cert \<Rightarrow> bytes \<Rightarrow> 'w \<Rightarrow> (bytes \<times> bytes) res outcome \<times> ('pk, 'pool) SignedClient \<times> 'w" where
  "signed_Renew T K c clientCert csrPEM w =
    (if csrPEM = '''' then (Done (Inl (ErrNew ''auth: CSR required'')), c, w)
     else case call T c SignedPathSignCSR (marshal_SignCSRRequest K \<lparr>sr_Csr = csrPEM\<rparr>)
                 (unmarshal_SignCSRResponse K) (Some clientCert) w of
            (r, c', w') \<Rightarrow>
              (map_outcome (\<lambda>x. cert_or_error ''renew call''
                  (map_sum id (\<lambda>m. (srs_Certificate m, srs_Ca m)) x)) r, c', w'))"

definition signed_Ingest ::
    "('esk, 'epk, 'pk, 'hsk, 'c, 'crt, 'pool, 'w) transport \<Rightarrow> codec \<Rightarrow> ('pk, 'pool) SignedClient
     \<Rightarrow> AlertPayload \<Rightarrow> 'esk tls_cert option \<Rightarrow> 'w \<Rightarrow> unit res outcome \<times> ('pk, 'pool) SignedClient \<times> 'w" where
  "signed_Ingest T K c payload clientCert w =
    (case clientCert of
       None \<Rightarrow> (Done (Inl (ErrNew ''auth: client cert required for ingest'')), c, w)
     | Some crt \<Rightarrow>
        call T c SignedPathIngest (marshal_AlertPayload K payload) (unmarshal_IngestResponse K) (Some crt) w)"

section \<open>Facts about the key cache\<close>

text \<open>A key list that a trusted, signed document advertised.\<close>

definition trusted_keys ::
    "('esk, 'epk, 'pk, 'hsk, 'c, 'crt, 'pool, 'w) transport \<Rightarrow> 'pool \<Rightarrow> int \<Rightarrow> 'pk HPKEPublicKey list \<Rightarrow> bool" where
  "trusted_keys T vendor t keys =
    (keys \<noteq> [] \<and> (\<exists>signer payload sig kp.
       cert_Verify T signer vendor t = Inr ()
       \<and> VerifyPayload (cert_kind T signer) (CheckSignature T signer) payload sig = Inr ()
       \<and> json_payload T payload = Inr kp
       \<and> keys = usable_keys (sha256 (tr_sigs T)) (tr_hpke T) (kp_Keys kp)))"

lemma verify_document_trusted:
  "verify_document T vendor t data = Inr keys \<Longrightarrow> trusted_keys T vendor t keys"
  by (auto simp: verify_document_def trusted_keys_def Let_def
      split: sum.splits option.splits if_splits)

lemma usable_keys_ids:
  "k \<in> set (usable_keys sha H es) \<Longrightarrow>
   hk_KID k = HPKEKeyID sha H (hk_Key k)
   \<and> (\<exists>e\<in>set es. ke_KID e = hk_KID k \<and> ke_KEM e = HPKEKEMName \<and> ke_KDF e = HPKEKDFName \<and> ke_AEAD e = HPKEAEADName)"
  by (induction es) (auto split: if_splits option.splits sum.splits)

lemma fetchKeys_cases:
  assumes "fetchKeysLocked T c w = (r, c', w')"
  obtains e where "r = Inl e" "c' = c"
  | keys where "r = Inr ()" "c' = c\<lparr>sc_keys := keys, sc_fetched := now (tr_http T) w'\<rparr>"
      "trusted_keys T (sc_vendor c) (now (tr_http T) w') keys"
  using assms
  by (auto simp: fetchKeysLocked_def split: sum.splits prod.splits if_splits dest: verify_document_trusted)

text \<open>The invariant of a client: its cached keys, if any, were trusted when they were fetched.\<close>

definition client_ok ::
    "('esk, 'epk, 'pk, 'hsk, 'c, 'crt, 'pool, 'w) transport \<Rightarrow> ('pk, 'pool) SignedClient \<Rightarrow> bool" where
  "client_ok T c = (sc_keys c = [] \<or> trusted_keys T (sc_vendor c) (sc_fetched c) (sc_keys c))"

lemma fetchKeys_ok: "client_ok T c \<Longrightarrow> fetchKeysLocked T c w = (r, c', w') \<Longrightarrow> client_ok T c'"
  by (erule fetchKeys_cases) (auto simp: client_ok_def)

lemma fetchKeys_frame:
  assumes "fetchKeysLocked T c w = (r, c', w')"
  shows "sc_base c' = sc_base c" "sc_vendor c' = sc_vendor c" "res_ok r \<Longrightarrow> sc_keys c' \<noteq> []"
  by (rule fetchKeys_cases[OF assms]; simp add: trusted_keys_def)+

lemma activeKey_result:
  assumes "activeKey T c refresh w = (r, c', w')"
  shows "r \<noteq> Panic" "client_ok T c \<Longrightarrow> client_ok T c'"
    and "sc_base c' = sc_base c" "sc_vendor c' = sc_vendor c"
    and "r = Done (Inr k) \<Longrightarrow> sc_keys c' \<noteq> [] \<and> k = hd (sc_keys c')"
proof -
  obtain r0 c0 w0 where f: "fetchKeysLocked T c w = (r0, c0, w0)" by (metis prod_cases3)
  note facts = fetchKeys_ok[OF _ f] fetchKeys_frame[OF f]
  show "r \<noteq> Panic" "client_ok T c \<Longrightarrow> client_ok T c'" "sc_base c' = sc_base c" "sc_vendor c' = sc_vendor c"
    "r = Done (Inr k) \<Longrightarrow> sc_keys c' \<noteq> [] \<and> k = hd (sc_keys c')"
    using assms facts by (auto simp: activeKey_def f split: if_splits sum.splits list.splits)
qed

lemma once_client:
  assumes "once T c path raw um cred refresh w = (r, c', w')"
  shows "client_ok T c \<Longrightarrow> client_ok T c'" "sc_base c' = sc_base c" "sc_vendor c' = sc_vendor c"
proof -
  obtain r0 c0 w0 where a: "activeKey T c refresh w = (r0, c0, w0)" by (metis prod_cases3)
  have "c' = c0"
    using assms by (auto simp: once_def a Let_def split: outcome.splits sum.splits prod.splits)
  then show "client_ok T c \<Longrightarrow> client_ok T c'" "sc_base c' = sc_base c" "sc_vendor c' = sc_vendor c"
    using activeKey_result[OF a] by auto
qed

text \<open>A call is a first attempt, and one more with fresh keys when the brain no longer knew the key.\<close>

lemma call_cases:
  assumes "call T c path m um cred w = (r, c', w')"
  obtains (unencoded) "c' = c" "w' = w"
  | (first) raw where "m = Inr raw" "once T c path raw um cred False w = (r, c', w')" "\<not> is_key_unknown r"
  | (second) raw r1 c1 w1 where "m = Inr raw" "once T c path raw um cred False w = (r1, c1, w1)"
      "is_key_unknown r1" "once T c1 path raw um cred True w1 = (r, c', w')"
  using assms by (auto simp: call_def split: sum.splits prod.splits if_splits)

lemma call_client:
  assumes "call T c path m um cred w = (r, c', w')"
  shows "(client_ok T c \<longrightarrow> client_ok T c') \<and> sc_base c' = sc_base c \<and> sc_vendor c' = sc_vendor c"
  using assms
proof (cases rule: call_cases)
  case (first raw)
  show ?thesis using once_client[OF first(2)] by simp
next
  case (second raw r1 c1 w1)
  show ?thesis using once_client[OF second(2)] once_client[OF second(4)] by simp
qed simp

section \<open>Facts about requests\<close>

text \<open>A meter \<open>f\<close> on the outside world that an HTTP request moves by at most one and nothing else moves.\<close>

definition meters ::
    "('w \<Rightarrow> nat) \<Rightarrow> ('esk, 'epk, 'pk, 'hsk, 'c, 'crt, 'pool, 'w) transport \<Rightarrow> bool" where
  "meters f T =
    ((\<forall>rq w. f (snd (Do (tr_http T) rq w)) \<le> Suc (f w))
     \<and> (\<forall>n w. f (snd (tr_rand T n w)) = f w)
     \<and> (\<forall>sk d w. f (snd (ecdsa_Sign (tr_sigs T) sk d w)) = f w)
     \<and> (\<forall>pk kdf aead info w. f (snd (NewSender (tr_hpke T) pk kdf aead info w)) = f w))"

lemma metersD:
  assumes "meters f T"
  shows "Do (tr_http T) rq w = (r, w') \<Longrightarrow> f w' \<le> Suc (f w)"
    and "tr_rand T n w = (b, w') \<Longrightarrow> f w' = f w"
    and "ecdsa_Sign (tr_sigs T) sk d w = (s, w') \<Longrightarrow> f w' = f w"
    and "NewSender (tr_hpke T) pk kdf aead info w = (x, w') \<Longrightarrow> f w' = f w"
  using assms unfolding meters_def by (metis snd_conv)+

lemma activeKey_requests:
  assumes "meters f T" "activeKey T c refresh w = (r, c', w')"
  shows "f w' \<le> Suc (f w)"
proof -
  have "f w'' \<le> Suc (f w)" if "fetchKeysLocked T c w = (r'', c'', w'')" for r'' c'' w''
    using that metersD(1)[OF assms(1)]
    by (auto simp: fetchKeysLocked_def split: sum.splits prod.splits if_splits)
  then show ?thesis using assms(2)
    by (auto simp: activeKey_def split: if_splits sum.splits list.splits prod.splits)
qed

lemma once_request_requests:
  assumes "meters f T" "once_request T base key path raw cred created nonce w = (r, w')"
  shows "f w' = f w"
proof -
  obtain r0 w0 where s: "SealRequest (tr_hpke T) (hk_Key key) path (itoa created) nonce raw w = (r0, w0)" by fastforce
  have w0: "f w0 = f w"
    using s metersD(4)[OF assms(1)] by (auto simp: SealRequest_def split: sum.splits prod.splits)
  have "f w'' = f w0" if "sign_with ip (tr_sigs T) h p cr cred w0 = (r'', w'')" for ip h p cr r'' w''
    using that metersD(3)[OF assms(1)]
    by (auto simp: sign_with_def SignRequest_def Let_def
        split: option.splits list.splits private_key.splits if_splits sum.splits prod.splits)
  then show ?thesis using assms(2) s w0
    by (auto simp: once_request_def Let_def split: sum.splits prod.splits)
qed

lemma once_requests:
  assumes "meters f T" "once T c path raw um cred refresh w = (r, c', w')"
  shows "f w' \<le> f w + 2"
proof -
  obtain r0 c0 w0 where a: "activeKey T c refresh w = (r0, c0, w0)" by (metis prod_cases3)
  have w0: "f w0 \<le> Suc (f w)" using activeKey_requests[OF assms(1) a] .
  obtain n w1 where n: "FreshNonce (tr_rand T) w0 = (n, w1)" by fastforce
  have w1: "f w1 = f w0"
    using n metersD(2)[OF assms(1)] by (auto simp: FreshNonce_def split: option.splits prod.splits)
  have q: "f w2 = f w1" if "once_request T b k path raw cred cr nn w1 = (x, w2)" for b k cr nn x w2
    using once_request_requests[OF assms(1) that] .
  have p: "f w3 \<le> Suc (f w2)" if "once_response T path um rq op w2 = (y, w3)" for rq op w2 y w3
    using that metersD(1)[OF assms(1)]
    by (auto simp: once_response_def split: sum.splits prod.splits if_splits)
  show ?thesis
    using assms(2) w0 w1 q p
    by (fastforce simp: once_def a n Let_def split: outcome.splits sum.splits prod.splits)
qed

lemma call_requests:
  assumes "meters f T" "call T c path m um cred w = (r, c', w')"
  shows "f w' \<le> f w + 4"
  using assms(2)
proof (cases rule: call_cases)
  case (first raw)
  then show ?thesis using once_requests[OF assms(1) first(2)] by simp
next
  case (second raw r1 c1 w1)
  then show ?thesis using once_requests[OF assms(1) second(2)] once_requests[OF assms(1) second(4)] by simp
qed simp

lemma canonical_headers:
  "CanonicalHeaderKey HeaderTimestamp = ''X-Muthur-Timestamp''"
  "CanonicalHeaderKey HeaderNonce = ''X-Muthur-Nonce''"
  "CanonicalHeaderKey HeaderCert = ''X-Muthur-Cert''"
  "CanonicalHeaderKey HeaderHPKEKid = ''X-Muthur-Hpke-Kid''"
  "CanonicalHeaderKey HeaderContentDigest = ''Content-Digest''"
  "CanonicalHeaderKey HeaderSignatureInput = ''Signature-Input''"
  "CanonicalHeaderKey HeaderSignature = ''Signature''"
  "CanonicalHeaderKey ''Content-Type'' = ''Content-Type''"
  "CanonicalHeaderKey ''Accept'' = ''Accept''"
  by code_simp+

lemma base_headers_Get:
  fixes S :: "('esk, 'epk, 'w) sigs"
  shows "header_Get (base_headers S body ts nonce kid) HeaderContentDigest = ContentDigest S body"
    "header_Get (base_headers S body ts nonce kid) HeaderTimestamp = ts"
    "header_Get (base_headers S body ts nonce kid) HeaderNonce = nonce"
    "header_Get (base_headers S body ts nonce kid) HeaderHPKEKid = kid"
  by (simp_all add: base_headers_def header_Get_Set canonical_headers)

lemma SignRequest_headers:
  assumes "SignRequest ip S h meth path key leaf created w = (Inr h', w')"
  shows "\<exists>a b. h' = header_Set (header_Set h HeaderSignatureInput a) HeaderSignature b"
  using assms by (auto simp: SignRequest_def Let_def split: option.splits if_splits sum.splits prod.splits)

lemma Get_after_signing:
  assumes "SignRequest ip S (header_Set h HeaderCert v) meth path key leaf created w = (Inr h', w')"
  shows "header_Get h' HeaderCert = v"
    "k \<in> {HeaderContentDigest, HeaderTimestamp, HeaderNonce, HeaderHPKEKid} \<Longrightarrow> header_Get h' k = header_Get h k"
  using SignRequest_headers[OF assms] by (auto simp: header_Get_Set canonical_headers)


lemma signed_headers:
  assumes "sign_with ip S (base_headers S body ts nonce kid) path created
      (Some \<lparr>tc_Certificate = leaf # chain, tc_PrivateKey = EcdsaKey priv\<rparr>) w = (Inr h, w')"
  shows "header_Get h HeaderContentDigest = ContentDigest S body" "header_Get h HeaderTimestamp = ts"
    "header_Get h HeaderNonce = nonce" "header_Get h HeaderHPKEKid = kid" "header_Get h HeaderCert = b64_encode leaf"
  using assms Get_after_signing[of ip S "base_headers S body ts nonce kid" "b64_encode leaf" "''POST''" path "Some priv" leaf created w h w']
  by (auto simp: sign_with_def base_headers_Get)

lemma ContentDigest_accepted:
  assumes "header_Get h HeaderContentDigest = ContentDigest S body"
  shows "VerifyContentDigest S h body = Inr ()"
proof -
  have "TrimSpace (ContentDigest S body) = ContentDigest S body" "ContentDigest S body \<noteq> ''''"
    using TrimSpace_token[of "CHR '':''" "''ha-256=:'' @ b64_encode (sha256 S body)"] by (simp_all add: ContentDigest_def)
  then show ?thesis by (simp add: VerifyContentDigest_def assms Let_def)
qed

lemma once_request_accepted:
  fixes T :: "('esk, 'epk, 'pk, 'hsk, 'c, 'crt, 'pool, 'w) transport"
  assumes "ecdsa_correct (tr_sigs T)" "hpke_correct (tr_hpke T)"
    and "- (2 ^ 63) \<le> created" "created < 2 ^ 63"
    and "hk_Key key = PublicKey (tr_hpke T) hsk" "map_of (ks_keys ks) (hk_KID key) = Some hsk"
    and "once_request T base key path raw
        (Some \<lparr>tc_Certificate = leaf # chain, tc_PrivateKey = EcdsaKey priv\<rparr>) created nonce w = (Inr (req, opener), w')"
  shows "let h = rq_Header req in
    VerifyContentDigest (tr_sigs T) h (rq_Body req) = Inr ()
    \<and> VerifyRequest (tr_isPrint T) (tr_sigs T) (rq_Method req) path h (Some (public_of (tr_sigs T) priv))
        = Inr \<lparr>si_Created = created, si_KeyID = CertKeyID (tr_sigs T) leaf\<rparr>
    \<and> OpenRequest (tr_hpke T) ks (header_Get h HeaderHPKEKid) path (header_Get h HeaderTimestamp)
        (header_Get h HeaderNonce) (rq_Body req) = Inr (raw, \<lparr>rsl_key = ro_key opener\<rparr>)
    \<and> b64_DecodeString (header_Get h HeaderCert) = Some leaf"
proof -
  let ?cred = "Some \<lparr>tc_Certificate = leaf # chain, tc_PrivateKey = EcdsaKey priv\<rparr>"
  obtain body w1 h where s: "SealRequest (tr_hpke T) (hk_Key key) path (itoa created) nonce raw w = (Inr (body, opener), w1)"
    and g: "sign_with (tr_isPrint T) (tr_sigs T) (base_headers (tr_sigs T) body (itoa created) nonce (hk_KID key))
        path created ?cred w1 = (Inr h, w')"
    and req: "rq_Body req = body" "rq_Header req = h" "rq_Method req = ''POST''"
    using assms(7)
    by (auto simp: once_request_def NewRequest_def Let_def split: sum.splits prod.splits option.splits)
  note hd = signed_headers[OF g]
  have "VerifyRequest (tr_isPrint T) (tr_sigs T) ''POST'' path h (Some (public_of (tr_sigs T) priv))
      = Inr \<lparr>si_Created = created, si_KeyID = CertKeyID (tr_sigs T) leaf\<rparr>"
    using g by (intro Verify_signed[OF assms(1,3,4)]) (auto simp: sign_with_def)
  moreover have "OpenRequest (tr_hpke T) ks (hk_KID key) path (itoa created) nonce body
      = Inr (raw, \<lparr>rsl_key = ro_key opener\<rparr>)"
    using OpenRequest_SealRequest[OF assms(2,6)] s assms(5) by simp
  ultimately show ?thesis
    using ContentDigest_accepted[OF hd(1)] by (simp add: Let_def req hd)
qed

section \<open>Properties\<close>

text \<open>C12: the brain accepts what the collector sends. A request built with a client certificate passes,
  at a brain that holds the private half of the advertised key and the collector's public key, the
  digest check, the signature check (recovering creation time and key id) and the decryption, which
  yields the encoded message; the certificate header decodes to the collector's leaf.\<close>

theorem request_accepted:
  fixes T :: "('esk, 'epk, 'pk, 'hsk, 'c, 'crt, 'pool, 'w) transport"
  assumes "ecdsa_correct (tr_sigs T)" "hpke_correct (tr_hpke T)"
    and "- (2 ^ 63) \<le> created" "created < 2 ^ 63"
    and "hk_Key key = PublicKey (tr_hpke T) hsk" "map_of (ks_keys ks) (hk_KID key) = Some hsk"
    and "once_request T base key path raw
        (Some \<lparr>tc_Certificate = leaf # chain, tc_PrivateKey = EcdsaKey priv\<rparr>) created nonce w = (Inr (req, opener), w')"
  shows "let h = rq_Header req in
    VerifyContentDigest (tr_sigs T) h (rq_Body req) = Inr ()
    \<and> VerifyRequest (tr_isPrint T) (tr_sigs T) (rq_Method req) path h (Some (public_of (tr_sigs T) priv))
        = Inr \<lparr>si_Created = created, si_KeyID = CertKeyID (tr_sigs T) leaf\<rparr>
    \<and> OpenRequest (tr_hpke T) ks (header_Get h HeaderHPKEKid) path (header_Get h HeaderTimestamp)
        (header_Get h HeaderNonce) (rq_Body req) = Inr (raw, \<lparr>rsl_key = ro_key opener\<rparr>)
    \<and> b64_DecodeString (header_Get h HeaderCert) = Some leaf"
  by (rule once_request_accepted[OF assms])

text \<open>A transport over the null primitives and a world that counts requests, for the witnesses. The
  server answers every request with status 200 and the same body.\<close>

definition demo_transport :: "(nat, nat, nat, nat, bytes, unit, unit, nat) transport" where
  "demo_transport =
    \<lparr>tr_isPrint = \<lambda>_. True, tr_sigs = constant_sigs, tr_hpke = null_hpke,
     tr_http = \<lparr>Do = \<lambda>rq w. (Inr \<lparr>rs_StatusCode = 200, rs_Header = [], rs_Body = ''doc'', rs_BodyErr = None\<rparr>, Suc w),
                now = \<lambda>w. 0, parse_url = \<lambda>u. None\<rparr>,
     tr_rand = \<lambda>n w. (Some (replicate n (CHR 0x00)), w),
     ParseCertificate = \<lambda>b. Inr (), cert_Verify = \<lambda>c p t. Inr (), cert_kind = \<lambda>c. ECDSA_key,
     CheckSignature = \<lambda>c a p s. Inr (), json_error = \<lambda>b. Inl (ErrExt ''json''),
     json_document = \<lambda>b. Inr \<lparr>kd_Payload = '''', kd_Signature = '''', kd_Signer = ''''\<rparr>,
     json_payload = \<lambda>b. Inr \<lparr>kp_IssuedAt = 0, kp_Keys =
       [\<lparr>ke_KID = ''2a'', ke_KEM = HPKEKEMName, ke_KDF = HPKEKDFName, ke_AEAD = HPKEAEADName, ke_PublicKey = ''AAAA''\<rparr>]\<rparr>\<rparr>"

definition demo_client :: "(nat, unit) SignedClient" where
  "demo_client = \<lparr>sc_base = ''https://b'', sc_Timeout = signedCallTimeout, sc_vendor = (), sc_keys = [], sc_fetched = 0\<rparr>"

lemma demo_activeKey:
  "activeKey demo_transport demo_client False 0
   = (Done (Inr \<lparr>hk_KID = ''2a'', hk_Key = 3\<rparr>), demo_client\<lparr>sc_keys := [\<lparr>hk_KID = ''2a'', hk_Key = 3\<rparr>], sc_fetched := 0\<rparr>, 1)"
  by code_simp

theorem request_accepted_witness:
  "\<exists>req opener w'. once_request demo_transport ''https://b'' \<lparr>hk_KID = ''2a'', hk_Key = 3\<rparr> ''/p'' ''msg''
      (Some \<lparr>tc_Certificate = [''leaf''], tc_PrivateKey = EcdsaKey 5\<rparr>) 1700000000 ''ab'' 0 = (Inr (req, opener), w')
    \<and> VerifyRequest (\<lambda>_. True) constant_sigs (rq_Method req) ''/p'' (rq_Header req) (Some (5::nat))
        = Inr \<lparr>si_Created = 1700000000, si_KeyID = ''2a''\<rparr>"
proof -
  have c: "ecdsa_correct (tr_sigs demo_transport)" "hpke_correct (tr_hpke demo_transport)"
    by (simp_all add: demo_transport_def constant_sigs_correct null_hpke_correct)
  obtain req opener w' where o: "once_request demo_transport ''https://b'' \<lparr>hk_KID = ''2a'', hk_Key = 3\<rparr> ''/p'' ''msg''
      (Some \<lparr>tc_Certificate = [''leaf''], tc_PrivateKey = EcdsaKey 5\<rparr>) 1700000000 ''ab'' 0 = (Inr (req, opener), w')"
    by (simp add: once_request_def demo_transport_def SealRequest_def null_hpke_def NewRequest_def sign_with_def
        SignRequest_def constant_sigs_def Let_def)
  have k: "hk_Key \<lparr>hk_KID = ''2a'', hk_Key = 3\<rparr> = PublicKey (tr_hpke demo_transport) 3"
    "map_of (ks_keys \<lparr>ks_order = [''2a''], ks_keys = [(''2a'', 3)]\<rparr>) (hk_KID \<lparr>hk_KID = ''2a'', hk_Key = 3::nat\<rparr>) = Some 3"
    by (simp_all add: demo_transport_def null_hpke_def)
  have i: "CertKeyID constant_sigs ''leaf'' = ''2a''" by code_simp
  have p: "tr_isPrint demo_transport = (\<lambda>_. True)" "tr_sigs demo_transport = constant_sigs"
    "public_of constant_sigs 5 = 5"
    by (simp_all add: demo_transport_def constant_sigs_def)
  show ?thesis
    using o request_accepted[OF c _ _ k o] i p by (auto simp: Let_def)
qed

text \<open>C15: the key a message is sealed to is always one the vendor CA vouches for. From a client whose
  cached keys were trusted, \<open>activeKey\<close> never panics, keeps that invariant, and when it returns a key, it
  is the first of a non-empty list that a document signed by a certificate trusted by the vendor CA
  advertised for the one supported cipher suite, and its id is the hash of the key.\<close>

theorem activeKey_trusted:
  assumes "client_ok T c" "activeKey T c refresh w = (r, c', w')"
  shows "r \<noteq> Panic \<and> client_ok T c' \<and> (\<forall>k. r = Done (Inr k) \<longrightarrow>
      trusted_keys T (sc_vendor c) (sc_fetched c') (sc_keys c') \<and> k = hd (sc_keys c')
      \<and> hk_KID k = HPKEKeyID (sha256 (tr_sigs T)) (tr_hpke T) (hk_Key k))"
proof -
  note res = activeKey_result[OF assms(2)]
  have "trusted_keys T (sc_vendor c) (sc_fetched c') (sc_keys c') \<and> k = hd (sc_keys c')
      \<and> hk_KID k = HPKEKeyID (sha256 (tr_sigs T)) (tr_hpke T) (hk_Key k)" if k: "r = Done (Inr k)" for k
  proof -
    have ne: "sc_keys c' \<noteq> []" "k = hd (sc_keys c')" using res(5)[OF k] by auto
    then have t: "trusted_keys T (sc_vendor c) (sc_fetched c') (sc_keys c')"
      using res(2)[OF assms(1)] res(4) by (auto simp: client_ok_def)
    then obtain es where "sc_keys c' = usable_keys (sha256 (tr_sigs T)) (tr_hpke T) es"
      by (auto simp: trusted_keys_def)
    then show ?thesis using t ne usable_keys_ids[of k "sha256 (tr_sigs T)" "tr_hpke T" es] by simp
  qed
  then show ?thesis using res assms(1) by blast
qed

theorem activeKey_trusted_witness:
  "\<exists>c' w'. activeKey demo_transport demo_client False 0 = (Done (Inr \<lparr>hk_KID = ''2a'', hk_Key = 3\<rparr>), c', w')
    \<and> trusted_keys demo_transport () (sc_fetched c') (sc_keys c')"
proof -
  have "client_ok demo_transport demo_client" by (simp add: client_ok_def demo_client_def)
  from activeKey_trusted[OF this demo_activeKey] show ?thesis
    using demo_activeKey by (auto simp: demo_client_def)
qed

text \<open>A call makes at most four requests, two per attempt, whatever the brain answers: there is one
  retry and no loop. The client keeps its address, its trust anchor and the invariant on its keys.\<close>

theorem call_bounded:
  assumes "meters f T" "client_ok T c" "call T c path m um cred w = (r, c', w')"
  shows "f w' \<le> f w + 4 \<and> client_ok T c' \<and> sc_base c' = sc_base c \<and> sc_vendor c' = sc_vendor c"
  using call_requests[OF assms(1,3)] call_client[OF assms(3)] assms(2) by simp

theorem call_bounded_witness:
  "\<exists>r c' w'. call demo_transport demo_client ''/p'' (Inr ''m'') (\<lambda>b. Inr ()) None 0 = (r, c', w')
    \<and> w' \<le> 4 \<and> client_ok demo_transport c'"
proof -
  have m: "meters id demo_transport"
    by (simp add: meters_def demo_transport_def constant_sigs_def null_hpke_def)
  have k: "client_ok demo_transport demo_client" by (simp add: client_ok_def demo_client_def)
  obtain r c' w' where e: "call demo_transport demo_client ''/p'' (Inr ''m'') (\<lambda>b. Inr ()) None 0 = (r, c', w')"
    by (metis prod_cases3)
  show ?thesis using e call_bounded[OF m k e] by simp
qed

text \<open>every non-200 reply becomes an \<^verbatim>\<open>HTTPError\<close> with the status of the reply and a code that is
  not empty, whatever the body is; a reply without a usable error document gets the code made of its
  status, which is never the one that triggers the retry.\<close>

theorem decodeHTTPError_coded:
  "\<exists>code msg. decodeHTTPError decode stat data = ErrHTTP stat code msg \<and> code \<noteq> ''''
     \<and> (code = codeHPKEKeyUnknown \<longrightarrow> decode data = Inr (codeHPKEKeyUnknown, msg))"
  by (auto simp: decodeHTTPError_def codeHPKEKeyUnknown_def split: sum.splits)

theorem decodeHTTPError_coded_witness:
  "\<exists>code msg. decodeHTTPError (\<lambda>b. Inl (ErrExt ''json'')) 502 ''bad gateway'' = ErrHTTP 502 code msg \<and> code \<noteq> ''''
     \<and> (code = codeHPKEKeyUnknown \<longrightarrow> (\<lambda>b. Inl (ErrExt ''json'')) ''bad gateway'' = Inr (codeHPKEKeyUnknown, msg))"
  by (rule decodeHTTPError_coded[of "\<lambda>b. Inl (ErrExt ''json'')" 502 "''bad gateway''"])

end
