(* ===== verification/Reloader.thy ===== *)
theory Reloader
  imports SignedClient
begin

text \<open>
  \<^verbatim>\<open>internal/auth/reloader.go\<close>: the client certificate cached in memory and reloaded when the file's
  modification time advances. The file system belongs to the outside world and may change between any
  two calls, so \<^verbatim>\<open>os.Stat\<close> and \<^verbatim>\<open>tls.LoadX509KeyPair\<close> return the next state; a modification time
  is a number of nanoseconds.
\<close>

record ('esk, 'w) cert_files =
  os_Stat :: "string \<Rightarrow> 'w \<Rightarrow> int res \<times> 'w"
  LoadX509KeyPair :: "string \<Rightarrow> string \<Rightarrow> 'w \<Rightarrow> 'esk tls_cert res \<times> 'w"

record 'esk clientCertState =
  cs_cert :: "'esk tls_cert"
  cs_mtime :: int

record 'esk ClientReloader =
  rl_certFile :: string
  rl_keyFile :: string
  rl_cached :: "'esk clientCertState option"

definition load ::
    "('esk, 'w) cert_files \<Rightarrow> 'esk ClientReloader \<Rightarrow> 'w \<Rightarrow> 'esk tls_cert res \<times> 'esk ClientReloader \<times> 'w" where
  "load F r w =
    (case os_Stat F (rl_certFile r) w of
       (Inl e, w') \<Rightarrow> (Inl e, r, w')
     | (Inr mtime, w') \<Rightarrow>
        (case LoadX509KeyPair F (rl_certFile r) (rl_keyFile r) w' of
           (Inl e, w'') \<Rightarrow>
             (case rl_cached r of
                Some cached \<Rightarrow> (Inr (cs_cert cached), r, w'')
              | None \<Rightarrow> (Inl e, r, w''))
         | (Inr cert, w'') \<Rightarrow>
             (Inr cert, r\<lparr>rl_cached := Some \<lparr>cs_cert = cert, cs_mtime = mtime\<rparr>\<rparr>, w'')))"

definition NewClientReloader ::
    "('esk, 'w) cert_files \<Rightarrow> string \<Rightarrow> string \<Rightarrow> 'w \<Rightarrow> 'esk ClientReloader res \<times> 'w" where
  "NewClientReloader F certFile keyFile w =
    (if certFile = '''' \<or> keyFile = '''' then (Inl (ErrNew ''auth: cert and key paths are required''), w)
     else case load F \<lparr>rl_certFile = certFile, rl_keyFile = keyFile, rl_cached = None\<rparr> w of
            (Inl e, r, w') \<Rightarrow> (Inl e, w')
          | (Inr cert, r, w') \<Rightarrow> (Inr r, w'))"

definition GetClientCertificate ::
    "('esk, 'w) cert_files \<Rightarrow> 'esk ClientReloader \<Rightarrow> 'w \<Rightarrow> 'esk tls_cert res \<times> 'esk ClientReloader \<times> 'w" where
  "GetClientCertificate F r w =
    (case os_Stat F (rl_certFile r) w of
       (Inl e, w') \<Rightarrow>
         (case rl_cached r of
            Some cached \<Rightarrow> (Inr (cs_cert cached), r, w')
          | None \<Rightarrow> (Inl e, r, w'))
     | (Inr mtime, w') \<Rightarrow>
         (case rl_cached r of
            Some cached \<Rightarrow> if \<not> mtime > cs_mtime cached then (Inr (cs_cert cached), r, w') else load F r w'
          | None \<Rightarrow> load F r w'))"

text \<open>\<^verbatim>\<open>Current\<close>; \<open>None\<close> stands for the zero \<^verbatim>\<open>tls.Certificate\<close>.\<close>

definition Current :: "'esk ClientReloader \<Rightarrow> 'esk tls_cert option" where
  "Current r = map_option cs_cert (rl_cached r)"

section \<open>Properties\<close>

text \<open>C37: a reloader that holds a certificate keeps holding one, and hands one out. Whatever happens to
  the files, the certificate handed out is the cached one or one just loaded from both files, which is
  then the cached one; a failing or half-written reload leaves the cache as it was. The one way to get
  an error is a file that could be inspected and was newer, and then could not be inspected a second
  time.\<close>

theorem GetClientCertificate_available:
  assumes "rl_cached r = Some c" "GetClientCertificate F r w = (res, r', w')"
  shows "rl_cached r' \<noteq> None
    \<and> (case res of
         Inr cert \<Rightarrow> Current r' = Some cert
           \<and> (r' = r \<or> (\<exists>w1 w2. LoadX509KeyPair F (rl_certFile r) (rl_keyFile r) w1 = (Inr cert, w2)))
       | Inl e \<Rightarrow> r' = r \<and> (\<exists>mtime w1. os_Stat F (rl_certFile r) w = (Inr mtime, w1) \<and> mtime > cs_mtime c
           \<and> os_Stat F (rl_certFile r) w1 = (Inl e, w')))"
  using assms
  by (auto simp: GetClientCertificate_def load_def Current_def
      split: sum.splits prod.splits option.splits if_splits)

definition demo_files :: "(nat, nat) cert_files" where
  "demo_files =
    \<lparr>os_Stat = \<lambda>p w. (if w = 1 then Inl (ErrExt ''no such file'') else Inr 9, Suc w),
     LoadX509KeyPair = \<lambda>c k w. (Inr \<lparr>tc_Certificate = [''new''], tc_PrivateKey = EcdsaKey 2\<rparr>, w)\<rparr>"

definition demo_reloader :: "nat ClientReloader" where
  "demo_reloader = \<lparr>rl_certFile = ''tls.crt'', rl_keyFile = ''tls.key'',
     rl_cached = Some \<lparr>cs_cert = \<lparr>tc_Certificate = [''old''], tc_PrivateKey = EcdsaKey 1\<rparr>, cs_mtime = 5\<rparr>\<rparr>"

theorem GetClientCertificate_available_witness:
  "fst (GetClientCertificate demo_files demo_reloader 0) = Inl (ErrExt ''no such file'')
   \<and> rl_cached (fst (snd (GetClientCertificate demo_files demo_reloader 0))) \<noteq> None
   \<and> fst (GetClientCertificate demo_files demo_reloader 2) = Inr \<lparr>tc_Certificate = [''new''], tc_PrivateKey = EcdsaKey 2\<rparr>"
proof -
  have c: "rl_cached demo_reloader = Some \<lparr>cs_cert = \<lparr>tc_Certificate = [''old''], tc_PrivateKey = EcdsaKey 1\<rparr>, cs_mtime = 5\<rparr>"
    by (simp add: demo_reloader_def)
  show ?thesis
    using GetClientCertificate_available[OF c, of demo_files 0] c
    by (simp add: GetClientCertificate_def load_def demo_files_def)
qed

end
