(* ===== verification/Forwarder.thy ===== *)
theory Forwarder
  imports Reloader Metrics
begin

text \<open>
  \<^verbatim>\<open>internal/forwarder\<close>: shipping a payload to the brain with bounded retries. A
  \<open>Forwarder\<close> holds either a gRPC connection, whose TLS credentials keep the certificate reloader, or,
  on the signed transport, the client with its key cache and the reloader itself.
  Waiting for the backoff is the parameter \<open>backoff\<close>: \<open>Some e\<close> when the context ended first.
\<close>

section \<open>State\<close>

record 'esk ForwarderConfig =
  fc_Target :: string
  fc_CARootFile :: string
  fc_Reloader :: "'esk ClientReloader option"
  fc_Timeout :: int

record 'esk SignedConfig =
  sg_BaseURL :: string
  sg_CARootFile :: string
  sg_EdgeCAFile :: string
  sg_Reloader :: "'esk ClientReloader option"

text \<open>A \<^verbatim>\<open>grpc.ClientConn\<close>: the target it was made for and its credentials, with the trust roots and
  the callback that hands out the client certificate.\<close>

record ('esk, 'pool) ClientConn =
  cc_target :: string
  cc_RootCAs :: 'pool
  cc_GetClientCertificate :: "'esk ClientReloader"

record ('esk, 'pk, 'pool) Forwarder =
  fw_conn :: "('esk, 'pool) ClientConn option"
  fw_signed :: "('pk, 'pool) SignedClient option"
  fw_reloader :: "'esk ClientReloader option"

definition loadCAPool :: "(string \<Rightarrow> bytes res) \<Rightarrow> (bytes \<Rightarrow> 'pool option) \<Rightarrow> string \<Rightarrow> 'pool res" where
  "loadCAPool readFile pool_of path =
    (if path = '''' then Inl (ErrNew ''CA root file path is required'')
     else case readFile path of
            Inl e \<Rightarrow> Inl (ErrWrap ''read CA'' e)
          | Inr pem \<Rightarrow>
             (case pool_of pem of
                None \<Rightarrow> Inl (ErrNew ''CA root file has no usable PEM certificates'')
              | Some pool \<Rightarrow> Inr pool))"

text \<open>\<^verbatim>\<open>New\<close>; \<open>dial\<close> is \<^verbatim>\<open>grpc.NewClient\<close> on the scheme-less target.\<close>

definition Forwarder_New ::
    "(string \<Rightarrow> bytes res) \<Rightarrow> (bytes \<Rightarrow> 'pool option) \<Rightarrow> (string \<Rightarrow> unit res) \<Rightarrow> 'esk ForwarderConfig
     \<Rightarrow> ('esk, 'pk, 'pool) Forwarder res" where
  "Forwarder_New readFile pool_of dial cfg =
    (if fc_Target cfg = '''' then Inl (ErrNew ''forwarder: Target is required'')
     else case fc_Reloader cfg of
       None \<Rightarrow> Inl (ErrNew ''forwarder: ClientReloader is required'')
     | Some rl \<Rightarrow>
        (case loadCAPool readFile pool_of (fc_CARootFile cfg) of
           Inl e \<Rightarrow> Inl (ErrWrap ''forwarder'' e)
         | Inr pool \<Rightarrow>
            (let target = StripScheme (fc_Target cfg) in
             case dial target of
               Inl e \<Rightarrow> Inl (ErrWrap ''forwarder: dial'' e)
             | Inr _ \<Rightarrow>
                Inr \<lparr>fw_conn = Some \<lparr>cc_target = target, cc_RootCAs = pool, cc_GetClientCertificate = rl\<rparr>,
                     fw_signed = None, fw_reloader = None\<rparr>)))"

definition Forwarder_NewSigned ::
    "(string \<Rightarrow> string \<Rightarrow> string \<Rightarrow> ('pk, 'pool) SignedClient res) \<Rightarrow> 'esk SignedConfig
     \<Rightarrow> ('esk, 'pk, 'pool) Forwarder res" where
  "Forwarder_NewSigned newSignedClient cfg =
    (if sg_BaseURL cfg = '''' then Inl (ErrNew ''forwarder: BaseURL is required'')
     else case sg_Reloader cfg of
       None \<Rightarrow> Inl (ErrNew ''forwarder: ClientReloader is required'')
     | Some rl \<Rightarrow>
        (case newSignedClient (sg_BaseURL cfg) (sg_CARootFile cfg) (sg_EdgeCAFile cfg) of
           Inl e \<Rightarrow> Inl (ErrWrap ''forwarder'' e)
         | Inr client \<Rightarrow> Inr \<lparr>fw_conn = None, fw_signed = Some client, fw_reloader = Some rl\<rparr>))"

text \<open>\<^verbatim>\<open>Close\<close>; \<open>conn_Close\<close> is that of the connection.\<close>

definition Forwarder_Close ::
    "(('esk, 'pool) ClientConn \<Rightarrow> 'w \<Rightarrow> unit res \<times> 'w) \<Rightarrow> ('esk, 'pk, 'pool) Forwarder \<Rightarrow> 'w \<Rightarrow> unit res \<times> 'w" where
  "Forwarder_Close conn_Close f w =
    (case fw_conn f of None \<Rightarrow> (Inr (), w) | Some conn \<Rightarrow> conn_Close conn w)"

section \<open>Sending\<close>

text \<open>\<^verbatim>\<open>status.Code\<close>: the code of a gRPC status on the chain of wrapped errors, else Unknown (2).\<close>

fun grpc_code :: "go_error \<Rightarrow> nat" where
  "grpc_code (ErrGRPC c m) = c"
| "grpc_code (ErrWrap m e) = grpc_code e"
| "grpc_code _ = 2"

definition isPermanent :: "go_error \<Rightarrow> bool" where
  "isPermanent e =
    (case as_HTTPError e of
       Some (s, c, m) \<Rightarrow> Permanent s
     | None \<Rightarrow> grpc_code e \<in> {3, 16, 7, 9, 5, 12})"

text \<open>The gRPC call with its outgoing metadata, a parameter.\<close>

type_synonym 'w grpc_ingest = "(string \<times> string) list \<Rightarrow> AlertPayload \<Rightarrow> 'w \<Rightarrow> unit res \<times> 'w"

definition send ::
    "('esk, 'epk, 'pk, 'hsk, 'c, 'crt, 'pool, 'w) transport \<Rightarrow> codec \<Rightarrow> ('esk, 'w) cert_files \<Rightarrow> 'w grpc_ingest
     \<Rightarrow> AlertPayload \<Rightarrow> ('esk, 'pk, 'pool) Forwarder \<times> 'w
     \<Rightarrow> unit res outcome \<times> ('esk, 'pk, 'pool) Forwarder \<times> 'w" where
  "send T K F ingest payload = (\<lambda>(f, w).
    (case fw_signed f of
       Some client \<Rightarrow>
         (case fw_reloader f of
            None \<Rightarrow> (Panic, f, w)
          | Some reloader \<Rightarrow>
         (case GetClientCertificate F reloader w of
            (Inl e, rl, w') \<Rightarrow> (Done (Inl (ErrWrap ''load client cert'' e)), f\<lparr>fw_reloader := Some rl\<rparr>, w')
          | (Inr cert, rl, w') \<Rightarrow>
              (case signed_Ingest T K client payload (Some cert) w' of
                 (r, client', w'') \<Rightarrow> (r, f\<lparr>fw_reloader := Some rl, fw_signed := Some client'\<rparr>, w''))))
     | None \<Rightarrow>
         (case FreshNonce (tr_rand T) w of
            (Panic, w') \<Rightarrow> (Panic, f, w')
          | (Done nonce, w') \<Rightarrow>
              (case ingest [(MetaTimestamp, itoa (now (tr_http T) w div 1000000000)), (MetaNonce, nonce)] payload w' of
                 (r, w'') \<Rightarrow> (Done r, f, w'')))))"

text \<open>The loop over the attempts still to be made; \<open>attempt\<close> is the first of them.\<close>

fun Forward_loop ::
    "('s \<Rightarrow> unit res outcome \<times> 's) \<Rightarrow> (int \<Rightarrow> 's \<Rightarrow> go_error option \<times> 's) \<Rightarrow> nat list \<Rightarrow> go_error
     \<Rightarrow> metrics \<Rightarrow> 's \<Rightarrow> unit res outcome \<times> metrics \<times> 's" where
  "Forward_loop sendF backoff [] lastErr m s =
    (Done (Inl (ErrWrap ''forward failed'' lastErr)), inc_Forwards ''error'' m, s)"
| "Forward_loop sendF backoff (attempt # rest) lastErr m s =
    (let m1 = (if attempt > 0 then inc_ForwardRetries m else m);
         (cancelled, s1) = (if attempt > 0 then backoff (2 ^ attempt) s else (None, s)) in
     case cancelled of
       Some e \<Rightarrow>
         (Done (Inl (ErrWrap ''forward cancelled during backoff'' e)), inc_Forwards ''error'' m1, s1)
     | None \<Rightarrow>
        (case sendF s1 of
           (Panic, s2) \<Rightarrow> (Panic, m1, s2)
         | (Done (Inr _), s2) \<Rightarrow> (Done (Inr ()), inc_Forwards ''ok'' m1, s2)
         | (Done (Inl e), s2) \<Rightarrow>
             if isPermanent e
             then (Done (Inl (ErrWrap ''forward failed'' e)), inc_Forwards ''error'' m1, s2)
             else Forward_loop sendF backoff rest e m1 s2))"

text \<open>\<^verbatim>\<open>Forward\<close>: three attempts; the deferred observation of the duration runs last. The initial
  \<^verbatim>\<open>lastErr\<close> is nil and is never wrapped, since the first attempt is always made.\<close>

definition Forward ::
    "('s \<Rightarrow> unit res outcome \<times> 's) \<Rightarrow> (int \<Rightarrow> 's \<Rightarrow> go_error option \<times> 's) \<Rightarrow> metrics \<Rightarrow> 's
     \<Rightarrow> unit res outcome \<times> metrics \<times> 's" where
  "Forward sendF backoff m s =
    (case Forward_loop sendF backoff [0, 1, 2] (ErrNew '''') m s of
       (r, m', s') \<Rightarrow> (r, observe_ForwardDuration m', s'))"

section \<open>Properties\<close>

text \<open>What a run of \<open>Forward\<close> does to the outside world, in order: an attempt with its result, or a
  wait of so many seconds with how it ended. \<open>logged_send\<close> and \<open>logged_wait\<close> are any transport and any
  clock that also keep this history.\<close>

datatype forward_event = Tried "unit res outcome" | Waited int "go_error option"

definition logged_send ::
    "('s \<Rightarrow> unit res outcome \<times> 's) \<Rightarrow> forward_event list \<times> 's \<Rightarrow> unit res outcome \<times> forward_event list \<times> 's" where
  "logged_send sendF = (\<lambda>(h, s). case sendF s of (r, s') \<Rightarrow> (r, h @ [Tried r], s'))"

definition logged_wait ::
    "(int \<Rightarrow> 's \<Rightarrow> go_error option \<times> 's) \<Rightarrow> int \<Rightarrow> forward_event list \<times> 's \<Rightarrow> go_error option \<times> forward_event list \<times> 's" where
  "logged_wait backoff d = (\<lambda>(h, s). case backoff d s of (r, s') \<Rightarrow> (r, h @ [Waited d r], s'))"

fun sends :: "forward_event list \<Rightarrow> unit res outcome list" where
  "sends [] = []"
| "sends (Tried r # h) = r # sends h"
| "sends (Waited d r # h) = sends h"

fun waits :: "forward_event list \<Rightarrow> int list" where
  "waits [] = []"
| "waits (Tried r # h) = waits h"
| "waits (Waited d r # h) = d # waits h"

definition transient :: "unit res outcome \<Rightarrow> bool" where
  "transient r = (case r of Done (Inl e) \<Rightarrow> \<not> isPermanent e | _ \<Rightarrow> False)"

text \<open>What the last event means for the caller, and the counter it increments.\<close>

fun verdict :: "forward_event \<Rightarrow> unit res outcome" where
  "verdict (Tried (Done (Inr u))) = Done (Inr ())"
| "verdict (Tried (Done (Inl e))) = Done (Inl (ErrWrap ''forward failed'' e))"
| "verdict (Tried Panic) = Panic"
| "verdict (Waited d (Some e)) = Done (Inl (ErrWrap ''forward cancelled during backoff'' e))"
| "verdict (Waited d None) = Panic"

definition counted_as :: "unit res outcome \<Rightarrow> metrics \<Rightarrow> metrics" where
  "counted_as r m =
    (case r of Panic \<Rightarrow> m | Done (Inr _) \<Rightarrow> inc_Forwards ''ok'' m | Done (Inl _) \<Rightarrow> inc_Forwards ''error'' m)"

lemmas forward_splits = option.splits outcome.splits sum.splits if_splits prod.splits

lemma Forward_unfold:
  "Forward sendF backoff m s =
    (case sendF s of
       (Panic, s) \<Rightarrow> (Panic, observe_ForwardDuration m, s)
     | (Done (Inr _), s) \<Rightarrow> (Done (Inr ()), observe_ForwardDuration (inc_Forwards ''ok'' m), s)
     | (Done (Inl e), s) \<Rightarrow>
         if isPermanent e
         then (Done (Inl (ErrWrap ''forward failed'' e)), observe_ForwardDuration (inc_Forwards ''error'' m), s)
         else (case Forward_loop sendF backoff [1, 2] e m s of (r, m', s') \<Rightarrow> (r, observe_ForwardDuration m', s')))"
  by (simp add: Forward_def split: forward_splits)

text \<open>C9: \<open>Forward\<close> makes one to three attempts, waiting two seconds before the second and four before the
  third. It goes on only after a transient failure and gives up only on a permanent error, after the
  third attempt or when the context ends during a wait. The result is the last event's: success only if
  the last attempt succeeded, an error wrapping the last one otherwise. Each wait counts one retry, and
  the call as a whole counts exactly one \<^verbatim>\<open>ok\<close> or one \<^verbatim>\<open>error\<close> (none if the process dies) and one
  duration.\<close>

theorem Forward_bounded_retries:
  assumes "Forward (logged_send sendF) (logged_wait backoff) m ([], s) = (r, m', h, s')"
  shows "length (sends h) \<in> {1, 2, 3}
    \<and> waits h = take (length (waits h)) [2, 4]
    \<and> list_all transient (butlast (sends h))
    \<and> (case last h of Tried t \<Rightarrow> transient t \<longrightarrow> length (sends h) = 3 | Waited d x \<Rightarrow> x \<noteq> None)
    \<and> r = verdict (last h)
    \<and> m' = observe_ForwardDuration (counted_as r (m\<lparr>ForwardRetries := ForwardRetries m + length (waits h)\<rparr>))"
  using assms unfolding Forward_unfold
  by (auto simp: logged_send_def logged_wait_def transient_def counted_as_def Let_def numeral_3_eq_3 split: forward_splits)

theorem Forward_bounded_retries_witness:
  "Forward (logged_send (\<lambda>n. (if n = 0 then Done (Inl (ErrHTTP 503 ''c'' ''m'')) else Done (Inr ()), Suc n)))
     (logged_wait (\<lambda>d n. (None, n))) no_metrics ([], 0::nat)
   = (Done (Inr ()), observe_ForwardDuration (inc_Forwards ''ok'' (no_metrics\<lparr>ForwardRetries := 1\<rparr>)),
      [Tried (Done (Inl (ErrHTTP 503 ''c'' ''m''))), Waited 2 None, Tried (Done (Inr ()))], 2)
   \<and> length (sends [Tried (Done (Inl (ErrHTTP 503 ''c'' ''m''))), Waited 2 None, Tried (Done (Inr ()))]) \<in> {1, 2, 3}"
proof -
  have f: "Forward (logged_send (\<lambda>n. (if n = 0 then Done (Inl (ErrHTTP 503 ''c'' ''m'')) else Done (Inr ()), Suc n)))
     (logged_wait (\<lambda>d n. (None, n))) no_metrics ([], 0::nat)
   = (Done (Inr ()), observe_ForwardDuration (inc_Forwards ''ok'' (no_metrics\<lparr>ForwardRetries := 1\<rparr>)),
      [Tried (Done (Inl (ErrHTTP 503 ''c'' ''m''))), Waited 2 None, Tried (Done (Inr ()))], 2)"
    by (simp add: Forward_def logged_send_def logged_wait_def isPermanent_def Permanent_def no_metrics_def numeral_2_eq_2)
  show ?thesis using f Forward_bounded_retries[OF f] by simp
qed

end
