(* ===== verification/GoFiles.thy ===== *)
theory GoFiles
  imports GoFormat
begin

text \<open>
  What the collector uses of \<^verbatim>\<open>path/filepath\<close> and \<^verbatim>\<open>os\<close>. A \<open>disk\<close> is the contents of a file system
  with everything that may go wrong made explicit: operation number \<open>n\<close> fails when \<open>dk_faults n\<close>, a
  failing write leaves the first \<open>dk_short n\<close> bytes, and \<open>dk_random n\<close> is the number a temporary file's
  name is made of. \<open>dk_history\<close> holds every state the disk went through, newest first: the states a
  crash can leave behind.
\<close>

section \<open>Paths\<close>

fun clean_elems :: "bool \<Rightarrow> string list \<Rightarrow> string list \<Rightarrow> string list" where
  "clean_elems rooted acc [] = rev acc"
| "clean_elems rooted acc (e # es) =
    (if e = '''' \<or> e = ''.'' then clean_elems rooted acc es
     else if e = ''..'' then
       (case acc of
          [] \<Rightarrow> if rooted then clean_elems rooted [] es else clean_elems rooted [''..''] es
        | a # as \<Rightarrow> if a = ''..'' then clean_elems rooted (''..'' # acc) es else clean_elems rooted as es)
     else clean_elems rooted (e # acc) es)"

definition path_Clean :: "string \<Rightarrow> string" where
  "path_Clean p =
    (if p = '''' then ''.''
     else let rooted = (hd p = CHR ''/''); out = Join (clean_elems rooted [] (Split p (CHR ''/''))) ''/'' in
          if rooted then CHR ''/'' # out else if out = '''' then ''.'' else out)"

text \<open>\<^verbatim>\<open>filepath.Join\<close> of two elements: empty elements are ignored.\<close>

definition path_Join :: "string \<Rightarrow> string \<Rightarrow> string" where
  "path_Join dir name =
    (if dir = '''' then (if name = '''' then '''' else path_Clean name)
     else if name = '''' then path_Clean dir else path_Clean (dir @ ''/'' @ name))"

text \<open>\<^verbatim>\<open>filepath.Dir\<close> cleans everything up to the last slash; \<^verbatim>\<open>filepath.Base\<close> is the last element
  after dropping trailing slashes.\<close>

definition path_Dir :: "string \<Rightarrow> string" where
  "path_Dir p = path_Clean (rev (dropWhile (\<lambda>c. c \<noteq> CHR ''/'') (rev p)))"

definition path_Base :: "string \<Rightarrow> string" where
  "path_Base p =
    (if p = '''' then ''.''
     else let q = rev (takeWhile (\<lambda>c. c \<noteq> CHR ''/'') (dropWhile (\<lambda>c. c = CHR ''/'') (rev p))) in
          if q = '''' then ''/'' else q)"

section \<open>Disk\<close>

record dfile =
  fl_bytes :: bytes
  fl_mode :: nat

type_synonym files = "string \<Rightarrow> dfile option"

record disk =
  dk_files :: files
  dk_faults :: "nat \<Rightarrow> bool"
  dk_random :: "nat \<Rightarrow> nat"
  dk_short :: "nat \<Rightarrow> nat"
  dk_ops :: nat
  dk_history :: "files list"

definition failing :: "disk \<Rightarrow> bool" where
  "failing d = dk_faults d (dk_ops d)"

text \<open>One operation done, the files now being \<open>fs\<close>.\<close>

definition did :: "files \<Rightarrow> disk \<Rightarrow> disk" where
  "did fs d = d\<lparr>dk_files := fs, dk_ops := dk_ops d + 1, dk_history := fs # dk_history d\<rparr>"

definition os_MkdirAll :: "string \<Rightarrow> nat \<Rightarrow> disk \<Rightarrow> unit res \<times> disk" where
  "os_MkdirAll dir mode d = (if failing d then Inl (ErrExt ''mkdir'') else Inr (), did (dk_files d) d)"

definition os_Stat_file :: "string \<Rightarrow> disk \<Rightarrow> unit res \<times> disk" where
  "os_Stat_file p d =
    (if failing d \<or> dk_files d p = None then Inl (ErrExt ''stat'') else Inr (), did (dk_files d) d)"

definition os_ReadFile :: "string \<Rightarrow> disk \<Rightarrow> bytes res \<times> disk" where
  "os_ReadFile p d =
    (case dk_files d p of
       None \<Rightarrow> Inl (ErrExt ''open'')
     | Some f \<Rightarrow> if failing d then Inl (ErrExt ''read'') else Inr (fl_bytes f), did (dk_files d) d)"

text \<open>\<^verbatim>\<open>os.CreateTemp(dir, prefix + "*")\<close> creates a file that did not exist, with mode 0600.\<close>

definition temp_name :: "string \<Rightarrow> string \<Rightarrow> nat \<Rightarrow> string" where
  "temp_name dir prefix r = dir @ ''/'' @ prefix @ itoa (int r)"

definition os_CreateTemp :: "string \<Rightarrow> string \<Rightarrow> disk \<Rightarrow> string res \<times> disk" where
  "os_CreateTemp dir prefix d =
    (let name = temp_name dir prefix (dk_random d (dk_ops d)) in
     if failing d \<or> dk_files d name \<noteq> None then (Inl (ErrExt ''open''), did (dk_files d) d)
     else (Inr name, did ((dk_files d)(name \<mapsto> \<lparr>fl_bytes = '''', fl_mode = 384\<rparr>)) d))"

text \<open>Operations on an open file, which stays under its name until it is renamed or removed.\<close>

definition on_file :: "string \<Rightarrow> (dfile \<Rightarrow> dfile) \<Rightarrow> files \<Rightarrow> files" where
  "on_file p f fs = fs(p := map_option f (fs p))"

definition os_Write :: "string \<Rightarrow> bytes \<Rightarrow> disk \<Rightarrow> unit res \<times> disk" where
  "os_Write p data d =
    (if failing d
     then (Inl (ErrExt ''write''),
           did (on_file p (\<lambda>f. f\<lparr>fl_bytes := fl_bytes f @ take (dk_short d (dk_ops d)) data\<rparr>) (dk_files d)) d)
     else (Inr (), did (on_file p (\<lambda>f. f\<lparr>fl_bytes := fl_bytes f @ data\<rparr>) (dk_files d)) d))"

definition os_Chmod :: "string \<Rightarrow> nat \<Rightarrow> disk \<Rightarrow> unit res \<times> disk" where
  "os_Chmod p mode d =
    (if failing d then (Inl (ErrExt ''chmod''), did (dk_files d) d)
     else (Inr (), did (on_file p (\<lambda>f. f\<lparr>fl_mode := mode\<rparr>) (dk_files d)) d))"

definition os_Close :: "string \<Rightarrow> disk \<Rightarrow> unit res \<times> disk" where
  "os_Close p d = (if failing d then Inl (ErrExt ''close'') else Inr (), did (dk_files d) d)"

text \<open>\<^verbatim>\<open>os.Rename\<close> replaces the target in one step.\<close>

definition os_Rename :: "string \<Rightarrow> string \<Rightarrow> disk \<Rightarrow> unit res \<times> disk" where
  "os_Rename p q d =
    (if failing d \<or> dk_files d p = None then (Inl (ErrExt ''rename''), did (dk_files d) d)
     else (Inr (), did ((dk_files d)(p := None, q := dk_files d p)) d))"

definition os_Remove :: "string \<Rightarrow> disk \<Rightarrow> unit res \<times> disk" where
  "os_Remove p d =
    (if failing d \<or> dk_files d p = None then (Inl (ErrExt ''remove''), did (dk_files d) d)
     else (Inr (), did ((dk_files d)(p := None)) d))"

lemmas os_defs = os_MkdirAll_def os_Stat_file_def os_ReadFile_def os_CreateTemp_def os_Write_def os_Chmod_def
  os_Close_def os_Rename_def os_Remove_def on_file_def

section \<open>Facts\<close>

lemma did_simps [simp]:
  "dk_files (did fs d) = fs" "dk_history (did fs d) = fs # dk_history d"
  "dk_ops (did fs d) = Suc (dk_ops d)" "dk_faults (did fs d) = dk_faults d"
  "dk_random (did fs d) = dk_random d" "dk_short (did fs d) = dk_short d"
  by (simp_all add: did_def)

text \<open>The names temporary files have: they end in a digit.\<close>

definition is_temp :: "string \<Rightarrow> bool" where
  "is_temp p = (p \<noteq> '''' \<and> is_digit (last p))"

lemma is_temp_temp_name [simp]: "is_temp (temp_name dir prefix r)"
proof -
  have "last (nat_str r) \<in> set (nat_str r)" by simp
  then show ?thesis using nat_str_digits[of r] by (simp add: is_temp_def temp_name_def itoa_def)
qed

text \<open>A clean path ends in the last element it was joined from.\<close>

lemma clean_elems_last:
  "e \<noteq> '''' \<Longrightarrow> e \<noteq> ''.'' \<Longrightarrow> e \<noteq> ''..'' \<Longrightarrow> \<exists>xs. clean_elems rooted acc (es @ [e]) = xs @ [e]"
  by (induction rooted acc es rule: clean_elems.induct) (auto split: list.splits)

lemma Split_snoc: "c \<notin> set b \<Longrightarrow> Split (a @ c # b) c = Split a c @ [b]"
  by (induction a) (auto simp: Split_no_sep split: list.splits)

lemma Join_Cons: "xs \<noteq> [] \<Longrightarrow> Join (x # xs) s = x @ s @ Join xs s"
  by (cases xs) auto

lemma Join_snoc: "\<exists>x. Join (xs @ [e]) s = x @ e"
proof (induction xs)
  case (Cons a xs)
  then obtain x where "Join (xs @ [e]) s = x @ e" by blast
  then have "Join ((a # xs) @ [e]) s = (a @ s @ x) @ e" by (simp add: Join_Cons)
  then show ?case by blast
qed simp

lemma path_Clean_last:
  assumes "e \<noteq> ''.''" "e \<noteq> ''..''" "e \<noteq> ''''" "CHR ''/'' \<notin> set e"
  shows "\<exists>x. path_Clean (dir @ ''/'' @ e) = x @ e"
proof -
  let ?p = "dir @ ''/'' @ e"
  obtain xs where "clean_elems (hd ?p = CHR ''/'') [] (Split ?p (CHR ''/'')) = xs @ [e]"
    using clean_elems_last[OF assms(3,1,2)] Split_snoc[OF assms(4), of dir] by fastforce
  then obtain x where j: "Join (clean_elems (hd ?p = CHR ''/'') [] (Split ?p (CHR ''/''))) ''/'' = x @ e"
    using Join_snoc by metis
  show ?thesis unfolding path_Clean_def Let_def j using assms(3)
    by (cases "hd ?p = CHR ''/''") (auto intro: exI[of _ "CHR ''/'' # x"])
qed

lemma path_Join_last:
  assumes "e \<noteq> ''.''" "e \<noteq> ''..''" "e \<noteq> ''''" "CHR ''/'' \<notin> set e"
  shows "\<exists>x. path_Join dir e = x @ e"
proof (cases "dir = ''''")
  case True
  have "path_Clean e = e" using assms by (cases e) (auto simp: path_Clean_def Split_no_sep Let_def)
  then show ?thesis using True assms(3) by (auto simp: path_Join_def)
next
  case False
  then show ?thesis using path_Clean_last[OF assms, of dir] assms(3) by (simp add: path_Join_def)
qed

end
