(* ===== verification/Keypair.thy ===== *)
theory Keypair
  imports GoFiles
begin

text \<open>
  \<^verbatim>\<open>internal/auth/keypair.go\<close>: the certificate material on disk and the signing request. Writing goes
  through the disk of \<open>GoFiles\<close>, whose history says what a crash at any moment would leave; the
  cryptographic library is the record \<open>csr_lib\<close>.
\<close>

section \<open>Data\<close>

record CertMaterial =
  mt_Dir :: string
  mt_CertFile :: string
  mt_KeyFile :: string
  mt_CAFile :: string

definition NewMaterial :: "string \<Rightarrow> CertMaterial" where
  "NewMaterial dir =
    \<lparr>mt_Dir = dir, mt_CertFile = path_Join dir ''tls.crt'', mt_KeyFile = path_Join dir ''tls.key'',
     mt_CAFile = path_Join dir ''ca.crt''\<rparr>"

definition Material_Exists :: "CertMaterial \<Rightarrow> disk \<Rightarrow> bool \<times> disk" where
  "Material_Exists m d =
    (case os_Stat_file (mt_CertFile m) d of
       (Inl e, d) \<Rightarrow> (False, d)
     | (Inr _, d) \<Rightarrow>
        (case os_Stat_file (mt_KeyFile m) d of
           (Inl e, d) \<Rightarrow> (False, d)
         | (Inr _, d) \<Rightarrow> (True, d)))"

section \<open>The signing request\<close>

record csr_template =
  ct_CommonName :: string
  ct_URIs :: "string list"

record ('esk, 'w) csr_lib =
  ecdsa_GenerateKey :: "'w \<Rightarrow> 'esk res \<times> 'w"
  parse_uri :: "string \<Rightarrow> string res"
  CreateCertificateRequest :: "csr_template \<Rightarrow> 'esk \<Rightarrow> 'w \<Rightarrow> bytes res \<times> 'w"
  MarshalPKCS8PrivateKey :: "'esk \<Rightarrow> bytes res"
  pem_EncodeToMemory :: "string \<Rightarrow> bytes \<Rightarrow> bytes"

definition GenerateCSR :: "('esk, 'w) csr_lib \<Rightarrow> string \<Rightarrow> string \<Rightarrow> 'w \<Rightarrow> (bytes \<times> bytes) res \<times> 'w" where
  "GenerateCSR L tenantID clusterID w =
    (if clusterID = '''' then (Inl (ErrNew ''auth: clusterID required for CSR''), w)
     else case ecdsa_GenerateKey L w of
       (Inl e, w) \<Rightarrow> (Inl (ErrWrap ''generate ECDSA key'' e), w)
     | (Inr priv, w) \<Rightarrow>
        (let uris = (if tenantID \<noteq> '''' then
                       (case parse_uri L (''spiffe://muthur/'' @ tenantID @ ''/'' @ clusterID) of
                          Inl e \<Rightarrow> [] | Inr u \<Rightarrow> [u])
                     else []) in
         case CreateCertificateRequest L \<lparr>ct_CommonName = clusterID, ct_URIs = uris\<rparr> priv w of
           (Inl e, w) \<Rightarrow> (Inl (ErrWrap ''create CSR'' e), w)
         | (Inr der, w) \<Rightarrow>
            (case MarshalPKCS8PrivateKey L priv of
               Inl e \<Rightarrow> (Inl (ErrWrap ''marshal key'' e), w)
             | Inr keyDER \<Rightarrow>
                (Inr (pem_EncodeToMemory L ''CERTIFICATE REQUEST'' der,
                      pem_EncodeToMemory L ''PRIVATE KEY'' keyDER), w))))"

section \<open>Writing\<close>

definition cleanup :: "string \<Rightarrow> disk \<Rightarrow> disk" where
  "cleanup tmp d = snd (os_Remove tmp d)"

definition writeAtomic :: "string \<Rightarrow> bytes \<Rightarrow> nat \<Rightarrow> disk \<Rightarrow> unit res \<times> disk" where
  "writeAtomic path data mode d =
    (case os_CreateTemp (path_Dir path) (path_Base path @ ''.tmp.'') d of
       (Inl e, d) \<Rightarrow> (Inl (ErrWrap ''create temp'' e), d)
     | (Inr tmp, d) \<Rightarrow>
    (case os_Write tmp data d of
       (Inl e, d) \<Rightarrow> (Inl (ErrWrap ''write temp'' e), cleanup tmp (snd (os_Close tmp d)))
     | (Inr _, d) \<Rightarrow>
    (case os_Chmod tmp mode d of
       (Inl e, d) \<Rightarrow> (Inl (ErrWrap ''chmod temp'' e), cleanup tmp (snd (os_Close tmp d)))
     | (Inr _, d) \<Rightarrow>
    (case os_Close tmp d of
       (Inl e, d) \<Rightarrow> (Inl (ErrWrap ''close temp'' e), cleanup tmp d)
     | (Inr _, d) \<Rightarrow>
    (case os_Rename tmp path d of
       (Inl e, d) \<Rightarrow> (Inl (ErrWrap ''rename'' e), cleanup tmp d)
     | (Inr _, d) \<Rightarrow> (Inr (), d))))))"

text \<open>The file mode 0600 is 384.\<close>

definition WriteMaterial :: "CertMaterial \<Rightarrow> bytes \<Rightarrow> bytes \<Rightarrow> bytes \<Rightarrow> disk \<Rightarrow> unit res \<times> disk" where
  "WriteMaterial m certPEM keyPEM caPEM d =
    (if length certPEM = 0 \<or> length keyPEM = 0 then (Inl (ErrNew ''auth: cert and key are required''), d)
     else case os_MkdirAll (mt_Dir m) 448 d of
       (Inl e, d) \<Rightarrow> (Inl (ErrWrap (''mkdir '' @ mt_Dir m) e), d)
     | (Inr _, d) \<Rightarrow>
    (case writeAtomic (mt_CertFile m) certPEM 384 d of
       (Inl e, d) \<Rightarrow> (Inl e, d)
     | (Inr _, d) \<Rightarrow>
    (case writeAtomic (mt_KeyFile m) keyPEM 384 d of
       (Inl e, d) \<Rightarrow> (Inl e, d)
     | (Inr _, d) \<Rightarrow>
        if length caPEM > 0 then writeAtomic (mt_CAFile m) caPEM 384 d else (Inr (), d))))"

section \<open>Facts\<close>

lemma material_not_temp [simp]:
  "\<not> is_temp (mt_CertFile (NewMaterial dir))" "\<not> is_temp (mt_KeyFile (NewMaterial dir))"
  "\<not> is_temp (mt_CAFile (NewMaterial dir))"
proof -
  obtain x y z where "path_Join dir ''tls.crt'' = x @ ''tls.crt''" "path_Join dir ''tls.key'' = y @ ''tls.key''"
    "path_Join dir ''ca.crt'' = z @ ''ca.crt''"
    using path_Join_last[of "''tls.crt''" dir] path_Join_last[of "''tls.key''" dir] path_Join_last[of "''ca.crt''" dir] by auto
  then show "\<not> is_temp (mt_CertFile (NewMaterial dir))" "\<not> is_temp (mt_KeyFile (NewMaterial dir))"
    "\<not> is_temp (mt_CAFile (NewMaterial dir))" by (simp_all add: NewMaterial_def is_temp_def is_digit_def byte_of_def)
qed

lemma material_distinct [simp]:
  "mt_CertFile (NewMaterial dir) \<noteq> mt_KeyFile (NewMaterial dir)"
  "mt_KeyFile (NewMaterial dir) \<noteq> mt_CAFile (NewMaterial dir)"
  "mt_CertFile (NewMaterial dir) \<noteq> mt_CAFile (NewMaterial dir)"
proof -
  obtain x y z where p: "path_Join dir ''tls.crt'' = x @ ''tls.crt''" "path_Join dir ''tls.key'' = y @ ''tls.key''"
    "path_Join dir ''ca.crt'' = z @ ''ca.crt''"
    using path_Join_last[of "''tls.crt''" dir] path_Join_last[of "''tls.key''" dir] path_Join_last[of "''ca.crt''" dir] by auto
  have r: "rev (x @ ''tls.crt'') \<noteq> rev (y @ ''tls.key'')" "rev (y @ ''tls.key'') \<noteq> rev (z @ ''ca.crt'')"
    "rev (x @ ''tls.crt'') \<noteq> rev (z @ ''ca.crt'')"
    by simp_all
  show "mt_CertFile (NewMaterial dir) \<noteq> mt_KeyFile (NewMaterial dir)"
    "mt_KeyFile (NewMaterial dir) \<noteq> mt_CAFile (NewMaterial dir)"
    "mt_CertFile (NewMaterial dir) \<noteq> mt_CAFile (NewMaterial dir)"
    using r p unfolding NewMaterial_def by auto
qed

lemmas material_distinct_sym [simp] = material_distinct[THEN not_sym]

text \<open>\<open>touches old new fs\<close>: in the state \<open>fs\<close> every file is as in \<open>old\<close>, or is a temporary file only the
  owner can read, or has exactly the contents \<open>new\<close> gives it, readable by the owner only.\<close>

definition touches :: "files \<Rightarrow> (string \<Rightarrow> bytes option) \<Rightarrow> files \<Rightarrow> bool" where
  "touches old new fs =
    (\<forall>q. fs q = old q \<or> (is_temp q \<and> (\<forall>f. fs q = Some f \<longrightarrow> fl_mode f = 384))
      \<or> (\<exists>b. new q = Some b \<and> fs q = Some \<lparr>fl_bytes = b, fl_mode = 384\<rparr>))"

lemma touches_refl [simp]: "touches old new old"
  by (simp add: touches_def)

lemma touches_trans: "touches old new fs \<Longrightarrow> touches fs new gs \<Longrightarrow> touches old new gs"
  unfolding touches_def by metis

lemma touches_more: "touches old [p \<mapsto> b] fs \<Longrightarrow> new p = Some b \<Longrightarrow> touches old new fs"
  unfolding touches_def by (metis fun_upd_apply option.distinct(1) option.inject)

definition passes :: "(files \<Rightarrow> bool) \<Rightarrow> disk \<Rightarrow> disk \<Rightarrow> bool" where
  "passes Q d d' = (\<exists>hs. dk_history d' = hs @ dk_history d \<and> list_all Q hs \<and> Q (dk_files d'))"

lemma passes_trans: "passes Q d d1 \<Longrightarrow> passes R d1 d2 \<Longrightarrow> (\<And>fs. Q (dk_files d1) \<Longrightarrow> R fs \<Longrightarrow> Q fs) \<Longrightarrow> passes Q d d2"
  unfolding passes_def by (fastforce simp: list_all_iff)

lemma passes_did [simp]:
  "passes Q d (did fs d) \<longleftrightarrow> Q fs" by (auto simp: passes_def)

lemma passes_step: "passes Q d d1 \<Longrightarrow> Q fs \<Longrightarrow> passes Q d (did fs d1)"
  by (auto simp: passes_def)

text \<open>A write in progress: the files \<open>F\<close> with one temporary file more.\<close>

definition in_progress :: "(files \<Rightarrow> bool) \<Rightarrow> files \<Rightarrow> disk \<Rightarrow> string \<Rightarrow> dfile \<Rightarrow> disk \<Rightarrow> bool" where
  "in_progress Q F d0 tmp f d =
    (passes Q d0 d \<and> dk_files d = F(tmp \<mapsto> f) \<and> fl_mode f = 384)"

lemma touches_temp: "is_temp tmp \<Longrightarrow> (\<And>f. x = Some f \<Longrightarrow> fl_mode f = 384) \<Longrightarrow> touches F new (F(tmp := x))"
  by (simp add: touches_def)

lemma in_progress_step:
  assumes "in_progress (touches F new) F d0 tmp f d" "is_temp tmp" "fl_mode f' = 384" "fs = F(tmp \<mapsto> f')"
  shows "in_progress (touches F new) F d0 tmp f' (did fs d)"
  using assms touches_temp[of tmp "Some f'" F new] by (simp add: in_progress_def passes_step)

lemma Write_step:
  assumes "os_Write tmp data d = (r, d')" "in_progress (touches F new) F d0 tmp f d" "is_temp tmp"
  shows "\<exists>f'. in_progress (touches F new) F d0 tmp f' d' \<and> (r = Inr () \<longrightarrow> fl_bytes f' = fl_bytes f @ data)"
  using assms in_progress_step[OF assms(2,3), where f' = "f\<lparr>fl_bytes := fl_bytes f @ data\<rparr>"]
    in_progress_step[OF assms(2,3), where f' = "f\<lparr>fl_bytes := fl_bytes f @ take (dk_short d (dk_ops d)) data\<rparr>"]
  by (auto simp: os_Write_def on_file_def in_progress_def split: if_splits)

lemma Chmod_step:
  assumes "os_Chmod tmp 384 d = (r, d')" "in_progress (touches F new) F d0 tmp f d" "is_temp tmp"
  shows "in_progress (touches F new) F d0 tmp f d'"
proof -
  have f: "f\<lparr>fl_mode := 384\<rparr> = f" using assms(2) by (cases f) (simp add: in_progress_def)
  have g: "did (F(tmp \<mapsto> f\<lparr>fl_mode := 384\<rparr>)) d = did (F(tmp \<mapsto> f)) d" by (simp only: f)
  have "dk_files d' = F(tmp \<mapsto> f) \<and> d' = did (F(tmp \<mapsto> f)) d"
    using assms(1,2) by (auto simp: g os_Chmod_def on_file_def in_progress_def split: if_splits)
  then show ?thesis using in_progress_step[OF assms(2,3), of f] assms(2) by (simp add: in_progress_def)
qed

lemma Close_step:
  assumes "os_Close tmp d = (r, d')" "in_progress (touches F new) F d0 tmp f d" "is_temp tmp"
  shows "in_progress (touches F new) F d0 tmp f d'"
  using assms in_progress_step[OF assms(2,3), of f] by (auto simp: os_Close_def in_progress_def)

lemma cleanup_step:
  assumes "in_progress (touches F new) F d0 tmp f d" "is_temp tmp"
  shows "passes (touches F new) d0 (cleanup tmp d) \<and> (\<forall>q. \<not> is_temp q \<longrightarrow> dk_files (cleanup tmp d) q = F q)"
  using assms touches_temp[of tmp None F new] touches_temp[of tmp "Some f" F new]
  by (auto simp: cleanup_def os_Remove_def in_progress_def passes_step)

lemma Rename_step:
  assumes "os_Rename tmp p d = (r, d')" "in_progress (touches F [p \<mapsto> fl_bytes f]) F d0 tmp f d" "is_temp tmp" "F tmp = None" "tmp \<noteq> p"
  shows "if r = Inr () then passes (touches F [p \<mapsto> fl_bytes f]) d0 d' \<and> dk_files d' = F(p \<mapsto> f)
         else in_progress (touches F [p \<mapsto> fl_bytes f]) F d0 tmp f d'"
proof -
  have "F(tmp := None, p \<mapsto> f) = F(p \<mapsto> f)" using assms(4,5) by auto
  moreover have "touches F [p \<mapsto> fl_bytes f] (F(p \<mapsto> f))" using assms(2) by (auto simp: touches_def in_progress_def)
  ultimately show ?thesis using assms in_progress_step[OF assms(2,3), of f]
    by (auto simp: os_Rename_def in_progress_def passes_step split: if_splits)
qed

lemma writeAtomic_spec:
  assumes w: "writeAtomic p data 384 d = (r, d')" and p: "\<not> is_temp p"
  shows "passes (touches (dk_files d) [p \<mapsto> data]) d d'
    \<and> (if r = Inr () then dk_files d' = (dk_files d)(p \<mapsto> \<lparr>fl_bytes = data, fl_mode = 384\<rparr>)
       else \<forall>q. \<not> is_temp q \<longrightarrow> dk_files d' q = dk_files d q)"
proof -
  let ?F = "dk_files d" and ?Q = "touches (dk_files d) [p \<mapsto> data]"
  obtain c d1 where c: "os_CreateTemp (path_Dir p) (path_Base p @ ''.tmp.'') d = (c, d1)" by fastforce
  show ?thesis
  proof (cases c)
    case (Inl e)
    then show ?thesis using w c by (auto simp: writeAtomic_def os_CreateTemp_def Let_def split: if_splits)
  next
    case (Inr tmp)
    have t: "is_temp tmp" "?F tmp = None" "in_progress ?Q ?F d tmp \<lparr>fl_bytes = '''', fl_mode = 384\<rparr> d1"
      using c Inr touches_temp[of tmp "Some \<lparr>fl_bytes = '''', fl_mode = 384\<rparr>" ?F]
      by (auto simp: os_CreateTemp_def Let_def in_progress_def split: if_splits)
    have tp: "tmp \<noteq> p" using t(1) p by blast
    obtain r2 d2 where o2: "os_Write tmp data d1 = (r2, d2)" by fastforce
    obtain f where f: "in_progress ?Q ?F d tmp f d2" "r2 = Inr () \<longrightarrow> fl_bytes f = data"
      using Write_step[OF o2 t(3,1)] by auto
    obtain r3 d3 where o3: "os_Chmod tmp 384 d2 = (r3, d3)" by fastforce
    note s3 = Chmod_step[OF o3 f(1) t(1)]
    obtain r4 d4 where o4: "os_Close tmp d3 = (r4, d4)" by fastforce
    note s4 = Close_step[OF o4 s3 t(1)]
    obtain r5 d5 where o5: "os_Rename tmp p d4 = (r5, d5)" by fastforce
    have e2: "in_progress ?Q ?F d tmp f (snd (os_Close tmp d2))" "in_progress ?Q ?F d tmp f (snd (os_Close tmp d3))"
      using Close_step[OF _ f(1) t(1)] Close_step[OF _ s3 t(1)] by (metis prod.collapse)+
    show ?thesis
    proof (cases "r2 = Inr () \<and> r3 = Inr () \<and> r4 = Inr ()")
      case True
      have ff: "f = \<lparr>fl_bytes = data, fl_mode = 384\<rparr>" using f True by (cases f) (simp add: in_progress_def)
      have s5: "if r5 = Inr () then passes ?Q d d5 \<and> dk_files d5 = ?F(p \<mapsto> f) else in_progress ?Q ?F d tmp f d5"
      proof -
        have "fl_bytes f = data" using ff by simp
        then show ?thesis using Rename_step[of tmp p d4 r5 d5 ?F f d] o5 s4 t tp by (simp split: if_splits)
      qed
      show ?thesis
      proof (cases "r5 = Inr ()")
        case True5: True
        then show ?thesis using w c Inr o2 o3 o4 o5 True s5 ff by (simp add: writeAtomic_def)
      next
        case False
        then obtain e where e: "r5 = Inl e" by (cases r5) auto
        then show ?thesis using w c Inr o2 o3 o4 o5 True s5 cleanup_step[OF _ t(1), of ?F "[p \<mapsto> data]" d f d5]
          by (auto simp: writeAtomic_def)
      qed
    next
      case False
      then show ?thesis
        using w c Inr o2 o3 o4 cleanup_step[OF e2(1) t(1)] cleanup_step[OF e2(2) t(1)] cleanup_step[OF s4 t(1)]
        by (cases r2; cases r3; cases r4) (auto simp: writeAtomic_def)
    qed
  qed
qed

lemma passes_write:
  assumes "passes (touches F new) d0 d" "writeAtomic p data 384 d = (r, d')" "\<not> is_temp p" "new p = Some data"
  shows "passes (touches F new) d0 d'"
  using passes_trans[OF assms(1), of "touches (dk_files d) [p \<mapsto> data]"] writeAtomic_spec[OF assms(2,3)]
    touches_trans[of F new] touches_more[of "dk_files d" p data _ new] assms(4) by blast

definition new_files :: "CertMaterial \<Rightarrow> bytes \<Rightarrow> bytes \<Rightarrow> bytes \<Rightarrow> string \<Rightarrow> bytes option" where
  "new_files m cert key ca =
    (if ca = '''' then Map.empty else [mt_CAFile m \<mapsto> ca])(mt_CertFile m \<mapsto> cert, mt_KeyFile m \<mapsto> key)"

definition installed :: "CertMaterial \<Rightarrow> bytes \<Rightarrow> bytes \<Rightarrow> bytes \<Rightarrow> files \<Rightarrow> files" where
  "installed m cert key ca F =
    (let F' = F(mt_CertFile m \<mapsto> \<lparr>fl_bytes = cert, fl_mode = 384\<rparr>, mt_KeyFile m \<mapsto> \<lparr>fl_bytes = key, fl_mode = 384\<rparr>) in
     if ca = '''' then F' else F'(mt_CAFile m \<mapsto> \<lparr>fl_bytes = ca, fl_mode = 384\<rparr>))"

lemma new_files_simps [simp]:
  "new_files (NewMaterial dir) cert key ca (mt_CertFile (NewMaterial dir)) = Some cert"
  "new_files (NewMaterial dir) cert key ca (mt_KeyFile (NewMaterial dir)) = Some key"
  "ca \<noteq> '''' \<Longrightarrow> new_files (NewMaterial dir) cert key ca (mt_CAFile (NewMaterial dir)) = Some ca"
  using material_distinct[of dir] by (auto simp: new_files_def)

text \<open>The run of \<open>WriteMaterial\<close> by the writes it makes.\<close>

lemma WriteMaterial_cases:
  assumes "WriteMaterial m cert key ca d = (r, d')"
  obtains (refused) "r \<noteq> Inr ()" "d' = d"
  | (mkdir) "r \<noteq> Inr ()" "d' = did (dk_files d) d"
  | (cert) d1 where "r \<noteq> Inr ()" "d1 = did (dk_files d) d" "writeAtomic (mt_CertFile m) cert 384 d1 = (r, d')"
  | (key) d1 d2 where "r \<noteq> Inr ()" "d1 = did (dk_files d) d" "writeAtomic (mt_CertFile m) cert 384 d1 = (Inr (), d2)"
      "writeAtomic (mt_KeyFile m) key 384 d2 = (r, d')"
  | (ca) d1 d2 d3 where "cert \<noteq> ''''" "key \<noteq> ''''" "d1 = did (dk_files d) d"
      "writeAtomic (mt_CertFile m) cert 384 d1 = (Inr (), d2)"
      "writeAtomic (mt_KeyFile m) key 384 d2 = (Inr (), d3)"
      "(if ca = '''' then (Inr (), d3) else writeAtomic (mt_CAFile m) ca 384 d3) = (r, d')"
  using assms
  by (auto simp: WriteMaterial_def os_MkdirAll_def split: if_splits sum.splits prod.splits)

lemma WriteMaterial_passes:
  assumes "WriteMaterial (NewMaterial dir) cert key ca d = (r, d')"
  shows "passes (touches (dk_files d) (new_files (NewMaterial dir) cert key ca)) d d'"
    (is "passes ?Q d d'")
proof -
  have 0: "passes ?Q d d" by (simp add: passes_def)
  have 1: "passes ?Q d (did (dk_files d) d)" by simp
  show ?thesis using assms
  proof (cases rule: WriteMaterial_cases)
    case (key d1 d2)
    have "passes ?Q d d2" by (rule passes_write[OF 1[folded key(2)] key(3)]) simp_all
    then show ?thesis by (rule passes_write[OF _ key(4)]) simp_all
  next
    case (ca d1 d2 d3)
    have "passes ?Q d d2" by (rule passes_write[OF 1[folded ca(3)] ca(4)]) simp_all
    then have 3: "passes ?Q d d3" by (rule passes_write[OF _ ca(5)]) simp_all
    show ?thesis
    proof (cases "ca = ''''")
      case False
      then show ?thesis using ca(6) passes_write[OF 3, of "mt_CAFile (NewMaterial dir)" ca r d'] by simp
    qed (use 3 ca(6) in simp)
  qed (use 0 1 passes_write[OF 1] in auto)
qed

lemma WriteMaterial_ok:
  assumes "WriteMaterial (NewMaterial dir) cert key ca d = (Inr (), d')"
  shows "dk_files d' = installed (NewMaterial dir) cert key ca (dk_files d)"
  using assms
proof (cases rule: WriteMaterial_cases)
  case (ca d1 d2 d3)
  show ?thesis
    using writeAtomic_spec[OF ca(4)] writeAtomic_spec[OF ca(5)] ca(3,6)
      writeAtomic_spec[of "mt_CAFile (NewMaterial dir)" ca d3 "Inr ()" d']
    by (auto simp: installed_def Let_def split: if_splits)
qed auto

text \<open>Between the two renames: the new certificate beside the old key.\<close>

definition half_rotated :: "CertMaterial \<Rightarrow> bytes \<Rightarrow> files \<Rightarrow> files \<Rightarrow> bool" where
  "half_rotated m cert old fs =
    (fs (mt_CertFile m) = Some \<lparr>fl_bytes = cert, fl_mode = 384\<rparr> \<and> fs (mt_KeyFile m) = old (mt_KeyFile m))"

lemma writeAtomic_last:
  assumes "writeAtomic p data 384 d = (Inr (), d')"
  shows "\<exists>hs. dk_history d' = dk_files d' # hs @ dk_history d"
proof -
  have "\<exists>hs. dk_history d' = hs @ dk_history d \<and> hs \<noteq> [] \<and> hd hs = dk_files d'"
    using assms by (auto simp: writeAtomic_def os_defs Let_def split: if_splits)
  then show ?thesis by (metis append_Cons list.collapse)
qed

lemma history_grows: "\<not> is_temp p \<Longrightarrow> writeAtomic p data 384 d = (r, d') \<Longrightarrow> \<exists>hs. dk_history d' = hs @ dk_history d"
  using writeAtomic_spec[of p data d r d'] unfolding passes_def by blast

text \<open>A disk with an old pair, on which operation number \<open>n\<close> fails.\<close>

definition old_pair :: "nat option \<Rightarrow> disk" where
  "old_pair n =
    \<lparr>dk_files = [''d/tls.crt'' \<mapsto> \<lparr>fl_bytes = ''C0'', fl_mode = 384\<rparr>, ''d/tls.key'' \<mapsto> \<lparr>fl_bytes = ''K0'', fl_mode = 384\<rparr>],
     dk_faults = (\<lambda>i. Some i = n), dk_random = (\<lambda>i. i), dk_short = (\<lambda>_. 0), dk_ops = 0, dk_history = []\<rparr>"

lemma old_pair_ok: "fst (WriteMaterial (NewMaterial ''d'') ''C1'' ''K1'' '''' (old_pair None)) = Inr ()"
  by code_simp

lemma old_pair_fails:
  "fst (WriteMaterial (NewMaterial ''d'') ''C1'' ''K1'' '''' (old_pair (Some 6))) \<noteq> Inr ()"
  "map_option fl_bytes (dk_files (snd (WriteMaterial (NewMaterial ''d'') ''C1'' ''K1'' '''' (old_pair (Some 6)))) ''d/tls.crt'') = Some ''C1''"
  "map_option fl_bytes (dk_files (snd (WriteMaterial (NewMaterial ''d'') ''C1'' ''K1'' '''' (old_pair (Some 6)))) ''d/tls.key'') = Some ''K0''"
  by code_simp+

section \<open>Properties\<close>

text \<open>C20: writing the material is crash-safe file by file. Whatever operations fail and wherever the
  process dies, every file is at every moment as it was before, completely new, or a temporary file;
  whatever was written is readable by its owner only. On success exactly the certificate, the key and a
  non-empty CA bundle are replaced and no temporary file is left.\<close>

theorem WriteMaterial_crash_safe:
  assumes "WriteMaterial (NewMaterial dir) cert key ca d = (r, d')"
  shows "(\<exists>hs. dk_history d' = hs @ dk_history d
        \<and> list_all (touches (dk_files d) (new_files (NewMaterial dir) cert key ca)) hs)
    \<and> touches (dk_files d) (new_files (NewMaterial dir) cert key ca) (dk_files d')
    \<and> (r = Inr () \<longrightarrow> cert \<noteq> '''' \<and> key \<noteq> '''' \<and> dk_files d' = installed (NewMaterial dir) cert key ca (dk_files d))"
  using WriteMaterial_passes[OF assms] WriteMaterial_ok[of dir cert key ca d d'] assms
  by (auto simp: passes_def WriteMaterial_def)

theorem WriteMaterial_crash_safe_witness:
  "\<exists>d'. WriteMaterial (NewMaterial ''d'') ''C1'' ''K1'' '''' (old_pair None) = (Inr (), d')
    \<and> dk_files d' = installed (NewMaterial ''d'') ''C1'' ''K1'' '''' (dk_files (old_pair None))"
proof -
  obtain d' where "WriteMaterial (NewMaterial ''d'') ''C1'' ''K1'' '''' (old_pair None) = (Inr (), d')"
    using old_pair_ok by (metis prod.collapse)
  then show ?thesis using WriteMaterial_crash_safe by blast
qed

text \<open>C39: the pair is not replaced as a unit. Every successful rotation goes through a state with the new
  certificate beside the old key, which is what a crash at that moment leaves; and an error while the
  key is written leaves it for good.\<close>

theorem WriteMaterial_half_rotated:
  assumes "WriteMaterial (NewMaterial dir) cert key ca d = (Inr (), d')"
  shows "(\<exists>hs. dk_history d' = hs @ dk_history d \<and> (\<exists>fs \<in> set hs. half_rotated (NewMaterial dir) cert (dk_files d) fs))
    \<and> (\<exists>d0. fst (WriteMaterial (NewMaterial ''d'') ''C1'' ''K1'' '''' d0) \<noteq> Inr ()
         \<and> map_option fl_bytes (dk_files (snd (WriteMaterial (NewMaterial ''d'') ''C1'' ''K1'' '''' d0)) ''d/tls.crt'') = Some ''C1''
         \<and> map_option fl_bytes (dk_files (snd (WriteMaterial (NewMaterial ''d'') ''C1'' ''K1'' '''' d0)) ''d/tls.key'') = Some ''K0'')"
  using assms
proof (cases rule: WriteMaterial_cases)
  case (ca d1 d2 d3)
  have h: "half_rotated (NewMaterial dir) cert (dk_files d) (dk_files d2)"
    using writeAtomic_spec[OF ca(4)] ca(3) by (simp add: half_rotated_def)
  obtain hs1 where 1: "dk_history d2 = dk_files d2 # hs1 @ dk_history d1" using writeAtomic_last[OF ca(4)] by blast
  obtain hs2 where 2: "dk_history d3 = hs2 @ dk_history d2" using history_grows[OF _ ca(5)] by auto
  obtain hs3 where 3: "dk_history d' = hs3 @ dk_history d3"
    using ca(6) history_grows[of "mt_CAFile (NewMaterial dir)" ca d3 "Inr ()" d'] by (auto split: if_splits)
  have "dk_history d' = (hs3 @ hs2 @ dk_files d2 # hs1 @ [dk_files d]) @ dk_history d" using 1 2 3 ca(3) by simp
  moreover have "dk_files d2 \<in> set (hs3 @ hs2 @ dk_files d2 # hs1 @ [dk_files d])" by simp
  ultimately show ?thesis using h old_pair_fails by blast
qed auto

theorem WriteMaterial_half_rotated_witness:
  "\<exists>d' hs. WriteMaterial (NewMaterial ''d'') ''C1'' ''K1'' '''' (old_pair None) = (Inr (), d')
    \<and> dk_history d' = hs \<and> (\<exists>fs \<in> set hs. half_rotated (NewMaterial ''d'') ''C1'' (dk_files (old_pair None)) fs)"
proof -
  obtain d' where d: "WriteMaterial (NewMaterial ''d'') ''C1'' ''K1'' '''' (old_pair None) = (Inr (), d')"
    using old_pair_ok by (metis prod.collapse)
  have "dk_history (old_pair None) = []" by (simp add: old_pair_def)
  then show ?thesis using WriteMaterial_half_rotated[OF d] d by auto
qed

end
