(* ===== verification/Client.thy ===== *)
theory Client
  imports SignedClient Keypair
begin

text \<open>
  \<^verbatim>\<open>internal/auth/client.go\<close> and \<^verbatim>\<open>internal/auth/secret_store.go\<close>: the gRPC client of the enrolment
  calls and the Kubernetes Secret the material is kept in. The gRPC stubs and the Kubernetes API are
  the parameters \<open>grpc_env\<close> and \<open>secrets_api\<close>.
\<close>

section \<open>Enrolment over gRPC\<close>

record ('esk, 'pool, 'w) grpc_env =
  gr_dial :: "string \<Rightarrow> unit res"
  gr_BootstrapCert :: "string \<Rightarrow> 'pool \<Rightarrow> strmap \<Rightarrow> BootstrapRequest \<Rightarrow> 'w \<Rightarrow> BootstrapResponse res \<times> 'w"
  gr_SignCSR :: "string \<Rightarrow> 'pool \<Rightarrow> 'esk tls_cert \<Rightarrow> strmap \<Rightarrow> SignCSRRequest \<Rightarrow> 'w \<Rightarrow> SignCSRResponse res \<times> 'w"
  gr_now :: "'w \<Rightarrow> int"
  gr_rand :: "nat \<Rightarrow> 'w \<Rightarrow> bytes option \<times> 'w"

record 'pool BrainClient =
  bc_target :: string
  bc_caPool :: 'pool

definition NewBrainClient ::
    "(string \<Rightarrow> bytes res) \<Rightarrow> (bytes \<Rightarrow> 'pool option) \<Rightarrow> string \<Rightarrow> string \<Rightarrow> 'pool BrainClient res" where
  "NewBrainClient readFile pool_of brainTarget caRootFile =
    (case readFile caRootFile of
       Inl e \<Rightarrow> Inl (ErrWrap ''read CA bundle'' e)
     | Inr pem \<Rightarrow>
        (case pool_of pem of
           None \<Rightarrow> Inl (ErrNew ''auth: CA bundle has no usable PEM certificates'')
         | Some pool \<Rightarrow> Inr \<lparr>bc_target = StripScheme brainTarget, bc_caPool = pool\<rparr>))"

text \<open>The metadata stamped on an outgoing call; no randomness is a panic.\<close>

definition stampReplay :: "('esk, 'pool, 'w) grpc_env \<Rightarrow> 'w \<Rightarrow> strmap outcome \<times> 'w" where
  "stampReplay G w =
    (case FreshNonce (gr_rand G) w of
       (Panic, w') \<Rightarrow> (Panic, w')
     | (Done nonce, w') \<Rightarrow> (Done [(MetaTimestamp, itoa (gr_now G w div 1000000000)), (MetaNonce, nonce)], w'))"

definition brain_Bootstrap ::
    "('esk, 'pool, 'w) grpc_env \<Rightarrow> 'pool BrainClient \<Rightarrow> string \<Rightarrow> string \<Rightarrow> bytes \<Rightarrow> 'w
     \<Rightarrow> (bytes \<times> bytes) res outcome \<times> 'w" where
  "brain_Bootstrap G c clusterID token csrPEM w =
    (if clusterID = '''' \<or> token = '''' \<or> length csrPEM = 0
     then (Done (Inl (ErrNew ''auth: clusterID, token, and CSR are required'')), w)
     else case gr_dial G (bc_target c) of
       Inl e \<Rightarrow> (Done (Inl (ErrWrap ''bootstrap dial'' e)), w)
     | Inr _ \<Rightarrow>
        (case stampReplay G w of
           (Panic, w) \<Rightarrow> (Panic, w)
         | (Done meta, w) \<Rightarrow>
            (case gr_BootstrapCert G (bc_target c) (bc_caPool c) meta
                    \<lparr>br_ClusterId = clusterID, br_BootstrapToken = token, br_Csr = csrPEM\<rparr> w of
               (Inl e, w) \<Rightarrow> (Done (Inl (ErrWrap ''bootstrap call'' e)), w)
             | (Inr resp, w) \<Rightarrow>
                 (if brs_Certificate resp = '''' then (Done (Inl (ErrNew ''brain returned empty certificate'')), w)
                  else (Done (Inr (brs_Certificate resp, brs_Ca resp)), w)))))"

definition brain_Renew ::
    "('esk, 'pool, 'w) grpc_env \<Rightarrow> 'pool BrainClient \<Rightarrow> 'esk tls_cert \<Rightarrow> bytes \<Rightarrow> 'w
     \<Rightarrow> (bytes \<times> bytes) res outcome \<times> 'w" where
  "brain_Renew G c clientCert csrPEM w =
    (if length csrPEM = 0 then (Done (Inl (ErrNew ''auth: CSR required'')), w)
     else case gr_dial G (bc_target c) of
       Inl e \<Rightarrow> (Done (Inl (ErrWrap ''renew dial'' e)), w)
     | Inr _ \<Rightarrow>
        (case stampReplay G w of
           (Panic, w) \<Rightarrow> (Panic, w)
         | (Done meta, w) \<Rightarrow>
            (case gr_SignCSR G (bc_target c) (bc_caPool c) clientCert meta \<lparr>sr_Csr = csrPEM\<rparr> w of
               (Inl e, w) \<Rightarrow> (Done (Inl (ErrWrap ''renew call'' e)), w)
             | (Inr resp, w) \<Rightarrow>
                 (if srs_Certificate resp = '''' then (Done (Inl (ErrNew ''brain returned empty certificate'')), w)
                  else (Done (Inr (srs_Certificate resp, srs_Ca resp)), w)))))"

section \<open>The material in a Kubernetes Secret\<close>

record secret =
  se_Type :: string
  se_Data :: "string \<Rightarrow> bytes option"
  se_Annotations :: strmap

record 'w secrets_api =
  InClusterConfig :: "unit res"
  NewForConfig :: "unit res"
  sa_Get :: "string \<Rightarrow> string \<Rightarrow> 'w \<Rightarrow> secret res \<times> 'w"
  sa_Update :: "string \<Rightarrow> string \<Rightarrow> secret \<Rightarrow> 'w \<Rightarrow> unit res \<times> 'w"
  sa_Create :: "string \<Rightarrow> string \<Rightarrow> secret \<Rightarrow> 'w \<Rightarrow> unit res \<times> 'w"
  IsNotFound :: "go_error \<Rightarrow> bool"

definition SecretKeyCert :: string where "SecretKeyCert = ''tls.crt''"
definition SecretKeyKey :: string where "SecretKeyKey = ''tls.key''"
definition SecretKeyCA :: string where "SecretKeyCA = ''ca.crt''"

record SecretStore =
  ss_namespace :: string
  ss_secretName :: string

text \<open>\<^verbatim>\<open>sec.Data[k]\<close>: nil, of length zero, when the key is absent.\<close>

definition data_at :: "secret \<Rightarrow> string \<Rightarrow> bytes" where
  "data_at s k = (case se_Data s k of None \<Rightarrow> '''' | Some b \<Rightarrow> b)"

definition NewSecretStoreInCluster :: "'w secrets_api \<Rightarrow> string \<Rightarrow> string \<Rightarrow> SecretStore res" where
  "NewSecretStoreInCluster A ns name =
    (if ns = '''' then Inl (ErrNew ''auth: namespace is required for SecretStore'')
     else if name = '''' then Inl (ErrNew ''auth: secretName is required for SecretStore'')
     else case InClusterConfig A of
       Inl e \<Rightarrow> Inl (ErrWrap ''in-cluster config'' e)
     | Inr _ \<Rightarrow>
        (case NewForConfig A of
           Inl e \<Rightarrow> Inl (ErrWrap ''kubernetes clientset'' e)
         | Inr _ \<Rightarrow> Inr \<lparr>ss_namespace = ns, ss_secretName = name\<rparr>))"

definition Secret_Exists :: "'w secrets_api \<Rightarrow> SecretStore \<Rightarrow> 'w \<Rightarrow> bool res \<times> 'w" where
  "Secret_Exists A s w =
    (case sa_Get A (ss_namespace s) (ss_secretName s) w of
       (Inl e, w) \<Rightarrow> if IsNotFound A e then (Inr False, w) else (Inl (ErrWrap ''get secret'' e), w)
     | (Inr sec, w) \<Rightarrow>
         (Inr (length (data_at sec SecretKeyCert) > 0 \<and> length (data_at sec SecretKeyKey) > 0), w))"

definition Secret_Read :: "'w secrets_api \<Rightarrow> SecretStore \<Rightarrow> 'w \<Rightarrow> (bytes \<times> bytes \<times> bytes) res \<times> 'w" where
  "Secret_Read A s w =
    (case sa_Get A (ss_namespace s) (ss_secretName s) w of
       (Inl e, w) \<Rightarrow> (Inl (ErrWrap ''get secret'' e), w)
     | (Inr sec, w) \<Rightarrow>
         (Inr (data_at sec SecretKeyCert, data_at sec SecretKeyKey, data_at sec SecretKeyCA), w))"

definition no_prune :: strmap where
  "no_prune = [(''argocd.argoproj.io/sync-options'', ''Prune=false''), (''helm.sh/resource-policy'', ''keep'')]"

definition Secret_Write ::
    "'w secrets_api \<Rightarrow> SecretStore \<Rightarrow> bytes \<Rightarrow> bytes \<Rightarrow> bytes \<Rightarrow> 'w \<Rightarrow> unit res \<times> 'w" where
  "Secret_Write A s cert key ca w =
    (if length cert = 0 \<or> length key = 0 then (Inl (ErrNew ''auth: cert and key are required''), w)
     else case sa_Get A (ss_namespace s) (ss_secretName s) w of
       (Inr existing, w) \<Rightarrow>
         (let base = [SecretKeyCert \<mapsto> cert, SecretKeyKey \<mapsto> key];
              data = (if length ca > 0 then base(SecretKeyCA \<mapsto> ca)
                      else if length (data_at existing SecretKeyCA) > 0
                      then base(SecretKeyCA \<mapsto> data_at existing SecretKeyCA) else base) in
          case sa_Update A (ss_namespace s) (ss_secretName s)
                 (existing\<lparr>se_Type := ''kubernetes.io/tls'', se_Data := data\<rparr>) w of
            (Inl e, w) \<Rightarrow> (Inl (ErrWrap ''update secret'' e), w)
          | (Inr _, w) \<Rightarrow> (Inr (), w))
     | (Inl e, w) \<Rightarrow>
        if IsNotFound A e then
          (let base = [SecretKeyCert \<mapsto> cert, SecretKeyKey \<mapsto> key];
               data = (if length ca > 0 then base(SecretKeyCA \<mapsto> ca) else base) in
           case sa_Create A (ss_namespace s) (ss_secretName s)
                  \<lparr>se_Type = ''kubernetes.io/tls'', se_Data = data, se_Annotations = no_prune\<rparr> w of
             (Inl e, w) \<Rightarrow> (Inl (ErrWrap ''create secret'' e), w)
           | (Inr _, w) \<Rightarrow> (Inr (), w))
        else (Inl (ErrWrap ''get secret'' e), w))"

end
