(* ===== verification/Flows.thy ===== *)
theory Flows
  imports Client
begin

text \<open>
  \<^verbatim>\<open>internal/auth/flows.go\<close>: enrolment and renewal. A \<^verbatim>\<open>Persister\<close> is a record of three operations on
  its own state \<open>'d\<close>; the locale \<open>persister\<close> is what every store promises and \<open>reliable_persister\<close> what
  the Secret store promises beyond the files. The flows are proved once in the locales and the results
  reach \<open>FilePersister\<close> and \<open>SecretStore\<close> by interpretation. Everything else outside the process is the
  record \<open>enrol_env\<close> over the world \<open>'w\<close>.
\<close>

section \<open>Persisters\<close>

record 'd Persister =
  ps_Exists :: "'d \<Rightarrow> bool res \<times> 'd"
  ps_Read :: "'d \<Rightarrow> (bytes \<times> bytes \<times> bytes) res \<times> 'd"
  ps_Write :: "bytes \<Rightarrow> bytes \<Rightarrow> bytes \<Rightarrow> 'd \<Rightarrow> unit res \<times> 'd"

definition File_Exists :: "CertMaterial \<Rightarrow> disk \<Rightarrow> bool res \<times> disk" where
  "File_Exists m d = (case Material_Exists m d of (b, d') \<Rightarrow> (Inr b, d'))"

definition File_Read :: "CertMaterial \<Rightarrow> disk \<Rightarrow> (bytes \<times> bytes \<times> bytes) res \<times> disk" where
  "File_Read m d =
    (case os_ReadFile (mt_CertFile m) d of
       (Inl e, d) \<Rightarrow> (Inl e, d)
     | (Inr cert, d) \<Rightarrow>
        (case os_ReadFile (mt_KeyFile m) d of
           (Inl e, d) \<Rightarrow> (Inl e, d)
         | (Inr key, d) \<Rightarrow>
            (case os_ReadFile (mt_CAFile m) d of
               (Inl e, d) \<Rightarrow> (Inr (cert, key, ''''), d)
             | (Inr data, d) \<Rightarrow> (Inr (cert, key, data), d))))"

definition File_Write :: "CertMaterial \<Rightarrow> bytes \<Rightarrow> bytes \<Rightarrow> bytes \<Rightarrow> disk \<Rightarrow> unit res \<times> disk" where
  "File_Write m cert key ca d = WriteMaterial m cert key ca d"

definition FilePersister :: "CertMaterial \<Rightarrow> disk Persister" where
  "FilePersister m = \<lparr>ps_Exists = File_Exists m, ps_Read = File_Read m, ps_Write = File_Write m\<rparr>"

definition SecretPersister :: "'w secrets_api \<Rightarrow> SecretStore \<Rightarrow> 'w Persister" where
  "SecretPersister A s = \<lparr>ps_Exists = Secret_Exists A s, ps_Read = Secret_Read A s, ps_Write = Secret_Write A s\<rparr>"

section \<open>Enrolment clients\<close>

record ('esk, 'w) enrolmentClient =
  en_Bootstrap :: "string \<Rightarrow> string \<Rightarrow> bytes \<Rightarrow> 'w \<Rightarrow> (bytes \<times> bytes) res outcome \<times> 'w"
  en_Renew :: "'esk tls_cert \<Rightarrow> bytes \<Rightarrow> 'w \<Rightarrow> (bytes \<times> bytes) res outcome \<times> 'w"

record ('esk, 'epk, 'pk, 'hsk, 'c, 'crt, 'pool, 'w) enrol_env =
  ee_transport :: "('esk, 'epk, 'pk, 'hsk, 'c, 'crt, 'pool, 'w) transport"
  ee_codec :: codec
  ee_grpc :: "('esk, 'pool, 'w) grpc_env"
  ee_csr :: "('esk, 'w) csr_lib"
  ee_urlParse :: "string \<Rightarrow> parsed_url res"
  ee_pool_of :: "bytes \<Rightarrow> 'pool option"
  ee_ReadFile :: "'w \<Rightarrow> string \<Rightarrow> bytes res"
  ee_CreateTemp :: "'w \<Rightarrow> string res \<times> 'w"
  ee_WriteTemp :: "string \<Rightarrow> bytes \<Rightarrow> 'w \<Rightarrow> unit res \<times> 'w"
  ee_Remove :: "string \<Rightarrow> 'w \<Rightarrow> 'w"
  ee_pem_Decode :: "bytes \<Rightarrow> bytes option"
  ee_NotAfter :: "bytes \<Rightarrow> int res"
  ee_X509KeyPair :: "bytes \<Rightarrow> bytes \<Rightarrow> 'esk tls_cert res"
  ee_now :: "'w \<Rightarrow> int"

text \<open>The clients live for one call, so their state is dropped with them.\<close>

definition signed_enrolment ::
    "('esk, 'epk, 'pk, 'hsk, 'c, 'crt, 'pool, 'w) transport \<Rightarrow> codec \<Rightarrow> ('pk, 'pool) SignedClient
     \<Rightarrow> ('esk, 'w) enrolmentClient" where
  "signed_enrolment T K c =
    \<lparr>en_Bootstrap = \<lambda>clusterID token csr w. case signed_Bootstrap T K c clusterID token csr w of (r, c', w') \<Rightarrow> (r, w'),
     en_Renew = \<lambda>cert csr w. case signed_Renew T K c cert csr w of (r, c', w') \<Rightarrow> (r, w')\<rparr>"

definition brain_enrolment :: "('esk, 'pool, 'w) grpc_env \<Rightarrow> 'pool BrainClient \<Rightarrow> ('esk, 'w) enrolmentClient" where
  "brain_enrolment G c = \<lparr>en_Bootstrap = brain_Bootstrap G c, en_Renew = brain_Renew G c\<rparr>"

definition newEnrolmentClient ::
    "('esk, 'epk, 'pk, 'hsk, 'c, 'crt, 'pool, 'w) enrol_env \<Rightarrow> 'w \<Rightarrow> string \<Rightarrow> string \<Rightarrow> string \<Rightarrow> string
     \<Rightarrow> ('esk, 'w) enrolmentClient res" where
  "newEnrolmentClient E w transport brainURL caFile edgeCAFile =
    (if transport = ''signed'' then
       map_sum id (signed_enrolment (ee_transport E) (ee_codec E))
         (NewSignedClient (tr_isPrint (ee_transport E)) (ee_urlParse E) (ee_ReadFile E w) (ee_pool_of E)
            brainURL caFile edgeCAFile)
     else
       map_sum id (brain_enrolment (ee_grpc E)) (NewBrainClient (ee_ReadFile E w) (ee_pool_of E) brainURL caFile))"

section \<open>Bootstrap\<close>

record 'd BootstrapFlow =
  bf_ClusterID :: string
  bf_TenantID :: string
  bf_BrainURL :: string
  bf_Transport :: string
  bf_EdgeCAFile :: string
  bf_BootstrapTokenFile :: string
  bf_VendorCAFile :: string
  bf_Persister :: "'d Persister option"

definition Bootstrap_Run ::
    "('esk, 'epk, 'pk, 'hsk, 'c, 'crt, 'pool, 'w) enrol_env \<Rightarrow> 'd BootstrapFlow \<Rightarrow> 'd \<Rightarrow> 'w
     \<Rightarrow> unit res outcome \<times> 'd \<times> 'w" where
  "Bootstrap_Run E b d w =
    (case bf_Persister b of
       None \<Rightarrow> (Done (Inl (ErrNew ''bootstrap: Persister is required'')), d, w)
     | Some P \<Rightarrow>
    if bf_ClusterID b = '''' \<or> bf_BrainURL b = ''''
    then (Done (Inl (ErrNew ''bootstrap: ClusterID and BrainURL are required'')), d, w)
    else case ps_Exists P d of
       (Inl e, d) \<Rightarrow> (Done (Inl (ErrWrap ''check existing cert'' e)), d, w)
     | (Inr already, d) \<Rightarrow>
    if already then (Done (Inr ()), d, w)
    else case ee_ReadFile E w (bf_BootstrapTokenFile b) of
       Inl e \<Rightarrow> (Done (Inl (ErrWrap ''read bootstrap token'' e)), d, w)
     | Inr tokenBytes \<Rightarrow>
    if TrimSpace tokenBytes = '''' then (Done (Inl (ErrNew ''bootstrap: token file is empty'')), d, w)
    else case GenerateCSR (ee_csr E) (bf_TenantID b) (bf_ClusterID b) w of
       (Inl e, w) \<Rightarrow> (Done (Inl (ErrWrap ''generate CSR'' e)), d, w)
     | (Inr (csrPEM, keyPEM), w) \<Rightarrow>
    (case newEnrolmentClient E w (bf_Transport b) (bf_BrainURL b) (bf_VendorCAFile b) (bf_EdgeCAFile b) of
       Inl e \<Rightarrow> (Done (Inl (ErrWrap ''brain client'' e)), d, w)
     | Inr client \<Rightarrow>
    (case en_Bootstrap client (bf_ClusterID b) (TrimSpace tokenBytes) csrPEM w of
       (Panic, w) \<Rightarrow> (Panic, d, w)
     | (Done (Inl e), w) \<Rightarrow> (Done (Inl (ErrWrap ''bootstrap call'' e)), d, w)
     | (Done (Inr (certPEM, caPEM)), w) \<Rightarrow>
    (case ps_Write P certPEM keyPEM caPEM d of
       (Inl e, d) \<Rightarrow> (Done (Inl (ErrWrap ''persist material'' e)), d, w)
     | (Inr _, d) \<Rightarrow> (Done (Inr ()), d, w)))))"

section \<open>Renewal\<close>

record ('d, 'w) RenewFlow =
  rf_ClusterID :: string
  rf_TenantID :: string
  rf_BrainURL :: string
  rf_Transport :: string
  rf_EdgeCAFile :: string
  rf_VendorCAFile :: string
  rf_Persister :: "'d Persister option"
  rf_RenewBefore :: int
  rf_Now :: "('w \<Rightarrow> int) option"

text \<open>\<^verbatim>\<open>NotAfter.Sub(now)\<close> saturates at the ends of \<^verbatim>\<open>time.Duration\<close>.\<close>

definition duration_sat :: "int \<Rightarrow> int" where
  "duration_sat x = max (- (2 ^ 63)) (min (2 ^ 63 - 1) x)"

definition certRemaining ::
    "(bytes \<Rightarrow> bytes option) \<Rightarrow> (bytes \<Rightarrow> int res) \<Rightarrow> bytes \<Rightarrow> int \<Rightarrow> int res" where
  "certRemaining pem_Decode notAfter certPEM t =
    (case pem_Decode certPEM of
       None \<Rightarrow> Inl (ErrNew ''no PEM block in cert'')
     | Some der \<Rightarrow>
        (case notAfter der of
           Inl e \<Rightarrow> Inl (ErrWrap ''parse cert'' e)
         | Inr t' \<Rightarrow> Inr (duration_sat (t' - t))))"

text \<open>Whether the run may stop early: the certificate could be read and has more than the threshold left.\<close>

definition still_fresh ::
    "('esk, 'epk, 'pk, 'hsk, 'c, 'crt, 'pool, 'w) enrol_env \<Rightarrow> ('d, 'w) RenewFlow \<Rightarrow> bytes \<Rightarrow> 'w \<Rightarrow> bool" where
  "still_fresh E r certPEM w =
    (if rf_RenewBefore r > 0 then
       (let t = (case rf_Now r of None \<Rightarrow> ee_now E w | Some f \<Rightarrow> f w) in
        case certRemaining (ee_pem_Decode E) (ee_NotAfter E) certPEM t of
          Inl e \<Rightarrow> False
        | Inr remaining \<Rightarrow> remaining > rf_RenewBefore r)
     else False)"

text \<open>The file the CA bundle is read from, and the temporary file to remove at the end, if any.\<close>

definition ca_file ::
    "('esk, 'epk, 'pk, 'hsk, 'c, 'crt, 'pool, 'w) enrol_env \<Rightarrow> string \<Rightarrow> bytes \<Rightarrow> 'w
     \<Rightarrow> string res \<times> string option \<times> 'w" where
  "ca_file E vendorCAFile caPEM w =
    (if vendorCAFile \<noteq> '''' then (Inr vendorCAFile, None, w)
     else case ee_CreateTemp E w of
       (Inl e, w) \<Rightarrow> (Inl (ErrWrap ''temp CA file'' e), None, w)
     | (Inr tmp, w) \<Rightarrow>
        (case ee_WriteTemp E tmp caPEM w of
           (Inl e, w) \<Rightarrow> (Inl (ErrWrap ''write temp CA'' e), Some tmp, w)
         | (Inr _, w) \<Rightarrow> (Inr tmp, Some tmp, w)))"

definition remove_temp ::
    "('esk, 'epk, 'pk, 'hsk, 'c, 'crt, 'pool, 'w) enrol_env \<Rightarrow> string option \<Rightarrow> 'w \<Rightarrow> 'w" where
  "remove_temp E tmp w = (case tmp of None \<Rightarrow> w | Some p \<Rightarrow> ee_Remove E p w)"

definition Renew_Run ::
    "('esk, 'epk, 'pk, 'hsk, 'c, 'crt, 'pool, 'w) enrol_env \<Rightarrow> ('d, 'w) RenewFlow \<Rightarrow> 'd \<Rightarrow> 'w
     \<Rightarrow> unit res outcome \<times> 'd \<times> 'w" where
  "Renew_Run E r d w =
    (case rf_Persister r of
       None \<Rightarrow> (Done (Inl (ErrNew ''renew: Persister is required'')), d, w)
     | Some P \<Rightarrow>
    if rf_ClusterID r = '''' \<or> rf_BrainURL r = ''''
    then (Done (Inl (ErrNew ''renew: ClusterID and BrainURL are required'')), d, w)
    else case ps_Exists P d of
       (Inl e, d) \<Rightarrow> (Done (Inl (ErrWrap ''check existing cert'' e)), d, w)
     | (Inr exists, d) \<Rightarrow>
    if \<not> exists then (Done (Inl (ErrNew ''renew: no existing cert; bootstrap must run first'')), d, w)
    else case ps_Read P d of
       (Inl e, d) \<Rightarrow> (Done (Inl (ErrWrap ''read current cert'' e)), d, w)
     | (Inr (certPEM, keyPEM, caPEM), d) \<Rightarrow>
    if still_fresh E r certPEM w then (Done (Inr ()), d, w)
    else case ee_X509KeyPair E certPEM keyPEM of
       Inl e \<Rightarrow> (Done (Inl (ErrWrap ''parse current keypair'' e)), d, w)
     | Inr clientCert \<Rightarrow>
    (case GenerateCSR (ee_csr E) (rf_TenantID r) (rf_ClusterID r) w of
       (Inl e, w) \<Rightarrow> (Done (Inl (ErrWrap ''generate CSR'' e)), d, w)
     | (Inr (csrPEM, newKeyPEM), w) \<Rightarrow>
    (case ca_file E (rf_VendorCAFile r) caPEM w of
       (Inl e, tmp, w) \<Rightarrow> (Done (Inl e), d, remove_temp E tmp w)
     | (Inr caFile, tmp, w) \<Rightarrow>
    (case newEnrolmentClient E w (rf_Transport r) (rf_BrainURL r) caFile (rf_EdgeCAFile r) of
       Inl e \<Rightarrow> (Done (Inl (ErrWrap ''brain client'' e)), d, remove_temp E tmp w)
     | Inr client \<Rightarrow>
    (case en_Renew client clientCert csrPEM w of
       (Panic, w) \<Rightarrow> (Panic, d, remove_temp E tmp w)
     | (Done (Inl e), w) \<Rightarrow> (Done (Inl (ErrWrap ''renew call'' e)), d, remove_temp E tmp w)
     | (Done (Inr (newCertPEM, newCAPEM)), w) \<Rightarrow>
    (case ps_Write P newCertPEM newKeyPEM newCAPEM d of
       (Inl e, d) \<Rightarrow> (Done (Inl (ErrWrap ''persist material'' e)), d, remove_temp E tmp w)
     | (Inr _, d) \<Rightarrow> (Done (Inr ()), d, remove_temp E tmp w)))))))"

section \<open>Interfaces\<close>

text \<open>What every store promises about the pair it holds, as far as what it stands on can be \<open>trusted\<close>:
  looking does not change it, what is found is there, and a successful write installs the pair.\<close>

locale persister =
  fixes P :: "'d Persister"
    and stored :: "'d \<Rightarrow> (bytes \<times> bytes) option"
    and trusted :: bool
  assumes exists_keeps: "trusted \<Longrightarrow> ps_Exists P d = (b, d') \<Longrightarrow> stored d' = stored d"
    and exists_true: "trusted \<Longrightarrow> ps_Exists P d = (Inr True, d') \<Longrightarrow> stored d \<noteq> None"
    and read_keeps: "trusted \<Longrightarrow> ps_Read P d = (x, d') \<Longrightarrow> stored d' = stored d"
    and read_value: "trusted \<Longrightarrow> ps_Read P d = (Inr (c, k, a), d') \<Longrightarrow> stored d \<noteq> None \<Longrightarrow> stored d = Some (c, k)"
    and write_ok: "trusted \<Longrightarrow> ps_Write P c k a d = (Inr (), d') \<Longrightarrow> stored d' = Some (c, k)"
begin

lemma bootstrap_installs:
  assumes "trusted" "bf_Persister b = Some P" "Bootstrap_Run E b d w = (Done (Inr ()), d', w')"
  shows "stored d' \<noteq> None"
proof -
  obtain x d1 where e: "ps_Exists P d = (x, d1)" by fastforce
  show ?thesis
  proof (cases "x = Inr True")
    case True
    then show ?thesis using assms e exists_keeps[OF assms(1) e] exists_true[OF assms(1), of d d1]
      by (auto simp: Bootstrap_Run_def split: if_splits)
  next
    case False
    then obtain c k a where "ps_Write P c k a d1 = (Inr (), d')"
      using assms(2,3) e
      by (auto simp: Bootstrap_Run_def split: if_splits sum.splits prod.splits outcome.splits)
    then show ?thesis using write_ok[OF assms(1)] by auto
  qed
qed

lemma renew_outcome:
  assumes "trusted" "rf_Persister r = Some P" "Renew_Run E r d w = (Done (Inr ()), d', w')"
  shows "stored d \<noteq> None \<and> (stored d' = stored d
    \<or> (\<exists>cert key csr w1. GenerateCSR (ee_csr E) (rf_TenantID r) (rf_ClusterID r) w = (Inr (csr, key), w1)
        \<and> stored d' = Some (cert, key)))"
proof -
  obtain x d1 where e: "ps_Exists P d = (x, d1)" by fastforce
  have x: "x = Inr True" using assms(2,3) e by (auto simp: Renew_Run_def split: if_splits sum.splits)
  obtain y d2 where rd: "ps_Read P d1 = (y, d2)" by fastforce
  obtain c k a where y: "y = Inr (c, k, a)"
    using assms(2,3) e x rd by (cases y) (auto simp: Renew_Run_def split: if_splits)
  have d2: "stored d2 = stored d" using exists_keeps[OF assms(1) e] read_keeps[OF assms(1) rd] by simp
  have d: "stored d \<noteq> None" using exists_true[OF assms(1)] e x by blast
  show ?thesis
  proof (cases "still_fresh E r c w")
    case True
    then have "d' = d2" using assms(2,3) e x rd y by (auto simp: Renew_Run_def split: if_splits)
    then show ?thesis using d d2 by simp
  next
    case False
    then obtain cert key ca csr w1 where "GenerateCSR (ee_csr E) (rf_TenantID r) (rf_ClusterID r) w = (Inr (csr, key), w1)"
      "ps_Write P cert key ca d2 = (Inr (), d')"
      using assms(2,3) e x rd y
      by (auto simp: Renew_Run_def split: if_splits sum.splits prod.splits outcome.splits)
    then show ?thesis using d write_ok[OF assms(1)] by blast
  qed
qed

end

text \<open>A store that also says truthfully that it is empty, and that a failed write leaves alone.\<close>

locale reliable_persister = persister +
  assumes exists_false: "trusted \<Longrightarrow> ps_Exists P d = (Inr False, d') \<Longrightarrow> stored d = None"
    and write_err: "trusted \<Longrightarrow> ps_Write P c k a d = (Inl e, d') \<Longrightarrow> stored d' = stored d"
begin

lemma bootstrap_idempotent:
  assumes "trusted" "bf_Persister b = Some P" "stored d \<noteq> None" "Bootstrap_Run E b d w = (x, d', w')"
  shows "w' = w \<and> stored d' = stored d \<and> x \<noteq> Panic"
proof -
  obtain y d1 where e: "ps_Exists P d = (y, d1)" by fastforce
  have "y \<noteq> Inr False" using exists_false[OF assms(1), of d d1] e assms(3) by auto
  then show ?thesis using assms(2,4) e exists_keeps[OF assms(1) e]
    by (auto simp: Bootstrap_Run_def split: if_splits sum.splits)
qed

lemma renew_keeps:
  assumes "trusted" "rf_Persister r = Some P" "Renew_Run E r d w = (x, d', w')" "x \<noteq> Done (Inr ())"
  shows "stored d' = stored d"
proof -
  obtain y d1 where e: "ps_Exists P d = (y, d1)" by fastforce
  obtain z d2 where rd: "ps_Read P d1 = (z, d2)" by fastforce
  have k: "stored d1 = stored d" "stored d2 = stored d"
    using exists_keeps[OF assms(1) e] read_keeps[OF assms(1) rd] by auto
  have "d' \<in> {d, d1, d2} \<or> (\<exists>c k a e. ps_Write P c k a d2 = (Inl e, d'))"
    using assms(2,3,4) e rd
    by (auto simp: Renew_Run_def split: if_splits sum.splits prod.splits outcome.splits)
  then show ?thesis using k write_err[OF assms(1)] by auto
qed

end

section \<open>The stores\<close>

text \<open>The pair on disk, and the pair in the Secret that \<open>view\<close> finds in the cluster's state.\<close>

definition file_pair :: "CertMaterial \<Rightarrow> disk \<Rightarrow> (bytes \<times> bytes) option" where
  "file_pair m d =
    (case (dk_files d (mt_CertFile m), dk_files d (mt_KeyFile m)) of
       (Some c, Some k) \<Rightarrow> Some (fl_bytes c, fl_bytes k) | _ \<Rightarrow> None)"

definition secret_pair :: "('w \<Rightarrow> secret option) \<Rightarrow> 'w \<Rightarrow> (bytes \<times> bytes) option" where
  "secret_pair view w =
    (case view w of None \<Rightarrow> None
     | Some s \<Rightarrow> if data_at s SecretKeyCert \<noteq> '''' \<and> data_at s SecretKeyKey \<noteq> ''''
                then Some (data_at s SecretKeyCert, data_at s SecretKeyKey) else None)"

text \<open>What the Kubernetes API documents: reading returns the stored object or says it is absent, a write
  that succeeds stores the object and one that is refused does not.\<close>

definition lawful_api :: "'w secrets_api \<Rightarrow> SecretStore \<Rightarrow> ('w \<Rightarrow> secret option) \<Rightarrow> bool" where
  "lawful_api A s view =
    ((\<forall>w r w'. sa_Get A (ss_namespace s) (ss_secretName s) w = (r, w') \<longrightarrow> view w' = view w
        \<and> (\<forall>x. r = Inr x \<longrightarrow> view w = Some x) \<and> (\<forall>e. r = Inl e \<longrightarrow> IsNotFound A e \<longrightarrow> view w = None))
     \<and> (\<forall>x w r w'. sa_Update A (ss_namespace s) (ss_secretName s) x w = (r, w') \<longrightarrow>
          view w' = (if r = Inr () then Some x else view w))
     \<and> (\<forall>x w r w'. sa_Create A (ss_namespace s) (ss_secretName s) x w = (r, w') \<longrightarrow>
          view w' = (if r = Inr () then Some x else view w)))"

lemma lawful_Get:
  assumes "lawful_api A s view" "sa_Get A (ss_namespace s) (ss_secretName s) w = (r, w')"
  shows "view w' = view w" "r = Inr x \<Longrightarrow> view w = Some x" "r = Inl e \<Longrightarrow> IsNotFound A e \<Longrightarrow> view w = None"
  using assms unfolding lawful_api_def by blast+

lemma lawful_Put:
  assumes "lawful_api A s view"
  shows "sa_Update A (ss_namespace s) (ss_secretName s) x w = (r, w') \<Longrightarrow> view w' = (if r = Inr () then Some x else view w)"
    "sa_Create A (ss_namespace s) (ss_secretName s) x w = (r, w') \<Longrightarrow> view w' = (if r = Inr () then Some x else view w)"
  using assms unfolding lawful_api_def by blast+

lemma Secret_Exists_spec:
  assumes "lawful_api A s view" "Secret_Exists A s w = (r, w')"
  shows "view w' = view w \<and> (\<forall>b. r = Inr b \<longrightarrow> b = (secret_pair view w \<noteq> None))"
proof -
  obtain x w1 where g: "sa_Get A (ss_namespace s) (ss_secretName s) w = (x, w1)" by fastforce
  show ?thesis using lawful_Get[OF assms(1) g] assms(2) g
    by (cases x) (auto simp: Secret_Exists_def secret_pair_def split: if_splits option.splits)
qed

lemma Secret_Read_spec:
  assumes "lawful_api A s view" "Secret_Read A s w = (r, w')"
  shows "view w' = view w \<and> (\<forall>c k a. r = Inr (c, k, a) \<longrightarrow> secret_pair view w \<noteq> None \<longrightarrow> secret_pair view w = Some (c, k))"
proof -
  obtain x w1 where g: "sa_Get A (ss_namespace s) (ss_secretName s) w = (x, w1)" by fastforce
  show ?thesis using lawful_Get[OF assms(1) g] assms(2) g
    by (cases x) (auto simp: Secret_Read_def secret_pair_def split: if_splits option.splits)
qed

lemma Secret_Write_spec:
  assumes "lawful_api A s view" "Secret_Write A s c k a w = (r, w')"
  shows "secret_pair view w' = (if r = Inr () then Some (c, k) else secret_pair view w)"
proof -
  obtain x w1 where g: "sa_Get A (ss_namespace s) (ss_secretName s) w = (x, w1)" by fastforce
  note G = lawful_Get(1)[OF assms(1) g]
  have view: "(c \<noteq> '''' \<and> k \<noteq> '''' \<and> r = Inr () \<and> (\<exists>y. view w' = Some y \<and> data_at y SecretKeyCert = c \<and> data_at y SecretKeyKey = k))
      \<or> (r \<noteq> Inr () \<and> view w' = view w)"
  proof (cases "c = '''' \<or> k = ''''")
    case False
    show ?thesis
    proof (cases x)
      case (Inr ex)
      obtain y q w2 where u: "sa_Update A (ss_namespace s) (ss_secretName s) y w1 = (q, w2)"
        "data_at y SecretKeyCert = c" "data_at y SecretKeyKey = k" "w' = w2" "r = Inr () \<longleftrightarrow> q = Inr ()"
        using assms(2) g Inr False
        by (auto simp: Secret_Write_def Let_def data_at_def SecretKeyCert_def SecretKeyKey_def SecretKeyCA_def
            split: prod.splits sum.splits if_splits)
      then show ?thesis using lawful_Put(1)[OF assms(1) u(1)] G False by auto
    next
      case (Inl e)
      show ?thesis
      proof (cases "IsNotFound A e")
        case True
        obtain y q w2 where u: "sa_Create A (ss_namespace s) (ss_secretName s) y w1 = (q, w2)"
          "data_at y SecretKeyCert = c" "data_at y SecretKeyKey = k" "w' = w2" "r = Inr () \<longleftrightarrow> q = Inr ()"
          using assms(2) g Inl True False
          by (auto simp: Secret_Write_def Let_def data_at_def SecretKeyCert_def SecretKeyKey_def SecretKeyCA_def
              split: prod.splits sum.splits if_splits)
        then show ?thesis using lawful_Put(2)[OF assms(1) u(1)] G False by auto
      next
        case notfound: False
        then show ?thesis using assms(2) g Inl False G by (auto simp: Secret_Write_def)
      qed
    qed
  qed (use assms(2) in \<open>auto simp: Secret_Write_def\<close>)
  then show ?thesis by (auto simp: secret_pair_def)
qed

interpretation sp: reliable_persister "SecretPersister A s" "secret_pair view" "lawful_api A s view"
  for A :: "'w secrets_api" and s view
proof (unfold_locales, goal_cases)
  case (1 d b d')
  then show ?case using Secret_Exists_spec[of A s view d b d'] by (simp add: SecretPersister_def secret_pair_def)
next
  case (2 d d')
  then show ?case using Secret_Exists_spec[of A s view d "Inr True" d'] by (auto simp: SecretPersister_def)
next
  case (3 d x d')
  then show ?case using Secret_Read_spec[of A s view d x d'] by (simp add: SecretPersister_def secret_pair_def)
next
  case (4 d c k a d')
  then show ?case using Secret_Read_spec[of A s view d "Inr (c, k, a)" d'] by (simp add: SecretPersister_def)
next
  case (5 c k a d d')
  then show ?case using Secret_Write_spec[of A s view c k a d "Inr ()" d'] by (simp add: SecretPersister_def)
next
  case (6 d d')
  then show ?case using Secret_Exists_spec[of A s view d "Inr False" d']
    by (cases "secret_pair view d") (auto simp: SecretPersister_def)
next
  case (7 c k a d e d')
  then show ?case using Secret_Write_spec[of A s view c k a d "Inl e" d'] by (simp add: SecretPersister_def)
qed

lemma looking_keeps_files:
  "os_Stat_file p d = (r, d') \<Longrightarrow> dk_files d' = dk_files d \<and> (r = Inr () \<longrightarrow> dk_files d p \<noteq> None)"
  "os_ReadFile p d = (x, d') \<Longrightarrow> dk_files d' = dk_files d \<and> (\<forall>b. x = Inr b \<longrightarrow> (\<exists>f. dk_files d p = Some f \<and> fl_bytes f = b))"
  by (auto simp: os_Stat_file_def os_ReadFile_def split: if_splits option.splits)

lemma File_Exists_spec:
  "File_Exists m d = (r, d') \<Longrightarrow> dk_files d' = dk_files d \<and> (r = Inr True \<longrightarrow> file_pair m d \<noteq> None)"
  by (auto simp: File_Exists_def Material_Exists_def file_pair_def dest!: looking_keeps_files(1)
      split: prod.splits sum.splits)

lemma File_Read_spec:
  "File_Read m d = (r, d') \<Longrightarrow> dk_files d' = dk_files d \<and> (\<forall>c k a. r = Inr (c, k, a) \<longrightarrow> file_pair m d = Some (c, k))"
  by (auto simp: File_Read_def file_pair_def dest!: looking_keeps_files(2) split: prod.splits sum.splits)

interpretation fp: persister "FilePersister (NewMaterial dir)" "file_pair (NewMaterial dir)" True for dir
proof (unfold_locales, goal_cases)
  case (1 d b d')
  then show ?case using File_Exists_spec[of "NewMaterial dir" d b d'] by (simp add: FilePersister_def file_pair_def)
next
  case (2 d d')
  then show ?case using File_Exists_spec[of "NewMaterial dir" d "Inr True" d'] by (simp add: FilePersister_def)
next
  case (3 d x d')
  then show ?case using File_Read_spec[of "NewMaterial dir" d x d'] by (simp add: FilePersister_def file_pair_def)
next
  case (4 d c k a d')
  then show ?case using File_Read_spec[of "NewMaterial dir" d "Inr (c, k, a)" d'] by (simp add: FilePersister_def)
next
  case (5 c k a d d')
  then show ?case using WriteMaterial_ok[of dir c k a d d']
    by (simp add: FilePersister_def File_Write_def file_pair_def installed_def Let_def)
qed

section \<open>Properties\<close>

text \<open>A cluster that is one optional Secret, and an environment in which nothing answers: enough to run the
  flows as far as the properties go.\<close>

definition demo_api :: "secret option secrets_api" where
  "demo_api = \<lparr>InClusterConfig = Inr (), NewForConfig = Inr (),
     sa_Get = \<lambda>ns n w. (case w of None \<Rightarrow> Inl (ErrExt ''not found'') | Some x \<Rightarrow> Inr x, w),
     sa_Update = \<lambda>ns n x w. (Inr (), Some x), sa_Create = \<lambda>ns n x w. (Inr (), Some x),
     IsNotFound = \<lambda>e. e = ErrExt ''not found''\<rparr>"

definition demo_store :: SecretStore where
  "demo_store = \<lparr>ss_namespace = ''ns'', ss_secretName = ''tls''\<rparr>"

definition demo_secret :: "bytes \<Rightarrow> secret" where
  "demo_secret cert = \<lparr>se_Type = ''kubernetes.io/tls'', se_Data = [SecretKeyCert \<mapsto> cert, SecretKeyKey \<mapsto> ''K''],
     se_Annotations = no_prune\<rparr>"

lemma demo_api_lawful: "lawful_api demo_api demo_store id"
  by (auto simp: lawful_api_def demo_api_def split: option.splits)

definition demo_enrol :: "(nat, nat, nat, nat, bytes, unit, unit, nat) enrol_env" where
  "demo_enrol = \<lparr>ee_transport = demo_transport,
     ee_codec = \<lparr>marshal_AlertPayload = \<lambda>_. Inr '''', marshal_BootstrapRequest = \<lambda>_. Inr '''', marshal_SignCSRRequest = \<lambda>_. Inr '''',
       unmarshal_IngestResponse = \<lambda>_. Inr (), unmarshal_BootstrapResponse = \<lambda>_. Inl (ErrExt ''bad''),
       unmarshal_SignCSRResponse = \<lambda>_. Inl (ErrExt ''bad'')\<rparr>,
     ee_grpc = \<lparr>gr_dial = \<lambda>_. Inr (), gr_BootstrapCert = \<lambda>_ _ _ _ w. (Inl (ErrGRPC 14 ''down''), Suc w),
       gr_SignCSR = \<lambda>_ _ _ _ _ w. (Inl (ErrGRPC 14 ''down''), Suc w), gr_now = \<lambda>_. 0, gr_rand = \<lambda>n w. (Some ''r'', w)\<rparr>,
     ee_csr = \<lparr>ecdsa_GenerateKey = \<lambda>w. (Inr 7, w), parse_uri = \<lambda>u. Inr u, CreateCertificateRequest = \<lambda>_ _ w. (Inr ''csr'', w),
       MarshalPKCS8PrivateKey = \<lambda>_. Inr ''key'', pem_EncodeToMemory = \<lambda>t b. b\<rparr>,
     ee_urlParse = \<lambda>_. Inl (ErrExt ''bad''), ee_pool_of = \<lambda>_. Some (), ee_ReadFile = \<lambda>_ _. Inr ''token'',
     ee_CreateTemp = \<lambda>w. (Inr ''/tmp/ca'', w), ee_WriteTemp = \<lambda>_ _ w. (Inr (), w), ee_Remove = \<lambda>_ w. w,
     ee_pem_Decode = \<lambda>b. if b = ''C'' then Some ''der'' else None, ee_NotAfter = \<lambda>_. Inr 100,
     ee_X509KeyPair = \<lambda>c k. if c = ''C'' then Inr \<lparr>tc_Certificate = [''der''], tc_PrivateKey = EcdsaKey 1\<rparr> else Inl (ErrExt ''no PEM data''),
     ee_now = \<lambda>_. 0\<rparr>"

definition demo_bootstrap :: "secret option BootstrapFlow" where
  "demo_bootstrap = \<lparr>bf_ClusterID = ''c1'', bf_TenantID = '''', bf_BrainURL = ''brain:443'', bf_Transport = ''mtls'',
     bf_EdgeCAFile = '''', bf_BootstrapTokenFile = ''t'', bf_VendorCAFile = ''v'',
     bf_Persister = Some (SecretPersister demo_api demo_store)\<rparr>"

definition demo_renew :: "(secret option, nat) RenewFlow" where
  "demo_renew = \<lparr>rf_ClusterID = ''c1'', rf_TenantID = '''', rf_BrainURL = ''brain:443'', rf_Transport = ''mtls'',
     rf_EdgeCAFile = '''', rf_VendorCAFile = ''v'', rf_Persister = Some (SecretPersister demo_api demo_store),
     rf_RenewBefore = 200, rf_Now = None\<rparr>"

text \<open>Bootstrap is idempotent on the Secret store. When a pair is stored, a run of the flow changes
  neither the pair nor anything outside: no token is read, no key generated, the brain is not contacted
  and no bootstrap token is used up, whether the check succeeds or the API is unavailable.\<close>

theorem Bootstrap_idempotent:
  assumes "lawful_api A s view" "bf_Persister b = Some (SecretPersister A s)" "secret_pair view d \<noteq> None"
    and "Bootstrap_Run E b d w = (x, d', w')"
  shows "w' = w \<and> secret_pair view d' = secret_pair view d \<and> x \<noteq> Panic"
  by (rule sp.bootstrap_idempotent[OF assms])

theorem Bootstrap_idempotent_witness:
  "Bootstrap_Run demo_enrol demo_bootstrap (Some (demo_secret ''C'')) 5 = (Done (Inr ()), Some (demo_secret ''C''), 5)
   \<and> snd (snd (Bootstrap_Run demo_enrol demo_bootstrap None 5)) = 6"
proof -
  have p: "secret_pair id (Some (demo_secret ''C'')) \<noteq> None" "bf_Persister demo_bootstrap = Some (SecretPersister demo_api demo_store)"
    by (simp_all add: secret_pair_def demo_secret_def data_at_def SecretKeyCert_def SecretKeyKey_def demo_bootstrap_def)
  have "fst (Bootstrap_Run demo_enrol demo_bootstrap (Some (demo_secret ''C'')) 5) = Done (Inr ())"
    "fst (snd (Bootstrap_Run demo_enrol demo_bootstrap (Some (demo_secret ''C'')) 5)) = Some (demo_secret ''C'')"
    by (simp_all add: Bootstrap_Run_def demo_bootstrap_def SecretPersister_def Secret_Exists_def demo_api_def demo_secret_def
        data_at_def SecretKeyCert_def SecretKeyKey_def)
  moreover have "snd (snd (Bootstrap_Run demo_enrol demo_bootstrap (Some (demo_secret ''C'')) 5)) = 5"
    using Bootstrap_idempotent[OF demo_api_lawful p(2,1), of demo_enrol 5] by (metis prod.collapse)
  moreover have "TrimSpace ''token'' = ''token''" by code_simp
  then have "snd (snd (Bootstrap_Run demo_enrol demo_bootstrap None 5)) = 6"
    by (simp add: Bootstrap_Run_def demo_bootstrap_def SecretPersister_def Secret_Exists_def demo_api_def demo_enrol_def
        GenerateCSR_def newEnrolmentClient_def NewBrainClient_def brain_enrolment_def brain_Bootstrap_def stampReplay_def
        FreshNonce_def)
  ultimately show ?thesis by (metis prod.collapse)
qed



text \<open>C40: a stored certificate without any PEM data is never replaced by the renewal. The flow goes past
  the check of the remaining validity, but needs the stored pair as its client certificate; as
  \<^verbatim>\<open>tls.X509KeyPair\<close> refuses a certificate without PEM data, the run ends with an error before the
  brain is contacted, every time.\<close>

theorem Renew_corrupt_stranded:
  assumes "\<forall>c k. ee_pem_Decode E c = None \<longrightarrow> (\<exists>e. ee_X509KeyPair E c k = Inl e)"
    and "rf_Persister r = Some P" "rf_ClusterID r \<noteq> ''''" "rf_BrainURL r \<noteq> ''''"
    and "ps_Exists P d = (Inr True, d1)" "ps_Read P d1 = (Inr (c, k, a), d2)" "ee_pem_Decode E c = None"
  shows "\<exists>e. Renew_Run E r d w = (Done (Inl (ErrWrap ''parse current keypair'' e)), d2, w)"
proof -
  obtain e where "ee_X509KeyPair E c k = Inl e" using assms(1,7) by blast
  moreover have "\<not> still_fresh E r c w" using assms(7) by (simp add: still_fresh_def certRemaining_def)
  ultimately show ?thesis using assms by (simp add: Renew_Run_def)
qed

theorem Renew_corrupt_stranded_witness:
  "\<exists>e. Renew_Run demo_enrol demo_renew (Some (demo_secret ''junk'')) 5
     = (Done (Inl (ErrWrap ''parse current keypair'' e)), Some (demo_secret ''junk''), 5)"
proof (rule Renew_corrupt_stranded[where P = "SecretPersister demo_api demo_store" and c = "''junk''" and k = "''K''" and a = "''''"
      and ?d1.0 = "Some (demo_secret ''junk'')"])
  show "\<forall>c k. ee_pem_Decode demo_enrol c = None \<longrightarrow> (\<exists>e. ee_X509KeyPair demo_enrol c k = Inl e)"
    by (simp add: demo_enrol_def)
qed (simp_all add: demo_renew_def demo_enrol_def SecretPersister_def Secret_Exists_def Secret_Read_def demo_api_def demo_secret_def
      data_at_def SecretKeyCert_def SecretKeyKey_def SecretKeyCA_def)

end
