(* ===== verification/Config.thy ===== *)
theory Config
  imports GoFormat
begin

text \<open>
  \<^verbatim>\<open>internal/config\<close>: the configuration read from the environment. The environment is a function that
  gives the empty string for an unset variable, as \<^verbatim>\<open>os.Getenv\<close> does; \<open>parseDuration\<close> is
  \<^verbatim>\<open>time.ParseDuration\<close>, in nanoseconds. Errors of the number and boolean parsers are ignored by the
  code, so the value is what the parser returns beside the error.
\<close>

definition AuthModeMTLS :: string where "AuthModeMTLS = ''mtls''"
definition AuthModeSigned :: string where "AuthModeSigned = ''signed''"

record Config =
  cf_ClusterID :: string
  cf_TenantID :: string
  cf_CentralAgentURL :: string
  cf_AuthMode :: string
  cf_SignedEdgeCAFile :: string
  cf_LokiEnabled :: bool
  cf_LokiURL :: string
  cf_LokiLookbackMinutes :: int
  cf_LokiMaxLogLines :: int
  cf_PrometheusURL :: string
  cf_PrometheusLookbackMin :: int
  cf_PrometheusEnabled :: bool
  cf_GrafanaBaseURL :: string
  cf_RedactExtraPatterns :: string
  cf_RedactLogStats :: bool
  cf_RedactMaxLineBytes :: int
  cf_RedactMaxTotalBytes :: int
  cf_RedactMaxStringBytes :: int
  cf_WebhookMaxConcurrent :: int
  cf_Port :: string
  cf_LogLevel :: string
  cf_CertDir :: string
  cf_BootstrapTokenFile :: string
  cf_VendorCAFile :: string
  cf_CertSecretName :: string
  cf_Namespace :: string
  cf_RenewBefore :: int

definition envOr :: "(string \<Rightarrow> string) \<Rightarrow> string \<Rightarrow> string \<Rightarrow> string" where
  "envOr env key fallback = (if env key \<noteq> '''' then env key else fallback)"

definition Atoi_value :: "string \<Rightarrow> int" where
  "Atoi_value s = fst (ParseInt s)"

definition ParseBool_value :: "string \<Rightarrow> bool" where
  "ParseBool_value s = (ParseBool s = Some True)"

definition Load :: "(nat \<Rightarrow> bool) \<Rightarrow> (string \<Rightarrow> int res) \<Rightarrow> (string \<Rightarrow> string) \<Rightarrow> Config res" where
  "Load isPrint parseDuration env =
    (let renewBeforeRaw = envOr env ''RENEW_BEFORE'' ''48h'' in
     case parseDuration renewBeforeRaw of
       Inl e \<Rightarrow> Inl (ErrWrap (''parse RENEW_BEFORE '' @ Quote isPrint renewBeforeRaw) e)
     | Inr renewBefore \<Rightarrow>
        (let cfg =
          \<lparr>cf_ClusterID = env ''CLUSTER_ID'',
           cf_TenantID = env ''TENANT_ID'',
           cf_CentralAgentURL = env ''CENTRAL_AGENT_URL'',
           cf_AuthMode = envOr env ''AUTH_MODE'' AuthModeMTLS,
           cf_SignedEdgeCAFile = env ''SIGNED_TLS_CA_FILE'',
           cf_LokiEnabled = ParseBool_value (envOr env ''LOKI_ENABLED'' ''true''),
           cf_LokiURL = envOr env ''LOKI_URL'' ''http://loki.monitoring.svc:3100'',
           cf_LokiLookbackMinutes = Atoi_value (envOr env ''LOKI_LOOKBACK_MINUTES'' ''15''),
           cf_LokiMaxLogLines = Atoi_value (envOr env ''LOKI_MAX_LOG_LINES'' ''200''),
           cf_PrometheusURL = envOr env ''PROMETHEUS_URL'' ''http://prometheus.monitoring.svc:9090'',
           cf_PrometheusLookbackMin = Atoi_value (envOr env ''PROMETHEUS_LOOKBACK_MINUTES'' ''30''),
           cf_PrometheusEnabled = ParseBool_value (envOr env ''PROMETHEUS_ENABLED'' ''true''),
           cf_GrafanaBaseURL = env ''GRAFANA_BASE_URL'',
           cf_RedactExtraPatterns = env ''REDACT_EXTRA_PATTERNS'',
           cf_RedactLogStats = ParseBool_value (envOr env ''REDACT_LOG_STATS'' ''true''),
           cf_RedactMaxLineBytes = Atoi_value (envOr env ''REDACT_MAX_LINE_BYTES'' ''8192''),
           cf_RedactMaxTotalBytes = Atoi_value (envOr env ''REDACT_MAX_TOTAL_BYTES'' ''262144''),
           cf_RedactMaxStringBytes = Atoi_value (envOr env ''REDACT_MAX_STRING_BYTES'' ''16384''),
           cf_WebhookMaxConcurrent = Atoi_value (envOr env ''WEBHOOK_MAX_CONCURRENT'' ''50''),
           cf_Port = envOr env ''PORT'' ''8080'',
           cf_LogLevel = envOr env ''LOG_LEVEL'' ''info'',
           cf_CertDir = envOr env ''CERT_DIR'' ''/secrets/tls/collector'',
           cf_BootstrapTokenFile = envOr env ''BOOTSTRAP_TOKEN_FILE'' ''/secrets/bootstrap/token'',
           cf_VendorCAFile = envOr env ''VENDOR_CA_FILE'' ''/secrets/vendor-ca/ca.crt'',
           cf_CertSecretName = env ''CERT_SECRET_NAME'',
           cf_Namespace = env ''POD_NAMESPACE'',
           cf_RenewBefore = renewBefore\<rparr> in
         if cf_ClusterID cfg = '''' then Inl (ErrNew ''CLUSTER_ID is required'')
         else if cf_CentralAgentURL cfg = '''' then Inl (ErrNew ''CENTRAL_AGENT_URL is required'')
         else if cf_AuthMode cfg = AuthModeMTLS \<or> cf_AuthMode cfg = AuthModeSigned then Inr cfg
         else Inl (ErrNew (''unknown AUTH_MODE '' @ Quote isPrint (cf_AuthMode cfg) @ '' (want mtls or signed)''))))"

definition CACertFile :: "Config \<Rightarrow> string" where "CACertFile c = cf_CertDir c @ ''/ca.crt''"
definition CertFile :: "Config \<Rightarrow> string" where "CertFile c = cf_CertDir c @ ''/tls.crt''"
definition KeyFile :: "Config \<Rightarrow> string" where "KeyFile c = cf_CertDir c @ ''/tls.key''"

section \<open>Facts\<close>

lemma Load_ok:
  assumes "Load isPrint parseDuration env = Inr c"
  shows "cf_ClusterID c \<noteq> ''''" "cf_CentralAgentURL c \<noteq> ''''" "cf_AuthMode c \<in> {AuthModeMTLS, AuthModeSigned}"
    "cf_LokiMaxLogLines c = Atoi_value (envOr env ''LOKI_MAX_LOG_LINES'' ''200'')"
    "parseDuration (envOr env ''RENEW_BEFORE'' ''48h'') = Inr (cf_RenewBefore c)"
  using assms by (auto simp: Load_def Let_def split: sum.splits if_splits)

lemma Atoi_value_garbage: "snd (ParseInt s) = Some ErrSyntax \<Longrightarrow> Atoi_value s = 0"
  by (auto simp: Atoi_value_def ParseInt_def Let_def split: list.splits sum.splits num_error.splits if_splits)

lemma Atoi_value_range: "- (2 ^ 63) \<le> Atoi_value s \<and> Atoi_value s < 2 ^ 63"
  by (auto simp: Atoi_value_def ParseInt_def Let_def split: list.splits sum.splits num_error.splits if_splits)

lemma Atoi_value_negative: "Atoi_value s < 0 \<Longrightarrow> \<exists>t. s = CHR ''-'' # t"
  by (auto simp: Atoi_value_def ParseInt_def Let_def split: list.splits sum.splits num_error.splits if_splits)

end
