(* ===== verification/HpkeKeys.thy ===== *)
theory HpkeKeys
  imports Sealed GoFiles
begin

text \<open>
  The key files of \<^verbatim>\<open>internal/auth/sealed.go\<close>: \<^verbatim>\<open>GenerateHPKEKeyPEM\<close>, \<^verbatim>\<open>LoadHPKEKeys\<close>,
  \<^verbatim>\<open>ParseHPKEKeys\<close>. PEM, PKCS#8 and ECDH are the fields of \<open>key_env\<close>. The loop of \<^verbatim>\<open>ParseHPKEKeys\<close> has
  no bound of its own, so it is a partial function whose \<open>None\<close> is "does not return"; that it
  returns is proved from what \<^verbatim>\<open>pem.Decode\<close> documents about the remainder of its input.
\<close>

section \<open>Primitives\<close>

text \<open>A PEM block without headers, and what \<^verbatim>\<open>x509.ParsePKCS8PrivateKey\<close> returns: an ECDH key on one
  of the curves or a key of another type.\<close>

record pem_Block =
  pem_Type :: string
  pem_Bytes :: bytes

datatype 'priv parsed_key = EcdhPrivateKey ecdh_curve 'priv | OtherPrivateKey

record ('priv, 'sk, 'w) key_env =
  pem_Decode :: "bytes \<Rightarrow> (pem_Block \<times> bytes) option"
  pem_EncodeToMemory :: "pem_Block \<Rightarrow> bytes"
  ParsePKCS8PrivateKey :: "bytes \<Rightarrow> 'priv parsed_key res"
  MarshalPKCS8PrivateKey :: "'priv parsed_key \<Rightarrow> bytes res"
  NewDHKEMPrivateKey :: "'priv \<Rightarrow> 'sk res"
  ecdh_GenerateKey :: "ecdh_curve \<Rightarrow> 'w \<Rightarrow> 'priv res \<times> 'w"

text \<open>What the packages document: decoding gives the block and the remainder of the input, so it
  consumes something; an encoded private-key block followed by anything decodes to that block and the
  rest; a marshalled key parses back; an X25519 key is wrapped.\<close>

definition pem_consumes :: "('priv, 'sk, 'w) key_env \<Rightarrow> bool" where
  "pem_consumes K = (\<forall>data block rest. pem_Decode K data = Some (block, rest) \<longrightarrow> length rest < length data)"

definition keys_correct :: "('priv, 'sk, 'w) key_env \<Rightarrow> bool" where
  "keys_correct K =
    ((\<forall>der rest. pem_Decode K (pem_EncodeToMemory K \<lparr>pem_Type = ''PRIVATE KEY'', pem_Bytes = der\<rparr> @ rest)
        = Some (\<lparr>pem_Type = ''PRIVATE KEY'', pem_Bytes = der\<rparr>, rest))
     \<and> (\<forall>key der. MarshalPKCS8PrivateKey K key = Inr der \<longrightarrow> ParsePKCS8PrivateKey K der = Inr key)
     \<and> (\<forall>w priv w'. ecdh_GenerateKey K X25519 w = (Inr priv, w') \<longrightarrow> (\<exists>sk. NewDHKEMPrivateKey K priv = Inr sk)))"

section \<open>Operations\<close>

definition GenerateHPKEKeyPEM :: "('priv, 'sk, 'w) key_env \<Rightarrow> 'w \<Rightarrow> bytes res \<times> 'w" where
  "GenerateHPKEKeyPEM K w =
    (case ecdh_GenerateKey K X25519 w of
       (Inl e, w') \<Rightarrow> (Inl e, w')
     | (Inr priv, w') \<Rightarrow>
        (case MarshalPKCS8PrivateKey K (EcdhPrivateKey X25519 priv) of
           Inl e \<Rightarrow> (Inl e, w')
         | Inr der \<Rightarrow> (Inr (pem_EncodeToMemory K \<lparr>pem_Type = ''PRIVATE KEY'', pem_Bytes = der\<rparr>), w')))"

text \<open>The body of the loop for one block; a \<^verbatim>\<open>continue\<close> leaves the set as it is.\<close>

definition parse_block ::
    "(bytes \<Rightarrow> bytes) \<Rightarrow> ('pk, 'sk, 'c, 'w) hpke \<Rightarrow> ('priv, 'sk, 'w) key_env \<Rightarrow> pem_Block \<Rightarrow> 'sk HPKEKeySet
     \<Rightarrow> 'sk HPKEKeySet res" where
  "parse_block sha H K block ks =
    (if pem_Type block \<noteq> ''PRIVATE KEY'' then Inr ks
     else case ParsePKCS8PrivateKey K (pem_Bytes block) of
       Inl e \<Rightarrow> Inl (ErrWrap ''parse HPKE key'' e)
     | Inr OtherPrivateKey \<Rightarrow> Inl (ErrNew ''auth: HPKE key must be X25519'')
     | Inr (EcdhPrivateKey curve priv) \<Rightarrow>
        if curve \<noteq> X25519 then Inl (ErrNew ''auth: HPKE key must be X25519'')
        else case NewDHKEMPrivateKey K priv of
          Inl e \<Rightarrow> Inl (ErrWrap ''wrap HPKE key'' e)
        | Inr key \<Rightarrow>
           (let kid = HPKEKeyID sha H (PublicKey H key) in
            if map_of (ks_keys ks) kid \<noteq> None then Inr ks
            else Inr (ks\<lparr>ks_order := ks_order ks @ [kid], ks_keys := (kid, key) # ks_keys ks\<rparr>)))"

partial_function (option) parse_loop ::
    "(bytes \<Rightarrow> bytes) \<Rightarrow> ('pk, 'sk, 'c, 'w) hpke \<Rightarrow> ('priv, 'sk, 'w) key_env \<Rightarrow> bytes \<Rightarrow> 'sk HPKEKeySet
     \<Rightarrow> 'sk HPKEKeySet res option" where
  "parse_loop sha H K pemData ks =
    (case pem_Decode K pemData of
       None \<Rightarrow> Some (Inr ks)
     | Some (block, rest) \<Rightarrow>
        (case parse_block sha H K block ks of
           Inl e \<Rightarrow> Some (Inl e)
         | Inr ks' \<Rightarrow> parse_loop sha H K rest ks'))"

declare parse_loop.simps [code]

definition ParseHPKEKeys ::
    "(bytes \<Rightarrow> bytes) \<Rightarrow> ('pk, 'sk, 'c, 'w) hpke \<Rightarrow> ('priv, 'sk, 'w) key_env \<Rightarrow> bytes
     \<Rightarrow> 'sk HPKEKeySet res option" where
  "ParseHPKEKeys sha H K pemData =
    (case parse_loop sha H K pemData \<lparr>ks_order = [], ks_keys = []\<rparr> of
       None \<Rightarrow> None
     | Some (Inl e) \<Rightarrow> Some (Inl e)
     | Some (Inr ks) \<Rightarrow>
        if ks_order ks = [] then Some (Inl (ErrNew ''auth: no X25519 private key found in HPKE key file''))
        else Some (Inr ks))"

definition LoadHPKEKeys ::
    "(bytes \<Rightarrow> bytes) \<Rightarrow> ('pk, 'sk, 'c, 'w) hpke \<Rightarrow> ('priv, 'sk, 'w) key_env \<Rightarrow> string \<Rightarrow> disk
     \<Rightarrow> 'sk HPKEKeySet res option \<times> disk" where
  "LoadHPKEKeys sha H K path d =
    (case os_ReadFile path d of
       (Inl e, d') \<Rightarrow> (Some (Inl (ErrWrap ''read HPKE key file'' e)), d')
     | (Inr data, d') \<Rightarrow> (ParseHPKEKeys sha H K data, d'))"

section \<open>The invariant of a key set\<close>

text \<open>The advertised order lists each key once, under its own id.\<close>

definition key_set_ok :: "(bytes \<Rightarrow> bytes) \<Rightarrow> ('pk, 'sk, 'c, 'w) hpke \<Rightarrow> 'sk HPKEKeySet \<Rightarrow> bool" where
  "key_set_ok sha H ks =
    (distinct (ks_order ks) \<and> set (ks_order ks) = fst ` set (ks_keys ks)
     \<and> (\<forall>(kid, key)\<in>set (ks_keys ks). kid = HPKEKeyID sha H (PublicKey H key)))"

text \<open>The blocks a file consists of, as successive decodings find them.\<close>

inductive block_of :: "('priv, 'sk, 'w) key_env \<Rightarrow> bytes \<Rightarrow> pem_Block \<Rightarrow> bool" for K where
  here: "pem_Decode K data = Some (block, rest) \<Longrightarrow> block_of K data block"
| later: "pem_Decode K data = Some (first, rest) \<Longrightarrow> block_of K rest block \<Longrightarrow> block_of K data block"

lemma parse_loop_returns:
  assumes "pem_consumes K"
  shows "\<exists>r. parse_loop sha H K data ks = Some r"
proof (induction data arbitrary: ks rule: length_induct)
  case (1 data)
  show ?case
  proof (cases "pem_Decode K data")
    case None
    then show ?thesis by (subst parse_loop.simps) simp
  next
    case (Some p)
    then obtain block rest where d: "pem_Decode K data = Some (block, rest)" by (cases p) simp
    then have "length rest < length data" using assms by (auto simp: pem_consumes_def)
    then show ?thesis using 1 d by (subst parse_loop.simps) (auto split: sum.splits)
  qed
qed

text \<open>The runs of the loop as a relation, for rule induction.\<close>

inductive parses ::
    "(bytes \<Rightarrow> bytes) \<Rightarrow> ('pk, 'sk, 'c, 'w) hpke \<Rightarrow> ('priv, 'sk, 'w) key_env \<Rightarrow> bytes \<Rightarrow> 'sk HPKEKeySet
     \<Rightarrow> 'sk HPKEKeySet res \<Rightarrow> bool" for sha H K where
  finish: "pem_Decode K data = None \<Longrightarrow> parses sha H K data ks (Inr ks)"
| fail: "pem_Decode K data = Some (block, rest) \<Longrightarrow> parse_block sha H K block ks = Inl e \<Longrightarrow>
     parses sha H K data ks (Inl e)"
| more: "pem_Decode K data = Some (block, rest) \<Longrightarrow> parse_block sha H K block ks = Inr ks1 \<Longrightarrow>
     parses sha H K rest ks1 r \<Longrightarrow> parses sha H K data ks r"

lemma parse_loop_parses: "parse_loop sha H K data ks = Some r \<Longrightarrow> parses sha H K data ks r"
proof (erule parse_loop.raw_induct[where P = parses, rotated], goal_cases)
  case (1 loop sha H K data ks r)
  then show ?case
    by (cases "pem_Decode K data"; cases "parse_block sha H K (fst (the (pem_Decode K data))) ks")
      (auto intro: parses.intros)
qed

lemma parses_parse_loop: "parses sha H K data ks r \<Longrightarrow> parse_loop sha H K data ks = Some r"
  by (induction rule: parses.induct) (subst parse_loop.simps, simp)+

lemma parse_loop_iff: "parse_loop sha H K data ks = Some r \<longleftrightarrow> parses sha H K data ks r"
  using parse_loop_parses parses_parse_loop by blast

text \<open>A block leaves the set alone or adds one new key under its own id.\<close>

lemma parse_block_InrE:
  assumes "parse_block sha H K block ks = Inr ks'"
  obtains (same) "ks' = ks"
  | (added) key where "map_of (ks_keys ks) (HPKEKeyID sha H (PublicKey H key)) = None"
      "ks' = ks\<lparr>ks_order := ks_order ks @ [HPKEKeyID sha H (PublicKey H key)],
                ks_keys := (HPKEKeyID sha H (PublicKey H key), key) # ks_keys ks\<rparr>"
proof -
  from assms have "ks' = ks \<or> (\<exists>key. map_of (ks_keys ks) (HPKEKeyID sha H (PublicKey H key)) = None
      \<and> ks' = ks\<lparr>ks_order := ks_order ks @ [HPKEKeyID sha H (PublicKey H key)],
                ks_keys := (HPKEKeyID sha H (PublicKey H key), key) # ks_keys ks\<rparr>)"
    by (simp add: parse_block_def Let_def split: if_splits sum.splits parsed_key.splits) blast+
  then show thesis using same added by blast
qed

lemma parse_block_ok:
  "parse_block sha H K block ks = Inr ks' \<Longrightarrow> key_set_ok sha H ks \<Longrightarrow> key_set_ok sha H ks'"
  by (erule parse_block_InrE) (simp_all add: key_set_ok_def map_of_eq_None_iff)

lemma parses_ok: "parses sha H K data ks r \<Longrightarrow> r = Inr ks' \<Longrightarrow> key_set_ok sha H ks \<Longrightarrow> key_set_ok sha H ks'"
  by (induction arbitrary: ks' rule: parses.induct) (auto dest: parse_block_ok)

text \<open>What is in the set stays, and a private-key block is in it afterwards.\<close>

lemma parse_block_keeps:
  "parse_block sha H K block ks = Inr ks' \<Longrightarrow> map_of (ks_keys ks) kid = Some k \<Longrightarrow> map_of (ks_keys ks') kid = Some k"
  by (erule parse_block_InrE) auto

lemma parses_keeps:
  "parses sha H K data ks r \<Longrightarrow> r = Inr ks' \<Longrightarrow> map_of (ks_keys ks) kid = Some k \<Longrightarrow> map_of (ks_keys ks') kid = Some k"
  by (induction arbitrary: ks' rule: parses.induct) (auto dest: parse_block_keeps)

definition block_key :: "('priv, 'sk, 'w) key_env \<Rightarrow> bytes \<Rightarrow> 'sk option" where
  "block_key K der =
    (case ParsePKCS8PrivateKey K der of
       Inr (EcdhPrivateKey X25519 priv) \<Rightarrow> (case NewDHKEMPrivateKey K priv of Inr key \<Rightarrow> Some key | Inl _ \<Rightarrow> None)
     | _ \<Rightarrow> None)"

lemma parse_block_has:
  assumes "parse_block sha H K block ks = Inr ks'" "pem_Type block = ''PRIVATE KEY''"
  shows "\<exists>key. block_key K (pem_Bytes block) = Some key
    \<and> map_of (ks_keys ks') (HPKEKeyID sha H (PublicKey H key)) \<noteq> None"
  using assms by (auto simp: parse_block_def block_key_def Let_def split: if_splits sum.splits parsed_key.splits)

lemma parses_has:
  "parses sha H K data ks r \<Longrightarrow> r = Inr ks' \<Longrightarrow> block_of K data block \<Longrightarrow> pem_Type block = ''PRIVATE KEY'' \<Longrightarrow>
   \<exists>key. block_key K (pem_Bytes block) = Some key
     \<and> map_of (ks_keys ks') (HPKEKeyID sha H (PublicKey H key)) \<noteq> None"
proof (induction arbitrary: ks' rule: parses.induct)
  case (more data b rest ks ks1 r)
  from more(6) show ?case
  proof (cases rule: block_of.cases)
    case (here rest1)
    then have "parse_block sha H K block ks = Inr ks1" using more(1,2) by simp
    from parse_block_has[OF this more(7)] obtain key k where
      k: "block_key K (pem_Bytes block) = Some key" "map_of (ks_keys ks1) (HPKEKeyID sha H (PublicKey H key)) = Some k"
      by auto
    show ?thesis using k(1) parses_keeps[OF more(3,5) k(2)] by auto
  next
    case (later b1 rest1)
    then show ?thesis using more by simp
  qed
qed (auto elim: block_of.cases)

lemma parse_block_Inl:
  "parse_block sha H K block ks = Inl e \<Longrightarrow> pem_Type block = ''PRIVATE KEY'' \<and> block_key K (pem_Bytes block) = None"
  by (auto simp: parse_block_def block_key_def Let_def split: if_splits sum.splits parsed_key.splits ecdh_curve.splits)

lemma parses_Inl:
  "parses sha H K data ks r \<Longrightarrow> r = Inl e \<Longrightarrow>
   \<exists>block. block_of K data block \<and> pem_Type block = ''PRIVATE KEY'' \<and> block_key K (pem_Bytes block) = None"
  by (induction rule: parses.induct) (auto dest: parse_block_Inl intro: block_of.intros)

lemma parse_block_same: "pem_Type block \<noteq> ''PRIVATE KEY'' \<Longrightarrow> parse_block sha H K block ks = Inr ks"
  by (simp add: parse_block_def)

lemma parses_no_key:
  "parses sha H K data ks r \<Longrightarrow> (\<And>block. block_of K data block \<Longrightarrow> pem_Type block \<noteq> ''PRIVATE KEY'') \<Longrightarrow> r = Inr ks"
proof (induction rule: parses.induct)
  case (fail data block rest ks e)
  then show ?case using parse_block_same[of block] by (metis block_of.here sum.distinct(1))
next
  case (more data block rest ks ks1 r)
  then show ?case using parse_block_same[of block] by (metis block_of.here block_of.later sum.inject(2))
qed simp

lemma ParseHPKEKeys_Inr:
  assumes "ParseHPKEKeys sha H K data = Some (Inr ks)"
  shows "parses sha H K data \<lparr>ks_order = [], ks_keys = []\<rparr> (Inr ks)" "ks_order ks \<noteq> []" "key_set_ok sha H ks"
proof -
  show p: "parses sha H K data \<lparr>ks_order = [], ks_keys = []\<rparr> (Inr ks)" and "ks_order ks \<noteq> []"
    using assms by (auto simp: ParseHPKEKeys_def parse_loop_iff split: option.splits sum.splits if_splits)
  show "key_set_ok sha H ks" using parses_ok[OF p] by (simp add: key_set_ok_def)
qed

lemma ParseHPKEKeys_Inl:
  assumes "ParseHPKEKeys sha H K data = Some (Inl e)"
  shows "(\<exists>block. block_of K data block \<and> pem_Type block = ''PRIVATE KEY'' \<and> block_key K (pem_Bytes block) = None)
    \<or> (\<forall>block. block_of K data block \<longrightarrow> pem_Type block \<noteq> ''PRIVATE KEY'')"
proof -
  let ?e = "\<lparr>ks_order = [], ks_keys = []\<rparr>"
  consider (bad) "parses sha H K data ?e (Inl e)"
    | (none) ks where "parses sha H K data ?e (Inr ks)" "ks_order ks = []"
    using assms by (auto simp: ParseHPKEKeys_def parse_loop_iff split: option.splits sum.splits if_splits)
  then show ?thesis
  proof cases
    case bad
    then show ?thesis using parses_Inl by blast
  next
    case none
    have "key_set_ok sha H ks" using parses_ok[OF none(1)] by (simp add: key_set_ok_def)
    then have "ks_keys ks = []" using none(2) by (simp add: key_set_ok_def)
    then show ?thesis using parses_has[OF none(1) refl] by force
  qed
qed

text \<open>The advertised public keys are those of the set's private keys.\<close>

lemma ks_Public_key:
  assumes "key_set_ok sha H ks" "key \<in> set (ks_Public H ks)"
  shows "\<exists>sk. map_of (ks_keys ks) (hk_KID key) = Some sk \<and> hk_Key key = PublicKey H sk
    \<and> hk_KID key = HPKEKeyID sha H (PublicKey H sk)"
proof -
  have kid: "hk_KID key \<in> set (ks_order ks)" and k: "hk_Key key = PublicKey H (the (map_of (ks_keys ks) (hk_KID key)))"
    using assms(2) by (auto simp: ks_Public_def)
  then have "hk_KID key \<in> fst ` set (ks_keys ks)" using assms(1) by (simp add: key_set_ok_def)
  then obtain sk where sk: "map_of (ks_keys ks) (hk_KID key) = Some sk" by (metis not_None_eq map_of_eq_None_iff)
  then show ?thesis using k assms(1) map_of_SomeD[OF sk] by (auto simp: key_set_ok_def)
qed

section \<open>Rotation\<close>

text \<open>Starting from one key instead of none changes the result by exactly that key in front.\<close>

definition led_by :: "string \<Rightarrow> 'sk \<Rightarrow> 'sk HPKEKeySet \<Rightarrow> 'sk HPKEKeySet \<Rightarrow> bool" where
  "led_by kid key ks ks' =
    (ks_order ks' = kid # filter (\<lambda>k. k \<noteq> kid) (ks_order ks) \<and> map_of (ks_keys ks') = (map_of (ks_keys ks))(kid \<mapsto> key))"

lemma parse_block_led_by:
  assumes "parse_block sha H K block ks = Inr ks1" "led_by kid key ks ks'"
  shows "\<exists>ks1'. parse_block sha H K block ks' = Inr ks1' \<and> led_by kid key ks1 ks1'"
  using assms by (auto simp: parse_block_def led_by_def Let_def fun_upd_twist split: if_splits sum.splits parsed_key.splits)

lemma parses_led_by:
  "parses sha H K data ks r \<Longrightarrow> r = Inr ks1 \<Longrightarrow> led_by kid key ks ks' \<Longrightarrow>
   \<exists>ks1'. parses sha H K data ks' (Inr ks1') \<and> led_by kid key ks1 ks1'"
proof (induction arbitrary: ks' rule: parses.induct)
  case (more data block rest ks ks2 r)
  then show ?case using parse_block_led_by[OF more(2,6)] by (meson parses.more)
qed (auto intro: parses.finish)

lemma GenerateHPKEKeyPEM_Inr:
  assumes "keys_correct K" "GenerateHPKEKeyPEM K w = (Inr pem, w')"
  obtains der key where "pem = pem_EncodeToMemory K \<lparr>pem_Type = ''PRIVATE KEY'', pem_Bytes = der\<rparr>"
    "\<And>rest. pem_Decode K (pem @ rest) = Some (\<lparr>pem_Type = ''PRIVATE KEY'', pem_Bytes = der\<rparr>, rest)"
    "block_key K der = Some key"
    "\<And>sha H. parse_block sha H K \<lparr>pem_Type = ''PRIVATE KEY'', pem_Bytes = der\<rparr> \<lparr>ks_order = [], ks_keys = []\<rparr>
       = Inr \<lparr>ks_order = [HPKEKeyID sha H (PublicKey H key)], ks_keys = [(HPKEKeyID sha H (PublicKey H key), key)]\<rparr>"
proof -
  obtain priv der where g: "ecdh_GenerateKey K X25519 w = (Inr priv, w')"
    "MarshalPKCS8PrivateKey K (EcdhPrivateKey X25519 priv) = Inr der"
    and pem_eq: "pem = pem_EncodeToMemory K \<lparr>pem_Type = ''PRIVATE KEY'', pem_Bytes = der\<rparr>"
    using assms(2) by (auto simp: GenerateHPKEKeyPEM_def split: prod.splits sum.splits)
  have d: "pem_Decode K (pem @ rest) = Some (\<lparr>pem_Type = ''PRIVATE KEY'', pem_Bytes = der\<rparr>, rest)"
    and p: "ParsePKCS8PrivateKey K der = Inr (EcdhPrivateKey X25519 priv)" for rest
    using assms(1) g(2) unfolding keys_correct_def pem_eq by blast+
  obtain key where k: "NewDHKEMPrivateKey K priv = Inr key" using assms(1) g(1) unfolding keys_correct_def by blast
  show thesis by (rule that[OF pem_eq d, of key]) (simp_all add: block_key_def parse_block_def p k Let_def)
qed

section \<open>Properties\<close>

text \<open>A self-delimiting toy encoding that meets the contracts, for the witnesses: a type byte, then
  every byte behind a plus, then a full stop. A key is its number.\<close>

fun toy_scan :: "bytes \<Rightarrow> bytes \<times> bytes" where
  "toy_scan (a # b # r) = (if a = CHR ''+'' then (case toy_scan r of (x, rest) \<Rightarrow> (b # x, rest)) else ([], b # r))"
| "toy_scan _ = ([], [])"

definition toy_keys :: "(nat, nat, nat) key_env" where
  "toy_keys =
    \<lparr>pem_Decode = \<lambda>d. case d of [] \<Rightarrow> None | t # r \<Rightarrow>
       (case toy_scan r of (x, rest) \<Rightarrow>
          Some (\<lparr>pem_Type = (if t = CHR ''P'' then ''PRIVATE KEY'' else ''CERTIFICATE''), pem_Bytes = x\<rparr>, rest)),
     pem_EncodeToMemory = \<lambda>b. CHR ''P'' # concat (map (\<lambda>c. [CHR ''+'', c]) (pem_Bytes b)) @ ''.'',
     ParsePKCS8PrivateKey = \<lambda>der. if der = [] then Inl (ErrExt ''empty'') else Inr (EcdhPrivateKey X25519 (length der)),
     MarshalPKCS8PrivateKey = \<lambda>k. case k of EcdhPrivateKey X25519 (Suc n) \<Rightarrow> Inr (replicate (Suc n) (CHR ''k''))
       | _ \<Rightarrow> Inl (ErrExt ''unsupported''),
     NewDHKEMPrivateKey = Inr, ecdh_GenerateKey = \<lambda>c w. (Inr w, w + 1)\<rparr>"

lemma toy_scan_shorter: "length (snd (toy_scan d)) \<le> length d"
  by (induction d rule: toy_scan.induct) (auto split: prod.splits)

lemma toy_scan_encoded: "toy_scan (concat (map (\<lambda>c. [CHR ''+'', c]) x) @ CHR ''.'' # rest) = (x, rest)"
  by (induction x) (cases rest; simp)+

lemma toy_keys_ok: "pem_consumes toy_keys" "keys_correct toy_keys"
proof -
  show "pem_consumes toy_keys"
    using toy_scan_shorter
    by (auto simp: pem_consumes_def toy_keys_def less_Suc_eq_le split: list.splits prod.splits) (metis snd_conv)
  show "keys_correct toy_keys"
    by (auto simp: keys_correct_def toy_keys_def toy_scan_encoded
        split: if_splits parsed_key.splits ecdh_curve.splits nat.splits)
qed

text \<open>C24: parsing a key file always returns, and it decides the file correctly. If decoding a PEM
  block leaves a strictly shorter remainder, the unbounded loop of \<^verbatim>\<open>ParseHPKEKeys\<close> ends, and it
  yields a key set exactly when the file has a private-key block and every private-key block is a
  usable X25519 key.\<close>

theorem ParseHPKEKeys_decides:
  assumes "pem_consumes K"
  shows "\<exists>r. ParseHPKEKeys sha H K data = Some r
    \<and> ((\<exists>ks. r = Inr ks) \<longleftrightarrow>
        (\<exists>block. block_of K data block \<and> pem_Type block = ''PRIVATE KEY'')
        \<and> (\<forall>block. block_of K data block \<and> pem_Type block = ''PRIVATE KEY'' \<longrightarrow> block_key K (pem_Bytes block) \<noteq> None))"
proof -
  obtain r0 where "parse_loop sha H K data \<lparr>ks_order = [], ks_keys = []\<rparr> = Some r0"
    using parse_loop_returns[OF assms] by blast
  then have "ParseHPKEKeys sha H K data \<noteq> None" by (simp add: ParseHPKEKeys_def split: sum.splits)
  then obtain r where r: "ParseHPKEKeys sha H K data = Some r" by blast
  show ?thesis
  proof (cases r)
    case (Inl e)
    then show ?thesis using r ParseHPKEKeys_Inl[of sha H K data e] by blast
  next
    case (Inr ks)
    note p = ParseHPKEKeys_Inr[OF r[unfolded Inr]]
    have "\<exists>block. block_of K data block \<and> pem_Type block = ''PRIVATE KEY''"
      using parses_no_key[OF p(1)] p(2) by (metis HPKEKeySet.select_convs(1) sum.inject(2))
    then show ?thesis using r Inr parses_has[OF p(1) refl] by fastforce
  qed
qed

theorem ParseHPKEKeys_decides_witness:
  "ParseHPKEKeys id null_hpke toy_keys ''C+x.P+a.P+b+c.'' =
     Some (Inr \<lparr>ks_order = [''01'', ''02''], ks_keys = [(''02'', 2), (''01'', 1)]\<rparr>)
   \<and> (\<exists>block. block_of toy_keys ''C+x.P+a.P+b+c.'' block \<and> pem_Type block = ''PRIVATE KEY'')"
proof -
  have "ParseHPKEKeys id null_hpke toy_keys ''C+x.P+a.P+b+c.'' =
     Some (Inr \<lparr>ks_order = [''01'', ''02''], ks_keys = [(''02'', 2), (''01'', 1)]\<rparr>)" by code_simp
  then show ?thesis using ParseHPKEKeys_decides[OF toy_keys_ok(1), of id null_hpke "''C+x.P+a.P+b+c.''"] by auto
qed

text \<open>A parsed key file gives a non-empty set in which each key is advertised exactly once under the
  id derived from its public key, and the brain can open what is sealed to any key it advertises: for
  every public key of the set, an envelope sealed to it opens under the advertised id.\<close>

theorem ParseHPKEKeys_ok:
  assumes "ParseHPKEKeys sha H K data = Some (Inr ks)"
  shows "key_set_ok sha H ks \<and> ks_Public H ks \<noteq> [] \<and> distinct (map hk_KID (ks_Public H ks))
    \<and> (\<forall>key\<in>set (ks_Public H ks). hk_KID key = HPKEKeyID sha H (hk_Key key)
        \<and> (\<forall>path ts nonce pt w body ro w'. hpke_correct H \<and>
             SealRequest H (hk_Key key) path ts nonce pt w = (Inr (body, ro), w') \<longrightarrow>
             OpenRequest H ks (hk_KID key) path ts nonce body = Inr (pt, \<lparr>rsl_key = ro_key ro\<rparr>)))"
proof -
  note p = ParseHPKEKeys_Inr[OF assms]
  have "hk_KID key = HPKEKeyID sha H (hk_Key key)
      \<and> (\<forall>path ts nonce pt w body ro w'. hpke_correct H \<and>
           SealRequest H (hk_Key key) path ts nonce pt w = (Inr (body, ro), w') \<longrightarrow>
           OpenRequest H ks (hk_KID key) path ts nonce body = Inr (pt, \<lparr>rsl_key = ro_key ro\<rparr>))"
    if k: "key \<in> set (ks_Public H ks)" for key
  proof -
    obtain sk where sk: "map_of (ks_keys ks) (hk_KID key) = Some sk" "hk_Key key = PublicKey H sk"
      "hk_KID key = HPKEKeyID sha H (PublicKey H sk)"
      using ks_Public_key[OF p(3) k] by blast
    show ?thesis using OpenRequest_SealRequest[OF _ sk(1)] sk(2,3) by metis
  qed
  moreover have "map hk_KID (ks_Public H ks) = ks_order ks" by (simp add: ks_Public_def comp_def)
  then have "ks_Public H ks \<noteq> []" "distinct (map hk_KID (ks_Public H ks))"
    using p(2,3) by (auto simp: key_set_ok_def)
  ultimately show ?thesis using p(3) by blast
qed

theorem ParseHPKEKeys_ok_witness:
  "\<exists>ks. ParseHPKEKeys id null_hpke toy_keys ''C+x.P+a.P+b.'' = Some (Inr ks) \<and> key_set_ok id null_hpke ks
    \<and> ks_order ks = [''01'']"
proof -
  let ?ks = "\<lparr>ks_order = [''01''], ks_keys = [(''01'', 1::nat)]\<rparr>"
  have p: "ParseHPKEKeys id null_hpke toy_keys ''C+x.P+a.P+b.'' = Some (Inr ?ks)" by code_simp
  show ?thesis using p ParseHPKEKeys_ok[OF p] by auto
qed

text \<open>C25: rotation. Putting a freshly generated key in front of a valid key file gives a valid file whose
  advertised key is the new one and which still holds every key of the old file under its id, so
  envelopes sealed to an old key still open (an old key with the very id of the new one apart).\<close>

theorem key_rotation:
  assumes "keys_correct K" "GenerateHPKEKeyPEM K w = (Inr pem, w')"
    and "ParseHPKEKeys sha H K old = Some (Inr ks)"
  shows "\<exists>kid key ks'. ParseHPKEKeys sha H K (pem @ old) = Some (Inr ks') \<and> kid = HPKEKeyID sha H (PublicKey H key)
    \<and> ks_order ks' = kid # filter (\<lambda>k. k \<noteq> kid) (ks_order ks)
    \<and> (\<forall>k path ts nonce body. k \<noteq> kid \<longrightarrow>
         OpenRequest H ks' k path ts nonce body = OpenRequest H ks k path ts nonce body)"
proof -
  obtain der key where d: "pem_Decode K (pem @ old) = Some (\<lparr>pem_Type = ''PRIVATE KEY'', pem_Bytes = der\<rparr>, old)"
    and p: "parse_block sha H K \<lparr>pem_Type = ''PRIVATE KEY'', pem_Bytes = der\<rparr> \<lparr>ks_order = [], ks_keys = []\<rparr>
       = Inr \<lparr>ks_order = [HPKEKeyID sha H (PublicKey H key)], ks_keys = [(HPKEKeyID sha H (PublicKey H key), key)]\<rparr>"
    using GenerateHPKEKeyPEM_Inr[OF assms(1,2)] by metis
  let ?kid = "HPKEKeyID sha H (PublicKey H key)"
  have "led_by ?kid key \<lparr>ks_order = [], ks_keys = []\<rparr> \<lparr>ks_order = [?kid], ks_keys = [(?kid, key)]\<rparr>"
    by (simp add: led_by_def)
  then obtain ks' where "parses sha H K old \<lparr>ks_order = [?kid], ks_keys = [(?kid, key)]\<rparr> (Inr ks')"
    and led: "led_by ?kid key ks ks'"
    using parses_led_by[OF ParseHPKEKeys_Inr(1)[OF assms(3)] refl] by blast
  then have "parse_loop sha H K (pem @ old) \<lparr>ks_order = [], ks_keys = []\<rparr> = Some (Inr ks')"
    using parses.more[OF d p] parses_parse_loop by blast
  then have "ParseHPKEKeys sha H K (pem @ old) = Some (Inr ks')"
    using led by (simp add: ParseHPKEKeys_def led_by_def)
  moreover have "OpenRequest H ks' k path ts nonce body = OpenRequest H ks k path ts nonce body" if "k \<noteq> ?kid"
    for k path ts nonce body
    using that led by (simp add: OpenRequest_def led_by_def)
  ultimately show ?thesis using led by (auto simp: led_by_def)
qed

theorem key_rotation_witness:
  "\<exists>pem ks'. GenerateHPKEKeyPEM toy_keys 2 = (Inr pem, 3) \<and> ParseHPKEKeys id null_hpke toy_keys (pem @ ''P+a.'') = Some (Inr ks')
    \<and> length (ks_order ks') = 2"
proof -
  have g: "GenerateHPKEKeyPEM toy_keys 2 = (Inr ''P+k+k.'', 3)" by code_simp
  have p: "ParseHPKEKeys id null_hpke toy_keys ''P+a.'' = Some (Inr \<lparr>ks_order = [''01''], ks_keys = [(''01'', 1)]\<rparr>)"
    by code_simp
  have q: "ParseHPKEKeys id null_hpke toy_keys (''P+k+k.'' @ ''P+a.'') =
      Some (Inr \<lparr>ks_order = [''02'', ''01''], ks_keys = [(''01'', 1), (''02'', 2)]\<rparr>)" by code_simp
  show ?thesis using g q key_rotation[OF toy_keys_ok(2) g p] by auto
qed

end
