(* ===== verification/Collector.thy ===== *)
theory Collector
  imports PipelineSafety Forwarder Flows Config HpkeKeys
begin

text \<open>
  \<^verbatim>\<open>cmd/collector/main.go\<close> (and \<^verbatim>\<open>internal/k8s/client.go\<close>): the three commands of the binary.
  \<open>start_server\<close> goes as far as the server that is about to listen, \<open>runServer\<close> adds listening and closing.
  The state of the one-shot commands is the disk, the cluster \<open>'k\<close> and the rest of the world \<open>'w\<close>.
\<close>

section \<open>Commands\<close>

definition dispatch ::
    "(nat \<Rightarrow> bool) \<Rightarrow> string list \<Rightarrow> (string \<Rightarrow> string) \<Rightarrow> ('s \<Rightarrow> unit res outcome \<times> 's) \<Rightarrow> ('s \<Rightarrow> unit res outcome \<times> 's)
     \<Rightarrow> ('s \<Rightarrow> unit res outcome \<times> 's) \<Rightarrow> 's \<Rightarrow> unit res outcome \<times> 's" where
  "dispatch isPrint args env serve bootstrap renew s =
    (let mode = (if length args > 1 \<and> args ! 1 \<noteq> '''' then args ! 1
                 else if env ''MODE'' \<noteq> '''' then env ''MODE'' else ''serve'') in
     if mode = ''serve'' then serve s
     else if mode = ''bootstrap'' then bootstrap s
     else if mode = ''renew'' then renew s
     else (Done (Inl (ErrNew (''unknown mode '' @ Quote isPrint mode @ '' (want serve|bootstrap|renew)''))), s))"

text \<open>A persister over the pair of the disk and the cluster.\<close>

definition on_disk :: "disk Persister \<Rightarrow> (disk \<times> 'k) Persister" where
  "on_disk P =
    \<lparr>ps_Exists = \<lambda>(d, k). case ps_Exists P d of (r, d') \<Rightarrow> (r, d', k),
     ps_Read = \<lambda>(d, k). case ps_Read P d of (r, d') \<Rightarrow> (r, d', k),
     ps_Write = \<lambda>c y a (d, k). case ps_Write P c y a d of (r, d') \<Rightarrow> (r, d', k)\<rparr>"

definition on_cluster :: "'k Persister \<Rightarrow> (disk \<times> 'k) Persister" where
  "on_cluster P =
    \<lparr>ps_Exists = \<lambda>(d, k). case ps_Exists P k of (r, k') \<Rightarrow> (r, d, k'),
     ps_Read = \<lambda>(d, k). case ps_Read P k of (r, k') \<Rightarrow> (r, d, k'),
     ps_Write = \<lambda>c y a (d, k). case ps_Write P c y a k of (r, k') \<Rightarrow> (r, d, k')\<rparr>"

definition newPersister :: "'k secrets_api \<Rightarrow> Config \<Rightarrow> (disk \<times> 'k) Persister res" where
  "newPersister A cfg =
    (if cf_Namespace cfg \<noteq> '''' \<and> cf_CertSecretName cfg \<noteq> '''' then
       map_sum id (\<lambda>s. on_cluster (SecretPersister A s))
         (NewSecretStoreInCluster A (cf_Namespace cfg) (cf_CertSecretName cfg))
     else Inr (on_disk (FilePersister (NewMaterial (cf_CertDir cfg)))))"

text \<open>What the commands take from libraries before they start.\<close>

datatype zap_Level = DebugLevel | InfoLevel | WarnLevel | ErrorLevel | DPanicLevel | PanicLevel | FatalLevel

datatype zap_TimeEncoder = EpochTimeEncoder | ISO8601TimeEncoder

record zap_Config =
  zc_Level :: zap_Level
  zc_TimeKey :: string
  zc_EncodeTime :: zap_TimeEncoder

record start_env =
  st_isPrint :: "nat \<Rightarrow> bool"
  st_parseDuration :: "string \<Rightarrow> int res"
  st_UnmarshalText :: "string \<Rightarrow> zap_Level res"
  st_Build :: "zap_Config \<Rightarrow> unit res"

definition newLogger :: "start_env \<Rightarrow> string \<Rightarrow> unit res" where
  "newLogger S level =
    (let lvl = (case st_UnmarshalText S level of Inl e \<Rightarrow> InfoLevel | Inr l \<Rightarrow> l) in
     st_Build S \<lparr>zc_Level = lvl, zc_TimeKey = ''ts'', zc_EncodeTime = ISO8601TimeEncoder\<rparr>)"

definition bootstrap_flow :: "Config \<Rightarrow> 'd Persister \<Rightarrow> 'd BootstrapFlow" where
  "bootstrap_flow cfg P =
    \<lparr>bf_ClusterID = cf_ClusterID cfg, bf_TenantID = cf_TenantID cfg, bf_BrainURL = cf_CentralAgentURL cfg,
     bf_Transport = cf_AuthMode cfg, bf_EdgeCAFile = cf_SignedEdgeCAFile cfg,
     bf_BootstrapTokenFile = cf_BootstrapTokenFile cfg, bf_VendorCAFile = cf_VendorCAFile cfg,
     bf_Persister = Some P\<rparr>"

definition renew_flow :: "Config \<Rightarrow> 'd Persister \<Rightarrow> ('d, 'w) RenewFlow" where
  "renew_flow cfg P =
    \<lparr>rf_ClusterID = cf_ClusterID cfg, rf_TenantID = cf_TenantID cfg, rf_BrainURL = cf_CentralAgentURL cfg,
     rf_Transport = cf_AuthMode cfg, rf_EdgeCAFile = cf_SignedEdgeCAFile cfg, rf_VendorCAFile = cf_VendorCAFile cfg,
     rf_Persister = Some P, rf_RenewBefore = cf_RenewBefore cfg, rf_Now = None\<rparr>"

definition runBootstrap ::
    "start_env \<Rightarrow> ('esk, 'epk, 'pk, 'hsk, 'c, 'crt, 'pool, 'w) enrol_env \<Rightarrow> 'k secrets_api \<Rightarrow> (string \<Rightarrow> string)
     \<Rightarrow> disk \<times> 'k \<Rightarrow> 'w \<Rightarrow> unit res outcome \<times> (disk \<times> 'k) \<times> 'w" where
  "runBootstrap S E A env d w =
    (case Load (st_isPrint S) (st_parseDuration S) env of
       Inl e \<Rightarrow> (Done (Inl (ErrWrap ''load config'' e)), d, w)
     | Inr cfg \<Rightarrow>
    (case newLogger S (cf_LogLevel cfg) of
       Inl e \<Rightarrow> (Done (Inl (ErrWrap ''init logger'' e)), d, w)
     | Inr _ \<Rightarrow>
    (case newPersister A cfg of
       Inl e \<Rightarrow> (Done (Inl e), d, w)
     | Inr P \<Rightarrow> Bootstrap_Run E (bootstrap_flow cfg P) d w)))"

definition runRenew ::
    "start_env \<Rightarrow> ('esk, 'epk, 'pk, 'hsk, 'c, 'crt, 'pool, 'w) enrol_env \<Rightarrow> 'k secrets_api \<Rightarrow> (string \<Rightarrow> string)
     \<Rightarrow> disk \<times> 'k \<Rightarrow> 'w \<Rightarrow> unit res outcome \<times> (disk \<times> 'k) \<times> 'w" where
  "runRenew S E A env d w =
    (case Load (st_isPrint S) (st_parseDuration S) env of
       Inl e \<Rightarrow> (Done (Inl (ErrWrap ''load config'' e)), d, w)
     | Inr cfg \<Rightarrow>
    (case newLogger S (cf_LogLevel cfg) of
       Inl e \<Rightarrow> (Done (Inl (ErrWrap ''init logger'' e)), d, w)
     | Inr _ \<Rightarrow>
    (case newPersister A cfg of
       Inl e \<Rightarrow> (Done (Inl e), d, w)
     | Inr P \<Rightarrow> Renew_Run E (renew_flow cfg P) d w)))"

section \<open>The server\<close>

definition k8s_NewClient :: "unit res \<Rightarrow> ('w, 'sel) clientset res \<Rightarrow> ('w, 'sel) clientset res" where
  "k8s_NewClient inClusterConfig newForConfig =
    (case inClusterConfig of
       Inl e \<Rightarrow> Inl (ErrWrap ''in-cluster config'' e)
     | Inr _ \<Rightarrow>
        (case newForConfig of Inl e \<Rightarrow> Inl (ErrWrap ''create clientset'' e) | Inr cs \<Rightarrow> Inr cs))"

record ('esk, 'pool, 'sel, 'w) server_env =
  sv_start :: start_env
  sv_InClusterConfig :: "unit res"
  sv_NewForConfig :: "('w, 'sel) clientset res"
  sv_compile :: "string \<Rightarrow> regex option"
  sv_files :: "('esk, 'w) cert_files"
  sv_ReadFile :: "'w \<Rightarrow> string \<Rightarrow> bytes res"
  sv_pool_of :: "bytes \<Rightarrow> 'pool option"
  sv_urlParse :: "string \<Rightarrow> parsed_url res"
  sv_dial :: "string \<Rightarrow> unit res"

text \<open>The routes of the server: the method a route is restricted to, the pattern and what serves it.\<close>

datatype endpoint = Webhook_endpoint | Metrics_endpoint | Healthz_endpoint

definition routes :: "(string option \<times> string \<times> endpoint) list" where
  "routes =
    [(Some ''POST'', ''/webhook'', Webhook_endpoint),
     (None, ''/metrics'', Metrics_endpoint),
     (Some ''GET'', ''/healthz'', Healthz_endpoint)]"

text \<open>The handler of \<^verbatim>\<open>/healthz\<close>: status and body.\<close>

definition healthz :: "int \<times> string" where
  "healthz = (200, ''ok'')"

record ('esk, 'pk, 'pool, 'sel, 'w) server =
  sr_pipeline :: "('w, 'sel) Pipeline"
  sr_forwarder :: "('esk, 'pk, 'pool) Forwarder"
  sr_handler :: Handler
  sr_routes :: "(string option \<times> string \<times> endpoint) list"
  sr_addr :: string

definition new_forwarder ::
    "('esk, 'pool, 'sel, 'w) server_env \<Rightarrow> Config \<Rightarrow> 'esk ClientReloader \<Rightarrow> 'w \<Rightarrow> ('esk, 'pk, 'pool) Forwarder res" where
  "new_forwarder V cfg reloader w =
    (if cf_AuthMode cfg = AuthModeSigned then
       Forwarder_NewSigned (NewSignedClient (st_isPrint (sv_start V)) (sv_urlParse V) (sv_ReadFile V w) (sv_pool_of V))
         \<lparr>sg_BaseURL = cf_CentralAgentURL cfg, sg_CARootFile = CACertFile cfg, sg_EdgeCAFile = cf_SignedEdgeCAFile cfg,
          sg_Reloader = Some reloader\<rparr>
     else
       Forwarder_New (sv_ReadFile V w) (sv_pool_of V) (sv_dial V)
         \<lparr>fc_Target = cf_CentralAgentURL cfg, fc_CARootFile = CACertFile cfg, fc_Reloader = Some reloader, fc_Timeout = 0\<rparr>)"

definition new_pipeline :: "('esk, 'pool, 'sel, 'w) server_env \<Rightarrow> Config \<Rightarrow> ('w, 'sel) Pipeline" where
  "new_pipeline V cfg =
    (let k8sClient = (case k8s_NewClient (sv_InClusterConfig V) (sv_NewForConfig V) of Inl e \<Rightarrow> None | Inr cs \<Rightarrow> Some cs);
         lokiClient = (if cf_LokiEnabled cfg
                       then Some (loki_NewClient (cf_LokiURL cfg) (cf_LokiLookbackMinutes cfg) (cf_LokiMaxLogLines cfg))
                       else None);
         promClient = prom_NewClient (cf_PrometheusURL cfg) (cf_PrometheusLookbackMin cfg) (cf_PrometheusEnabled cfg);
         redactor = Redactor_New (sv_compile V) (cf_RedactExtraPatterns cfg) (cf_RedactLogStats cfg)
                      (cf_RedactMaxLineBytes cfg) (cf_RedactMaxTotalBytes cfg) (cf_RedactMaxStringBytes cfg) in
     Pipeline_New (cf_ClusterID cfg) (cf_GrafanaBaseURL cfg) (Resolver_New k8sClient) lokiClient promClient k8sClient redactor)"

definition start_server ::
    "('esk, 'pool, 'sel, 'w) server_env \<Rightarrow> (string \<Rightarrow> string) \<Rightarrow> 'w \<Rightarrow> ('esk, 'pk, 'pool, 'sel, 'w) server res \<times> 'w" where
  "start_server V env w =
    (case Load (st_isPrint (sv_start V)) (st_parseDuration (sv_start V)) env of
       Inl e \<Rightarrow> (Inl (ErrWrap ''load config'' e), w)
     | Inr cfg \<Rightarrow>
    (case newLogger (sv_start V) (cf_LogLevel cfg) of
       Inl e \<Rightarrow> (Inl (ErrWrap ''init logger'' e), w)
     | Inr _ \<Rightarrow>
    (case NewClientReloader (sv_files V) (CertFile cfg) (KeyFile cfg) w of
       (Inl e, w) \<Rightarrow> (Inl (ErrWrap ''load client cert (bootstrap not run?)'' e), w)
     | (Inr reloader, w) \<Rightarrow>
    (case new_forwarder V cfg reloader w of
       Inl e \<Rightarrow> (Inl (ErrWrap ''init forwarder'' e), w)
     | Inr fwd \<Rightarrow>
        (Inr \<lparr>sr_pipeline = new_pipeline V cfg, sr_forwarder = fwd,
              sr_handler = NewHandler (cf_WebhookMaxConcurrent cfg), sr_routes = routes, sr_addr = CHR '':'' # cf_Port cfg\<rparr>, w)))))"

text \<open>\<^verbatim>\<open>http.ListenAndServe\<close> with the server's routes is the parameter \<open>listen\<close>, which gives the
  error it ends with; the deferred \<^verbatim>\<open>Close\<close> runs then and its own error is discarded.\<close>

definition runServer ::
    "('esk, 'pool, 'sel, 'w) server_env \<Rightarrow> (('esk, 'pk, 'pool, 'sel, 'w) server \<Rightarrow> 'w \<Rightarrow> unit res \<times> 'w)
     \<Rightarrow> (('esk, 'pool) ClientConn \<Rightarrow> 'w \<Rightarrow> unit res \<times> 'w) \<Rightarrow> (string \<Rightarrow> string) \<Rightarrow> 'w \<Rightarrow> unit res \<times> 'w" where
  "runServer V listen conn_Close env w =
    (case start_server V env w of
       (Inl e, w1) \<Rightarrow> (Inl e, w1)
     | (Inr server, w1) \<Rightarrow>
        (case listen server w1 of
           (r, w2) \<Rightarrow> (r, snd (Forwarder_Close conn_Close (sr_forwarder server) w2))))"

section \<open>The process\<close>

text \<open>\<^verbatim>\<open>err.Error()\<close>; the text of a gRPC status is the library's.\<close>

fun Error :: "(nat \<Rightarrow> string \<Rightarrow> string) \<Rightarrow> go_error \<Rightarrow> string" where
  "Error grpcText (ErrNew m) = m"
| "Error grpcText (ErrWrap m e) = m @ '': '' @ Error grpcText e"
| "Error grpcText (ErrHTTP s c m) = HTTPError_Error s c m"
| "Error grpcText (ErrGRPC c m) = grpcText c m"
| "Error grpcText (ErrExt m) = m"

text \<open>\<^verbatim>\<open>main\<close>: the exit status and what is written to standard error. A panic that reaches the runtime
  ends the process with status 2; its message is the runtime's.\<close>

record exit =
  ex_status :: int
  ex_stderr :: string

definition main ::
    "(nat \<Rightarrow> string \<Rightarrow> string) \<Rightarrow> string \<Rightarrow> ('s \<Rightarrow> unit res outcome \<times> 's) \<Rightarrow> 's \<Rightarrow> exit \<times> 's" where
  "main grpcText panicText dispatched s =
    (case dispatched s of
       (Done (Inr _), s') \<Rightarrow> (\<lparr>ex_status = 0, ex_stderr = ''''\<rparr>, s')
     | (Done (Inl e), s') \<Rightarrow> (\<lparr>ex_status = 1, ex_stderr = ''error: '' @ Error grpcText e @ [CHR 0x0A]\<rparr>, s')
     | (Panic, s') \<Rightarrow> (\<lparr>ex_status = 2, ex_stderr = panicText\<rparr>, s'))"

section \<open>Facts\<close>

lemma NewClientReloader_cached:
  "NewClientReloader F c k w = (Inr r, w') \<Longrightarrow> rl_cached r \<noteq> None \<and> rl_certFile r = c \<and> rl_keyFile r = k"
  by (auto simp: NewClientReloader_def load_def split: if_splits prod.splits sum.splits)

definition client_reloader :: "('esk, 'pk, 'pool) Forwarder \<Rightarrow> 'esk ClientReloader option" where
  "client_reloader f =
    (case fw_conn f of Some conn \<Rightarrow> Some (cc_GetClientCertificate conn) | None \<Rightarrow> fw_reloader f)"

lemma new_forwarder_ok:
  "new_forwarder V cfg rl w = Inr f \<Longrightarrow>
     client_reloader f = Some rl \<and> (fw_conn f = None \<longleftrightarrow> fw_signed f \<noteq> None) \<and> (fw_signed f = None \<longleftrightarrow> cf_AuthMode cfg \<noteq> AuthModeSigned)"
  by (auto simp: new_forwarder_def Forwarder_NewSigned_def Forwarder_New_def client_reloader_def Let_def
      split: if_splits sum.splits)

lemma start_server_wired:
  assumes "start_server V env w = (Inr sv, w')"
  obtains cfg rl where "Load (st_isPrint (sv_start V)) (st_parseDuration (sv_start V)) env = Inr cfg"
    "NewClientReloader (sv_files V) (CertFile cfg) (KeyFile cfg) w = (Inr rl, w')"
    "new_forwarder V cfg rl w' = Inr (sr_forwarder sv)" "sr_pipeline sv = new_pipeline V cfg"
    "sr_handler sv = NewHandler (cf_WebhookMaxConcurrent cfg)"
  using assms by (auto simp: start_server_def split: sum.splits prod.splits)

lemma new_pipeline_redactor:
  "pl_redactor (new_pipeline V cfg) = Redactor_New (sv_compile V) (cf_RedactExtraPatterns cfg) (cf_RedactLogStats cfg)
     (cf_RedactMaxLineBytes cfg) (cf_RedactMaxTotalBytes cfg) (cf_RedactMaxStringBytes cfg)"
  "pl_loki (new_pipeline V cfg) = Some c \<Longrightarrow> lk_maxLines c = cf_LokiMaxLogLines cfg"
  by (auto simp: new_pipeline_def Pipeline_New_def loki_NewClient_def Let_def split: if_splits)

end
