(* ===== verification/PipelineCounters.thy ===== *)
theory PipelineCounters
  imports PipelineSafety
begin

text \<open>
  What a run of the pipeline does to the counters that account for alerts, and the well-formedness of
  the payload it assembles. \<open>alert_counters\<close> are those counters; every redaction and enrichment step
  leaves them alone, so a run counts its alert exactly once, under its status.
\<close>

section \<open>The counters of alerts\<close>

definition alert_counters :: "metrics \<Rightarrow> (string \<Rightarrow> nat) \<times> (string \<Rightarrow> nat) \<times> nat" where
  "alert_counters m = (AlertsReceived m, Forwards m, AlertsDropped m)"

named_theorems counts \<open>steps that leave the counters of alerts alone\<close>

lemma counters_updates [counts]:
  "alert_counters (m\<lparr>EnrichDuration := f\<rparr>) = alert_counters m"
  "alert_counters (m\<lparr>EnrichErrors := f\<rparr>) = alert_counters m"
  "alert_counters (m\<lparr>LinesDropped := f\<rparr>) = alert_counters m"
  "alert_counters (m\<lparr>RedactReplacements := f\<rparr>) = alert_counters m"
  by (simp_all add: alert_counters_def)

lemma RedactString_counters [counts]: "alert_counters (snd (RedactString R m s)) = alert_counters m"
  by (auto simp: RedactString_def Let_def counts split: prod.splits)

lemma redactLine_counters [counts]: "alert_counters (snd (snd (snd (redactLine R l st m)))) = alert_counters m"
  by (auto simp: redactLine_def Let_def counts split: prod.splits)

lemma Redact_loop_counters [counts]: "alert_counters (snd (snd (Redact_loop R ls res tb st m))) = alert_counters m"
proof (induction R ls res tb st m rule: Redact_loop.induct)
  case (2 R line lines res tb st m)
  obtain a b st' m' where r: "redactLine R line st m = (a, b, st', m')" by (metis prod_cases4)
  then show ?case using 2 redactLine_counters[of R line st m] by (simp add: Let_def counts)
qed simp

lemma Redact_counters [counts]: "alert_counters (snd (snd (Redact R m ls))) = alert_counters m"
  by (simp add: Redact_def counts)

lemma redact_labels_counters [counts]: "alert_counters (snd (redact_labels R ls m)) = alert_counters m"
  by (induction ls arbitrary: m) (auto simp: Let_def split_beta counts)

lemma redact_descriptions_counters [counts]: "alert_counters (snd (redact_descriptions R ss m)) = alert_counters m"
  by (induction ss arbitrary: m) (auto simp: Let_def split_beta counts)

lemma redact_messages_counters [counts]: "alert_counters (snd (redact_messages R es m)) = alert_counters m"
  by (induction es arbitrary: m) (auto simp: Let_def split_beta counts)

lemma object_events_counters [counts]:
  "alert_counters (fst (snd (object_events E R cs ns objs acc m w))) = alert_counters m"
proof (induction objs arbitrary: acc m w)
  case (Cons name objs)
  show ?case by (cases "FetchEvents (pe_sortSlice E) cs ns name w")
      (auto simp: Let_def split_beta counts Cons split: sum.splits)
qed simp

lemma initial_payload_counters [counts]:
  "alert_counters (snd (initial_payload P alert t m)) = alert_counters m"
  by (simp add: initial_payload_def Let_def split_beta counts)

lemma enrich_logs_counters [counts]:
  "alert_counters (fst (snd (enrich_logs E P ns t p m w))) = alert_counters m"
  by (auto simp: enrich_logs_def Let_def split_beta counts split: option.splits outcome.splits sum.splits prod.splits)

lemma enrich_metrics_counters [counts]:
  "alert_counters (fst (snd (enrich_metrics E P ns t p m w))) = alert_counters m"
  by (auto simp: enrich_metrics_def Let_def split_beta counts split: sum.splits prod.splits)

lemma enrich_events_counters [counts]:
  "alert_counters (fst (snd (enrich_events E P ns t p m w))) = alert_counters m"
  by (auto simp: enrich_events_def Let_def split_beta counts split: option.splits)

lemma assemble_counters:
  "alert_counters (fst (snd (assemble E P alert m w))) = alert_counters (inc_AlertsReceived (alert_status alert) m)"
  unfolding assemble_def Let_def split_beta
  by (auto simp: counts split: outcome.splits)

section \<open>Well-formed payloads\<close>

definition int32 :: "int \<Rightarrow> bool" where
  "int32 x = (- (2 ^ 31) \<le> x \<and> x < 2 ^ 31)"

text \<open>The statistics of the log lines fit their fields and each other, for a Loki client whose line limit
  is a non-negative \<^verbatim>\<open>int32\<close> (or without Loki).\<close>

definition log_counts_ok :: "('w, 'sel) Pipeline \<Rightarrow> AlertPayload \<Rightarrow> bool" where
  "log_counts_ok P p =
    (int32 (ap_TotalLogLines p) \<and> int32 (ap_RedactedLogLines p) \<and> int32 (ap_TotalReplacements p)
     \<and> (\<forall>limit. (case pl_loki P of None \<Rightarrow> limit = 0 | Some c \<Rightarrow> limit = lk_maxLines c) \<and> 0 \<le> limit \<and> limit < 2 ^ 31 \<longrightarrow>
          0 \<le> ap_RedactedLogLines p \<and> ap_RedactedLogLines p \<le> ap_TotalLogLines p \<and> ap_TotalLogLines p \<le> limit
          \<and> int (length (ap_RedactedLogs p)) \<le> ap_TotalLogLines p))"

definition target_types :: "string set" where
  "target_types = {''pod'', ''deployment'', ''daemonset'', ''node'', ''pvc'', ''namespace'', ''unknown''}"

definition payload_typed :: "('w, 'sel) Pipeline \<Rightarrow> AlertPayload \<Rightarrow> bool" where
  "payload_typed P p =
    (log_counts_ok P p \<and> ap_Status p \<noteq> '''' \<and> tg_TargetType (ap_Target p) \<in> target_types
     \<and> length (tg_ResolvedPods (ap_Target p)) \<le> 10 \<and> tg_Namespace (ap_Target p) = ap_Namespace p
     \<and> ap_ClusterId p = pl_clusterID P)"

lemma to_int32_int32: "int32 (to_int32 x)" "0 \<le> x \<Longrightarrow> x < 2 ^ 31 \<Longrightarrow> to_int32 x = x"
  using to_int32_range[of x] to_int32_id[of x] by (auto simp: int32_def)

lemma Redact_stats:
  fixes lines :: "string list"
  assumes "Redact R m lines = (out, st, m')"
  shows "TotalLines st = int (length lines)" "0 \<le> RedactedLines st" "RedactedLines st \<le> TotalLines st"
    "length out \<le> length lines"
proof -
  let ?st0 = "\<lparr>TotalLines = int (length lines), RedactedLines = 0, DroppedLines = 0, Replacements = 0, ByCategory = (\<lambda>_. 0)\<rparr> :: Stats"
  have s: "TotalLines st = int (length lines)" "RedactedLines st = int (length (filter is_rewritten (decide R 0 lines)))"
    using Redact_loop_stats[of ?st0 "[]" lines R 0 m] assms by (simp_all add: Redact_def Let_def)
  then show "TotalLines st = int (length lines)" "0 \<le> RedactedLines st" by simp_all
  show "RedactedLines st \<le> TotalLines st"
    using s decide_length[of R 0 lines] length_filter_le[of is_rewritten "decide R 0 lines"] by linarith
  show "length out \<le> length lines" using Redact_length[of R m lines] assms by simp
qed

lemma enrich_logs_counts:
  assumes "enrich_logs E P ns t p m w = (Done p', m', w')" "log_counts_ok P p"
  shows "log_counts_ok P p'"
proof (cases "p' = p")
  case False
  then obtain c where c: "pl_loki P = Some c" "tg_ResolvedPods t \<noteq> []" "ns \<noteq> ''''"
    using assms(1) by (auto simp: enrich_logs_def split: option.splits if_splits)
  obtain q w1 where q: "FetchLogs (pe_isPrint E) (pe_decodeLoki E) (pe_http E) c ns (tg_ResolvedPods t) w = (q, w1)"
    by fastforce
  obtain logs where l: "q = Done (Inr logs)" "0 \<le> lk_maxLines c \<longrightarrow> int (length logs) \<le> lk_maxLines c"
    using FetchLogs_total[OF q] assms(1) c q by (auto simp: enrich_logs_def)
  let ?m0 = "observe_EnrichDuration ''loki'' m"
  obtain out st mr where R: "Redact (pl_redactor P) ?m0 logs = (out, st, mr)" by (metis prod_cases3)
  have "p' = p\<lparr>ap_RedactedLogs := out, ap_TotalLogLines := to_int32 (TotalLines st),
      ap_RedactedLogLines := to_int32 (RedactedLines st), ap_TotalReplacements := to_int32 (Replacements st)\<rparr>"
    using assms(1) c q l(1) R False by (auto simp: enrich_logs_def split: if_splits)
  moreover have "RedactedLines st < 2 ^ 31 \<and> TotalLines st < 2 ^ 31" if "0 \<le> lk_maxLines c" "lk_maxLines c < 2 ^ 31"
    using that l(2) Redact_stats[OF R] by linarith
  ultimately show ?thesis using Redact_stats[OF R] l(2) c(1)
    by (auto simp: log_counts_ok_def to_int32_int32)
qed (use assms(2) in simp)

lemma log_counts_update [simp]:
  "log_counts_ok P (p\<lparr>ap_Metrics := x\<rparr>) = log_counts_ok P p" "log_counts_ok P (p\<lparr>ap_PodMetas := y\<rparr>) = log_counts_ok P p"
  "log_counts_ok P (p\<lparr>ap_Events := z\<rparr>) = log_counts_ok P p"
  by (simp_all add: log_counts_ok_def)

lemma initial_log_counts: "initial_payload P alert t m = (p, m') \<Longrightarrow> log_counts_ok P p"
  by (auto simp: initial_payload_def Let_def split_beta log_counts_ok_def int32_def)

lemma enrich_events_logs:
  "enrich_events E P ns t p m w = (p', m', w') \<Longrightarrow> log_counts_ok P p' = log_counts_ok P p"
  by (auto simp: enrich_events_def Let_def split_beta split: option.splits if_splits)

lemma enrich_rest_logs:
  "enrich_metrics E P ns t p m w = (p', m', w') \<Longrightarrow> log_counts_ok P p' = log_counts_ok P p"
  "enrich_meta P ns t p w = (p'', w'') \<Longrightarrow> log_counts_ok P p'' = log_counts_ok P p"
  by (auto simp: enrich_metrics_def enrich_meta_def Let_def split_beta split: option.splits sum.splits prod.splits)

lemma assemble_log_counts:
  assumes "assemble E P alert m w = (Done p, m', w')"
  shows "log_counts_ok P p"
proof (cases "alert_status alert = ''resolved''")
  case True
  show ?thesis by (rule assemble_resolved[OF assms True]) (rule initial_log_counts)
next
  case False
  show ?thesis
    by (rule assemble_firing[OF assms False])
      (simp add: enrich_events_logs enrich_rest_logs enrich_logs_counts[OF _ initial_log_counts])
qed

lemma Resolve_type:
  "tg_TargetType (fst (Resolve r labels w)) \<in> target_types"
  "tg_Namespace (fst (Resolve r labels w)) = lookup_or_empty labels ''namespace''"
proof -
  have "tg_TargetType (spec_target labels) \<in> target_types" "tg_Namespace (spec_target labels) = lookup_or_empty labels ''namespace''"
    by (simp_all add: spec_target_def precedence_def target_types_def empty_target_def)
  then show "tg_TargetType (fst (Resolve r labels w)) \<in> target_types"
    "tg_Namespace (fst (Resolve r labels w)) = lookup_or_empty labels ''namespace''"
    using arg_cong[OF Resolve_spec[of r labels w], of tg_TargetType] arg_cong[OF Resolve_spec[of r labels w], of tg_Namespace]
    by simp_all
qed

lemma assemble_typed:
  assumes "assemble E P alert m w = (Done p, m', w')"
  shows "payload_typed P p"
proof -
  let ?t = "fst (Resolve (pl_resolver P) (al_Labels alert) w)"
  let ?p0 = "fst (initial_payload P alert ?t (inc_AlertsReceived (alert_status alert) m))"
  have "identity_fields p = identity_fields ?p0"
    using assemble_facts[OF assms refl refl] by (simp add: payload_ok_def)
  moreover have "alert_status alert \<noteq> ''''" by (simp add: alert_status_def)
  ultimately show ?thesis
    using assemble_log_counts[OF assms] Resolve_type[of "pl_resolver P" "al_Labels alert" w]
      Resolve_pods_bound[of "pl_resolver P" "al_Labels alert" w]
    by (simp add: payload_typed_def identity_fields_def initial_payload_def Let_def split_beta)
qed

section \<open>Property\<close>



end
