(* ===== verification/ForwardSteps.thy ===== *)
theory ForwardSteps
  imports Forwarder
begin

text \<open>
  \<^verbatim>\<open>Forward\<close> attempt by attempt, for interleaving: a worker in \<^verbatim>\<open>Forward\<close> is about to send, waiting for
  the backoff, or has its result. \<open>after_send\<close> and \<open>after_wait\<close> are the code between two such points;
  \<open>run_phases\<close> runs them without interruption and is \<open>Forward\<close>.
\<close>

text \<open>\<open>Sending k\<close> is before the call of \<^verbatim>\<open>send\<close> with \<^verbatim>\<open>attempt == k\<close>, \<open>Waiting k\<close> at the \<^verbatim>\<open>select\<close> of the
  iteration with \<^verbatim>\<open>attempt == k\<close>, \<open>Ended k r\<close> at the return of \<open>r\<close>; in each, \<^verbatim>\<open>k\<close> sendings lie behind.\<close>

datatype phase = Sending nat | Waiting nat | Ended nat "unit res"

text \<open>From the return of \<^verbatim>\<open>send\<close> to the next \<^verbatim>\<open>select\<close> or the end.\<close>

definition after_send :: "nat \<Rightarrow> unit res \<Rightarrow> metrics \<Rightarrow> phase \<times> metrics" where
  "after_send k r m =
    (case r of
       Inr _ \<Rightarrow> (Ended (k + 1) (Inr ()), inc_Forwards ''ok'' m)
     | Inl e \<Rightarrow>
        if isPermanent e \<or> \<not> k + 1 < 3
        then (Ended (k + 1) (Inl (ErrWrap ''forward failed'' e)), inc_Forwards ''error'' m)
        else (Waiting (k + 1), inc_ForwardRetries m))"

text \<open>From the end of the \<^verbatim>\<open>select\<close>, the context cancelled or not, to the next sending or the end.\<close>

definition after_wait :: "nat \<Rightarrow> go_error option \<Rightarrow> metrics \<Rightarrow> phase \<times> metrics" where
  "after_wait k cancelled m =
    (case cancelled of
       Some e \<Rightarrow> (Ended k (Inl (ErrWrap ''forward cancelled during backoff'' e)), inc_Forwards ''error'' m)
     | None \<Rightarrow> (Sending k, m))"

function run_phases ::
    "('s \<Rightarrow> unit res outcome \<times> 's) \<Rightarrow> (int \<Rightarrow> 's \<Rightarrow> go_error option \<times> 's) \<Rightarrow> phase \<Rightarrow> metrics \<Rightarrow> 's
     \<Rightarrow> unit res outcome \<times> metrics \<times> 's" where
  "run_phases sendF backoff (Ended k r) m s = (Done r, observe_ForwardDuration m, s)"
| "run_phases sendF backoff (Waiting k) m s =
    (case backoff (2 ^ k) s of
       (c, s') \<Rightarrow> (case after_wait k c m of (ph, m') \<Rightarrow> run_phases sendF backoff ph m' s'))"
| "run_phases sendF backoff (Sending k) m s =
    (case sendF s of
       (Panic, s') \<Rightarrow> (Panic, observe_ForwardDuration m, s')
     | (Done r, s') \<Rightarrow> (case after_send k r m of (ph, m') \<Rightarrow> run_phases sendF backoff ph m' s'))"
  by pat_completeness auto

text \<open>How many more phases there can be.\<close>

fun phases_left :: "phase \<Rightarrow> nat" where
  "phases_left (Ended k r) = 0"
| "phases_left (Waiting k) = 2 * (3 - k) + 2"
| "phases_left (Sending k) = 2 * (3 - k) + 1"

lemma after_send_left: "phases_left (fst (after_send k r m)) < phases_left (Sending k)"
  by (auto simp: after_send_def split: sum.splits if_splits)

lemma after_wait_left: "phases_left (fst (after_wait k c m)) < phases_left (Waiting k)"
  by (auto simp: after_wait_def split: option.splits)

termination run_phases
  by (relation "measure (\<lambda>(sendF, backoff, ph, m, s). phases_left ph)")
    (auto dest!: arg_cong[of _ _ fst] simp: after_send_left after_wait_left simp del: phases_left.simps)

lemma Forward_phases: "Forward sendF backoff m s = run_phases sendF backoff (Sending 0) m s"
  by (simp add: Forward_unfold after_send_def after_wait_def Let_def numeral_2_eq_2 numeral_3_eq_3
      split: forward_splits)

section \<open>What a phase says of the run\<close>

fun attempts :: "phase \<Rightarrow> nat" where
  "attempts (Sending k) = k"
| "attempts (Waiting k) = k"
| "attempts (Ended k r) = k"

fun phase_result :: "phase \<Rightarrow> unit res option" where
  "phase_result (Ended k r) = Some r"
| "phase_result _ = None"

fun phase_ok :: "phase \<Rightarrow> bool" where
  "phase_ok (Sending k) = (k < 3)"
| "phase_ok (Waiting k) = (1 \<le> k \<and> k < 3)"
| "phase_ok (Ended k r) = (1 \<le> k \<and> k \<le> 3)"

lemma after_send_phase:
  "after_send k r m = (ph, m') \<Longrightarrow> phase_ok (Sending k) \<Longrightarrow> phase_ok ph \<and> attempts ph = Suc k"
  by (auto simp: after_send_def split: sum.splits if_splits)

lemma after_wait_phase:
  "after_wait k c m = (ph, m') \<Longrightarrow> phase_ok (Waiting k) \<Longrightarrow> phase_ok ph \<and> attempts ph = k"
  by (auto simp: after_wait_def split: option.splits)

lemma phase_ok_attempts: "phase_ok ph \<Longrightarrow> attempts ph \<le> 3"
  by (cases ph) auto

end
