(* ===== verification/System.thy ===== *)
theory System
  imports Collector PipelineCounters ForwardSteps
begin

text \<open>
  The running server as one state machine: the endpoint of \<open>Webhook\<close>, the workers of \<open>Pipeline\<close> and the
  retries of \<open>Forwarder\<close> over one metrics registry. A worker assembles its payload in one step
  (\<open>ProcessAlert_assemble\<close> says that this and \<open>Forward\<close> make up \<open>ProcessAlert\<close>) and then takes one step per attempt and
  per wait (\<open>Forward_steps\<close> says that these make up \<open>Forward\<close>), so workers interleave as they do in the code:
  one enriches or sends while others wait for their backoff; the world outside may change at any time.
  The machine refines the endpoint's own one, whose accounting thereby holds of it.
\<close>

section \<open>State\<close>

text \<open>A worker with its payload assembled, and where it is in \<open>Forward\<close>.\<close>

type_synonym worker = "Alert \<times> AlertPayload \<times> phase"

text \<open>\<open>sy_fresh\<close> are the admitted alerts whose worker has not begun, \<open>sy_ready\<close> the workers in \<open>Forward\<close>,
  \<open>sy_results\<close> those finished, in their last phase. \<open>sy_sent\<close> is every payload ever handed to the
  transport, in order.\<close>

record ('f, 'w) system =
  sy_webhook :: webhook
  sy_fresh :: "Alert multiset"
  sy_ready :: "worker multiset"
  sy_results :: "worker multiset"
  sy_sent :: "AlertPayload list"
  sy_forwarder :: 'f
  sy_world :: 'w

definition system_init :: "Handler \<Rightarrow> metrics \<Rightarrow> 'f \<Rightarrow> 'w \<Rightarrow> ('f, 'w) system" where
  "system_init h m f w =
    \<lparr>sy_webhook = \<lparr>wh_handler = h, wh_metrics = m, wh_pending = [], wh_accepted = {#}, wh_running = {#},
       wh_finished = {#}, wh_dropped = {#}, wh_replies = [], wh_crashed = False\<rparr>,
     sy_fresh = {#}, sy_ready = {#}, sy_results = {#}, sy_sent = [], sy_forwarder = f, sy_world = w\<rparr>"

section \<open>Steps\<close>

inductive collector_step ::
    "(bytes \<Rightarrow> AlertManagerPayload res) \<Rightarrow> 'w pipeline_env \<Rightarrow> ('w, 'sel) Pipeline
     \<Rightarrow> (AlertPayload \<Rightarrow> 'f \<times> 'w \<Rightarrow> unit res outcome \<times> 'f \<times> 'w) \<Rightarrow> (int \<Rightarrow> 'f \<times> 'w \<Rightarrow> go_error option \<times> 'f \<times> 'w)
     \<Rightarrow> ('f, 'w) system \<Rightarrow> ('f, 'w) system \<Rightarrow> bool"
  for unmarshal E P sendF backoff where
  endpoint: "\<lbrakk>webhook_step unmarshal (sy_webhook s) wh; wh_finished wh = wh_finished (sy_webhook s); \<not> wh_crashed wh\<rbrakk>
    \<Longrightarrow> collector_step unmarshal E P sendF backoff s
          (s\<lparr>sy_webhook := wh, sy_fresh := sy_fresh s + (wh_running wh - wh_running (sy_webhook s))\<rparr>)"
| outside: "\<not> wh_crashed (sy_webhook s) \<Longrightarrow> collector_step unmarshal E P sendF backoff s (s\<lparr>sy_world := w\<rparr>)"
| prepare: "\<lbrakk>\<not> wh_crashed (sy_webhook s); a \<in># sy_fresh s;
     assemble E P a (wh_metrics (sy_webhook s)) (sy_world s) = (Done p, m, w)\<rbrakk>
    \<Longrightarrow> collector_step unmarshal E P sendF backoff s
          (s\<lparr>sy_webhook := (sy_webhook s)\<lparr>wh_metrics := m\<rparr>, sy_fresh := sy_fresh s - {#a#},
             sy_ready := add_mset (a, p, Sending 0) (sy_ready s), sy_world := w\<rparr>)"
| prepare_panic: "\<lbrakk>\<not> wh_crashed (sy_webhook s); a \<in># sy_fresh s;
     assemble E P a (wh_metrics (sy_webhook s)) (sy_world s) = (Panic, m, w)\<rbrakk>
    \<Longrightarrow> collector_step unmarshal E P sendF backoff s
          (s\<lparr>sy_webhook := (sy_webhook s)\<lparr>wh_crashed := True\<rparr>, sy_world := w\<rparr>)"
| send: "\<lbrakk>\<not> wh_crashed (sy_webhook s); (a, p, Sending k) \<in># sy_ready s;
     sendF p (sy_forwarder s, sy_world s) = (Done r, f, w); after_send k r (wh_metrics (sy_webhook s)) = (ph, m)\<rbrakk>
    \<Longrightarrow> collector_step unmarshal E P sendF backoff s
          (s\<lparr>sy_webhook := (sy_webhook s)\<lparr>wh_metrics := m\<rparr>,
             sy_ready := add_mset (a, p, ph) (sy_ready s - {#(a, p, Sending k)#}),
             sy_sent := sy_sent s @ [p], sy_forwarder := f, sy_world := w\<rparr>)"
| send_panic: "\<lbrakk>\<not> wh_crashed (sy_webhook s); (a, p, Sending k) \<in># sy_ready s;
     sendF p (sy_forwarder s, sy_world s) = (Panic, f, w)\<rbrakk>
    \<Longrightarrow> collector_step unmarshal E P sendF backoff s
          (s\<lparr>sy_webhook := (sy_webhook s)\<lparr>wh_crashed := True\<rparr>, sy_sent := sy_sent s @ [p], sy_forwarder := f, sy_world := w\<rparr>)"
| wait: "\<lbrakk>\<not> wh_crashed (sy_webhook s); (a, p, Waiting k) \<in># sy_ready s;
     backoff (2 ^ k) (sy_forwarder s, sy_world s) = (c, f, w); after_wait k c (wh_metrics (sy_webhook s)) = (ph, m)\<rbrakk>
    \<Longrightarrow> collector_step unmarshal E P sendF backoff s
          (s\<lparr>sy_webhook := (sy_webhook s)\<lparr>wh_metrics := m\<rparr>,
             sy_ready := add_mset (a, p, ph) (sy_ready s - {#(a, p, Waiting k)#}), sy_forwarder := f, sy_world := w\<rparr>)"
| finish: "\<lbrakk>\<not> wh_crashed (sy_webhook s); (a, p, Ended k r) \<in># sy_ready s;
     receive (hn_sem (wh_handler (sy_webhook s))) = Some c\<rbrakk>
    \<Longrightarrow> collector_step unmarshal E P sendF backoff s
          (s\<lparr>sy_webhook := (sy_webhook s)\<lparr>wh_handler := (wh_handler (sy_webhook s))\<lparr>hn_sem := c\<rparr>,
               wh_metrics := observe_ForwardDuration (wh_metrics (sy_webhook s)),
               wh_running := wh_running (sy_webhook s) - {#a#},
               wh_finished := add_mset a (wh_finished (sy_webhook s))\<rparr>,
             sy_ready := sy_ready s - {#(a, p, Ended k r)#}, sy_results := add_mset (a, p, Ended k r) (sy_results s)\<rparr>)"

text \<open>Unless something comes between them, the steps of a worker in \<open>Forward\<close> are a run of \<open>Forward\<close>.\<close>

lemma phases_steps:
  assumes "run_phases (sendF p) backoff ph (wh_metrics (sy_webhook s)) (sy_forwarder s, sy_world s) = (Done r, m, f, w)"
    and "(a, p, ph) \<in># sy_ready s" "\<not> wh_crashed (sy_webhook s)"
  shows "\<exists>k m1 sent. (collector_step u E P sendF backoff)\<^sup>*\<^sup>* s
      (s\<lparr>sy_webhook := (sy_webhook s)\<lparr>wh_metrics := m1\<rparr>, sy_ready := add_mset (a, p, Ended k r) (sy_ready s - {#(a, p, ph)#}),
         sy_sent := sent, sy_forwarder := f, sy_world := w\<rparr>) \<and> m = observe_ForwardDuration m1"
  using assms
proof (induction "phases_left ph" arbitrary: ph s rule: less_induct)
  case less
  have go: ?case if "collector_step u E P sendF backoff s (s\<lparr>sy_webhook := (sy_webhook s)\<lparr>wh_metrics := m'\<rparr>,
      sy_ready := add_mset (a, p, ph') (sy_ready s - {#(a, p, ph)#}), sy_sent := sent', sy_forwarder := f', sy_world := w'\<rparr>)"
    and "run_phases (sendF p) backoff ph' m' (f', w') = (Done r, m, f, w)" and "phases_left ph' < phases_left ph"
    for ph' m' sent' f' w'
    using less(1)[OF that(3), of "s\<lparr>sy_webhook := (sy_webhook s)\<lparr>wh_metrics := m'\<rparr>,
      sy_ready := add_mset (a, p, ph') (sy_ready s - {#(a, p, ph)#}), sy_sent := sent', sy_forwarder := f', sy_world := w'\<rparr>"]
      that(1,2) less(4) by (auto intro: converse_rtranclp_into_rtranclp)
  show ?case
  proof (cases ph)
    case (Sending k)
    obtain q f1 w1 where q: "sendF p (sy_forwarder s, sy_world s) = (Done q, f1, w1)"
      using less(2) Sending by (auto split: prod.splits outcome.splits)
    obtain ph' m1 where "after_send k q (wh_metrics (sy_webhook s)) = (ph', m1)" by fastforce
    then show ?thesis
      using go[where m' = m1 and ph' = ph' and sent' = "sy_sent s @ [p]" and f' = f1 and w' = w1]
        collector_step.send[of s a p k sendF q f1 w1 ph' m1 u E P backoff]
        less(2-4) Sending q after_send_left[of k q "wh_metrics (sy_webhook s)"] by simp
  next
    case (Waiting k)
    obtain c f1 w1 where c: "backoff (2 ^ k) (sy_forwarder s, sy_world s) = (c, f1, w1)" by (metis prod_cases3)
    obtain ph' m1 where "after_wait k c (wh_metrics (sy_webhook s)) = (ph', m1)" by fastforce
    then show ?thesis
      using go[where m' = m1 and ph' = ph' and sent' = "sy_sent s" and f' = f1 and w' = w1]
        collector_step.wait[of s a p k backoff c f1 w1 ph' m1 u E P sendF]
        less(2-4) Waiting c after_wait_left[of k c "wh_metrics (sy_webhook s)"] by simp
  next
    case (Ended k r')
    have "s = s\<lparr>sy_webhook := (sy_webhook s)\<lparr>wh_metrics := wh_metrics (sy_webhook s)\<rparr>,
        sy_ready := add_mset (a, p, Ended k r) (sy_ready s - {#(a, p, ph)#}),
        sy_sent := sy_sent s, sy_forwarder := f, sy_world := w\<rparr>" using less(2,3) Ended by simp
    then show ?thesis using less(2) Ended rtranclp.rtrancl_refl by (metis run_phases.simps(1) prod.inject)
  qed
qed

lemmas Forward_steps = phases_steps[where ph = "Sending 0", folded Forward_phases]

section \<open>What a worker does to the counters\<close>

definition counted_phase :: "phase \<Rightarrow> metrics \<Rightarrow> metrics" where
  "counted_phase ph m = (case phase_result ph of None \<Rightarrow> m | Some r \<Rightarrow> counted_as (Done r) m)"

lemma after_send_counters: "after_send k r m = (ph, m') \<Longrightarrow> alert_counters m' = alert_counters (counted_phase ph m)"
  by (auto simp: after_send_def counted_phase_def counted_as_def alert_counters_def split: sum.splits if_splits)

lemma after_wait_counters: "after_wait k c m = (ph, m') \<Longrightarrow> alert_counters m' = alert_counters (counted_phase ph m)"
  by (auto simp: after_wait_def counted_phase_def counted_as_def alert_counters_def split: option.splits)

lemma counters_eqD:
  "alert_counters m = alert_counters m' \<Longrightarrow> AlertsReceived m = AlertsReceived m' \<and> Forwards m = Forwards m' \<and> AlertsDropped m = AlertsDropped m'"
  by (simp add: alert_counters_def)

lemma counted_phase_dropped: "AlertsDropped (counted_phase ph m) = AlertsDropped m"
  by (simp add: counted_phase_def counted_as_def split: option.splits sum.splits)

section \<open>Invariants\<close>

text \<open>Where the alerts are: the running workers are the fresh and the ready ones.\<close>

definition flow_ok :: "('f, 'w) system \<Rightarrow> bool" where
  "flow_ok s =
    (wh_running (sy_webhook s) = sy_fresh s + image_mset fst (sy_ready s)
     \<and> wh_finished (sy_webhook s) = image_mset fst (sy_results s))"

text \<open>The counters, against their values \<open>m0\<close> at the start.\<close>

definition ended :: "(unit res \<Rightarrow> bool) \<Rightarrow> worker \<Rightarrow> bool" where
  "ended Q x = (case phase_result (snd (snd x)) of None \<Rightarrow> False | Some r \<Rightarrow> Q r)"

definition counts_ok :: "metrics \<Rightarrow> ('f, 'w) system \<Rightarrow> bool" where
  "counts_ok m0 s =
    (let m = wh_metrics (sy_webhook s); W = sy_ready s + sy_results s in
     (\<forall>st. AlertsReceived m st = AlertsReceived m0 st + size {#x \<in># W. alert_status (fst x) = st#})
     \<and> Forwards m ''ok'' = Forwards m0 ''ok'' + size {#x \<in># W. ended res_ok x#}
     \<and> Forwards m ''error'' = Forwards m0 ''error'' + size {#x \<in># W. ended (Not \<circ> res_ok) x#})"

text \<open>The payloads: what workers hold and what is sent is sound.\<close>

definition sound_payload :: "('w, 'sel) Pipeline \<Rightarrow> AlertPayload \<Rightarrow> bool" where
  "sound_payload P p = (sanitised P p \<and> within_bounds P p \<and> payload_typed P p)"

definition payloads_ok :: "('w, 'sel) Pipeline \<Rightarrow> ('f, 'w) system \<Rightarrow> bool" where
  "payloads_ok P s =
    ((\<forall>x \<in># sy_ready s. sound_payload P (fst (snd x))) \<and> (\<forall>p \<in> set (sy_sent s). sound_payload P p))"

text \<open>The sendings: what is sent is what the workers' phases say, and the one sending the process may have
  died in.\<close>

definition worker_payloads :: "worker multiset \<Rightarrow> AlertPayload multiset" where
  "worker_payloads W = image_mset (\<lambda>x. fst (snd x)) W"

definition sendings :: "worker multiset \<Rightarrow> AlertPayload multiset" where
  "sendings W = (\<Sum>x \<in># W. replicate_mset (attempts (snd (snd x))) (fst (snd x)))"

definition sendings_ok :: "('f, 'w) system \<Rightarrow> bool" where
  "sendings_ok s =
    ((\<forall>x \<in># sy_ready s + sy_results s. phase_ok (snd (snd x)))
     \<and> (\<forall>x \<in># sy_results s. phase_result (snd (snd x)) \<noteq> None)
     \<and> (mset (sy_sent s) = sendings (sy_ready s + sy_results s)
        \<or> wh_crashed (sy_webhook s) \<and> (\<exists>a p k. (a, p, Sending k) \<in># sy_ready s
            \<and> mset (sy_sent s) = add_mset p (sendings (sy_ready s + sy_results s)))))"

lemma sendings_simps [simp]:
  "sendings {#} = {#}"
  "sendings (add_mset (a, p, ph) W) = replicate_mset (attempts ph) p + sendings W"
  "sendings (V + W) = sendings V + sendings W"
  by (simp_all add: sendings_def)

lemma worker_payloads_simps [simp]:
  "worker_payloads {#} = {#}"
  "worker_payloads (add_mset (a, p, ph) W) = add_mset p (worker_payloads W)"
  "worker_payloads (V + W) = worker_payloads V + worker_payloads W"
  by (simp_all add: worker_payloads_def)

lemma sendings_upper: "\<forall>x \<in># W. phase_ok (snd (snd x)) \<Longrightarrow> sendings W \<subseteq># repeat_mset 3 (worker_payloads W)"
proof (induction W)
  case (add x W)
  obtain a p ph where x: "x = (a, p, ph)" by (cases x)
  have "replicate_mset (attempts ph) p \<subseteq># replicate_mset 3 p"
    using phase_ok_attempts[of ph] add(2) x by (simp add: count_le_replicate_mset_subset_eq[symmetric])
  from subset_mset.add_mono[OF this add(1)] show ?case using add(2) x by simp
qed simp

lemma sendings_lower:
  "\<forall>x \<in># W. phase_ok (snd (snd x)) \<and> phase_result (snd (snd x)) \<noteq> None \<Longrightarrow> worker_payloads W \<subseteq># sendings W"
proof (induction W)
  case (add x W)
  obtain a p ph where x: "x = (a, p, ph)" by (cases x)
  then have "{#p#} \<subseteq># replicate_mset (attempts ph) p" using add(2) by (cases ph) auto
  from subset_mset.add_mono[OF this add(1)] show ?case using add(2) x by simp
qed simp

lemma sendings_bounds:
  assumes "sendings_ok s"
  shows "worker_payloads (sy_results s) \<subseteq># mset (sy_sent s)
    \<and> mset (sy_sent s) \<subseteq># repeat_mset 3 (worker_payloads (sy_ready s + sy_results s))"
proof
  have "worker_payloads (sy_results s) \<subseteq># sendings (sy_results s)"
    using sendings_lower assms by (auto simp: sendings_ok_def)
  then show "worker_payloads (sy_results s) \<subseteq># mset (sy_sent s)"
    using assms by (auto simp: sendings_ok_def intro: subset_mset.order_trans)
  show "mset (sy_sent s) \<subseteq># repeat_mset 3 (worker_payloads (sy_ready s + sy_results s))"
  proof (cases "mset (sy_sent s) = sendings (sy_ready s + sy_results s)")
    case True
    then show ?thesis using sendings_upper[of "sy_ready s + sy_results s"] assms by (simp add: sendings_ok_def)
  next
    case False
    then obtain a p k R where R: "sy_ready s = add_mset (a, p, Sending k) R"
      "mset (sy_sent s) = add_mset p (sendings (sy_ready s + sy_results s))"
      using assms by (auto simp: sendings_ok_def dest: multi_member_split)
    then have "k < 3" "sendings (R + sy_results s) \<subseteq># repeat_mset 3 (worker_payloads (R + sy_results s))"
      using sendings_upper[of "R + sy_results s"] assms by (auto simp: sendings_ok_def)
    moreover from \<open>k < 3\<close> have "replicate_mset (Suc k) p \<subseteq># replicate_mset 3 p"
      by (simp add: count_le_replicate_mset_subset_eq[symmetric] del: replicate_mset_Suc)
    ultimately have "replicate_mset (Suc k) p + sendings (R + sy_results s)
        \<subseteq># replicate_mset 3 p + repeat_mset 3 (worker_payloads (R + sy_results s))"
      by (intro subset_mset.add_mono)
    then show ?thesis using R by (simp add: ac_simps)
  qed
qed

lemma endpoint_step:
  assumes "webhook_step u wh wh'" "wh_finished wh' = wh_finished wh" "\<not> wh_crashed wh'"
  shows "wh_running wh \<subseteq># wh_running wh' \<and> \<not> wh_crashed wh
    \<and> AlertsReceived (wh_metrics wh') = AlertsReceived (wh_metrics wh) \<and> Forwards (wh_metrics wh') = Forwards (wh_metrics wh)"
  using assms
proof (cases rule: webhook_step.cases)
  case handle
  from handle(2) show ?thesis
  proof (cases rule: handler_step.cases)
    case (admit xs a as ys h m)
    then show ?thesis using offer_cases[OF admit(3)] handle(1) by auto
  next
    case (drop xs a as ys h m)
    then show ?thesis using offer_cases[OF drop(3)] handle(1) by auto
  qed (use handle(1) in auto)
qed auto

lemma assemble_sound: "assemble E P a m w = (Done p, m', w') \<Longrightarrow> sound_payload P p"
  using assemble_facts[of E P a m w p m' w'] assemble_typed[of E P a m w p m' w']
  by (simp add: sound_payload_def payload_ok_def)

lemma step_flow: "collector_step u E P sendF backoff s s' \<Longrightarrow> flow_ok s \<Longrightarrow> flow_ok s'"
proof (induction rule: collector_step.induct)
  case (endpoint s wh)
  obtain D where "wh_running wh = wh_running (sy_webhook s) + D"
    using endpoint_step[OF endpoint(1-3)] by (metis mset_subset_eq_exists_conv)
  then show ?case using endpoint by (simp add: flow_ok_def)
next
  case (prepare s a p m w)
  then obtain F where "sy_fresh s = add_mset a F" by (meson multi_member_split)
  then show ?case using prepare by (simp add: flow_ok_def)
next
  case (send s a p k r f w ph m)
  then obtain F where "sy_ready s = add_mset (a, p, Sending k) F" by (meson multi_member_split)
  then show ?case using send by (simp add: flow_ok_def)
next
  case (wait s a p k c f w ph m)
  then obtain F where "sy_ready s = add_mset (a, p, Waiting k) F" by (meson multi_member_split)
  then show ?case using wait by (simp add: flow_ok_def)
next
  case (finish s a p k r c)
  then obtain F where "sy_ready s = add_mset (a, p, Ended k r) F" by (meson multi_member_split)
  then show ?case using finish by (simp add: flow_ok_def)
qed (auto simp: flow_ok_def)

lemma ended_simps [simp]:
  "\<not> ended Q (a, p, Sending k)" "\<not> ended Q (a, p, Waiting k)" "ended Q (a, p, Ended k r) = Q r"
  by (simp_all add: ended_def)

text \<open>A worker that goes from one phase to the next and counts what it ends with.\<close>

lemma phase_counts:
  assumes "counts_ok m0 s" "sy_ready s = add_mset (a, p, ph) R" "phase_result ph = None"
    and "alert_counters m = alert_counters (counted_phase ph' (wh_metrics (sy_webhook s)))"
    and "wh_metrics (sy_webhook s') = m" "sy_ready s' = add_mset (a, p, ph') R" "sy_results s' = sy_results s"
  shows "counts_ok m0 s'"
proof -
  have e: "\<not> ended Q (a, p, ph)" for Q using assms(3) by (simp add: ended_def)
  show ?thesis
    using assms(1) counters_eqD[OF assms(4)] e unfolding counts_ok_def Let_def assms(2,5-7)
    by (cases ph'; cases "the (phase_result ph')") (auto simp: counted_phase_def counted_as_def)
qed

lemma step_counts: "collector_step u E P sendF backoff s s' \<Longrightarrow> counts_ok m0 s \<Longrightarrow> counts_ok m0 s'"
proof (induction rule: collector_step.induct)
  case (endpoint s wh)
  then show ?case using endpoint_step[OF endpoint(1-3)] by (simp add: counts_ok_def Let_def)
next
  case (prepare s a p m w)
  have "alert_counters m = alert_counters (inc_AlertsReceived (alert_status a) (wh_metrics (sy_webhook s)))"
    using assemble_counters[of E P a "wh_metrics (sy_webhook s)" "sy_world s"] prepare(3) by simp
  then show ?case using prepare(4) by (auto simp: counts_ok_def Let_def dest!: counters_eqD)
next
  case (send s a p k r f w ph m)
  then obtain R where R: "sy_ready s = add_mset (a, p, Sending k) R" by (meson multi_member_split)
  show ?case by (rule phase_counts[OF send(5) R _ after_send_counters[OF send(4)]]) (simp_all add: R)
next
  case (wait s a p k c f w ph m)
  then obtain R where R: "sy_ready s = add_mset (a, p, Waiting k) R" by (meson multi_member_split)
  show ?case by (rule phase_counts[OF wait(5) R _ after_wait_counters[OF wait(4)]]) (simp_all add: R)
next
  case (finish s a p k r c)
  then obtain R where R: "sy_ready s = add_mset (a, p, Ended k r) R" by (meson multi_member_split)
  show ?case using finish(4) unfolding counts_ok_def Let_def R by simp
qed (simp_all add: counts_ok_def Let_def)

lemma step_payloads: "collector_step u E P sendF backoff s s' \<Longrightarrow> payloads_ok P s \<Longrightarrow> payloads_ok P s'"
proof (induction rule: collector_step.induct)
  case (prepare s a p m w)
  then show ?case using assemble_sound[OF prepare(3)] by (simp add: payloads_ok_def)
qed (auto simp: payloads_ok_def dest: in_diffD)

lemma step_sendings: "collector_step u E P sendF backoff s s' \<Longrightarrow> sendings_ok s \<Longrightarrow> sendings_ok s'"
proof (induction rule: collector_step.induct)
  case (endpoint s wh)
  then show ?case using endpoint_step[OF endpoint(1-3)] by (simp add: sendings_ok_def)
next
  case (send s a p k r f w ph m)
  then obtain R where R: "sy_ready s = add_mset (a, p, Sending k) R" by (meson multi_member_split)
  then show ?case using send(1,5) after_send_phase[OF send(4)] by (auto simp: sendings_ok_def)
next
  case (send_panic s a p k f w)
  then show ?case by (auto simp: sendings_ok_def)
next
  case (wait s a p k c f w ph m)
  then obtain R where R: "sy_ready s = add_mset (a, p, Waiting k) R" by (meson multi_member_split)
  then show ?case using wait(1,5) after_wait_phase[OF wait(4)] by (auto simp: sendings_ok_def)
next
  case (finish s a p k r c)
  then obtain R where R: "sy_ready s = add_mset (a, p, Ended k r) R" by (meson multi_member_split)
  then show ?case using finish(1,4) by (auto simp: sendings_ok_def)
qed (auto simp: sendings_ok_def)

section \<open>Refinement of the endpoint\<close>

text \<open>What the endpoint's own machine sees of a state: everything but the counters it does not use.\<close>

definition endpoint_view :: "('f, 'w) system \<Rightarrow> webhook" where
  "endpoint_view s = (sy_webhook s)\<lparr>wh_metrics := no_metrics\<lparr>AlertsDropped := AlertsDropped (wh_metrics (sy_webhook s))\<rparr>\<rparr>"

definition only_dropped :: "webhook \<Rightarrow> webhook" where
  "only_dropped wh = wh\<lparr>wh_metrics := no_metrics\<lparr>AlertsDropped := AlertsDropped (wh_metrics wh)\<rparr>\<rparr>"

lemma handler_step_view: "handler_step wh wh' \<Longrightarrow> handler_step (only_dropped wh) (only_dropped wh')"
proof (induction rule: handler_step.induct)
  case (admit s xs a as ys h m)
  have "offer (wh_handler (only_dropped s)) (wh_metrics (only_dropped s)) = (True, h, wh_metrics (only_dropped s))"
    using admit(2) by (auto simp: offer_def only_dropped_def split: option.splits)
  from handler_step.admit[OF _ this, of xs a as ys] show ?case
    using admit offer_cases[OF admit(2)] by (cases s) (simp add: only_dropped_def)
next
  case (drop s xs a as ys h m)
  have "offer (wh_handler (only_dropped s)) (wh_metrics (only_dropped s)) = (False, h, inc_AlertsDropped (wh_metrics (only_dropped s)))"
    using drop(2) by (auto simp: offer_def only_dropped_def split: option.splits)
  from handler_step.drop[OF _ this, of xs a as ys] show ?case
    using drop offer_cases[OF drop(2)] by (cases s) (simp add: only_dropped_def)
next
  case (ack s xs ys)
  then show ?case using handler_step.ack[of "only_dropped s" xs ys] by (cases s) (simp add: only_dropped_def)
qed

lemma webhook_step_view: "webhook_step u wh wh' \<Longrightarrow> webhook_step u (only_dropped wh) (only_dropped wh')"
proof (induction rule: webhook_step.induct)
  case (refuse s r reply)
  then show ?case using webhook_step.refuse[of "only_dropped s" u r reply] by (cases s) (simp add: only_dropped_def)
next
  case (accept s r alerts)
  then show ?case using webhook_step.accept[of "only_dropped s" u r alerts] by (cases s) (simp add: only_dropped_def)
next
  case (handle s s')
  then show ?case using handler_step_view webhook_step.handle by (simp add: only_dropped_def)
next
  case (finish s a c)
  then show ?case using webhook_step.finish[of "only_dropped s" a c u] by (cases s) (simp add: only_dropped_def)
next
  case (crash s a)
  then show ?case using webhook_step.crash[of "only_dropped s" a u] by (cases s) (simp add: only_dropped_def)
qed

lemma endpoint_view_only: "endpoint_view s = only_dropped (sy_webhook s)"
  by (simp add: endpoint_view_def only_dropped_def)

lemma step_refines:
  assumes "collector_step u E P sendF backoff s s'" "flow_ok s"
  shows "endpoint_view s' = endpoint_view s \<or> webhook_step u (endpoint_view s) (endpoint_view s')"
  using assms
proof (induction rule: collector_step.induct)
  case (endpoint s wh)
  then show ?case using webhook_step_view[OF endpoint(1)] by (simp add: endpoint_view_only)
next
  case (outside s w)
  then show ?case by (simp add: endpoint_view_def)
next
  case (prepare s a p m w)
  have "AlertsDropped m = AlertsDropped (wh_metrics (sy_webhook s))"
    using assemble_counters[of E P a "wh_metrics (sy_webhook s)" "sy_world s"] prepare(3) by (simp add: alert_counters_def)
  then show ?case by (simp add: endpoint_view_def)
next
  case (prepare_panic s a m w)
  then have "a \<in># wh_running (sy_webhook s)" by (simp add: flow_ok_def)
  then show ?case using webhook_step.crash[of "endpoint_view s" a u] prepare_panic(1)
    by (cases "sy_webhook s") (simp add: endpoint_view_def)
next
  case (send s a p k r f w ph m)
  have "AlertsDropped m = AlertsDropped (wh_metrics (sy_webhook s))"
    using counters_eqD[OF after_send_counters[OF send(4)]] by (simp add: counted_phase_dropped)
  then show ?case by (simp add: endpoint_view_def)
next
  case (send_panic s a p k f w)
  then have "a \<in># wh_running (sy_webhook s)" by (force simp: flow_ok_def)
  then show ?case using webhook_step.crash[of "endpoint_view s" a u] send_panic(1)
    by (cases "sy_webhook s") (simp add: endpoint_view_def)
next
  case (wait s a p k c f w ph m)
  have "AlertsDropped m = AlertsDropped (wh_metrics (sy_webhook s))"
    using counters_eqD[OF after_wait_counters[OF wait(4)]] by (simp add: counted_phase_dropped)
  then show ?case by (simp add: endpoint_view_def)
next
  case (finish s a p k r c)
  then have a: "a \<in># wh_running (sy_webhook s)" by (force simp: flow_ok_def)
  then show ?case using webhook_step.finish[of "endpoint_view s" a c u] finish(1,3)
    by (cases "sy_webhook s") (simp add: endpoint_view_def)
qed

section \<open>Reachable states\<close>

definition collector_reachable ::
    "(bytes \<Rightarrow> AlertManagerPayload res) \<Rightarrow> 'w pipeline_env \<Rightarrow> ('w, 'sel) Pipeline
     \<Rightarrow> (AlertPayload \<Rightarrow> 'f \<times> 'w \<Rightarrow> unit res outcome \<times> 'f \<times> 'w) \<Rightarrow> (int \<Rightarrow> 'f \<times> 'w \<Rightarrow> go_error option \<times> 'f \<times> 'w)
     \<Rightarrow> ('f, 'w) system \<Rightarrow> ('f, 'w) system \<Rightarrow> bool" where
  "collector_reachable u E P sendF backoff s0 s = (collector_step u E P sendF backoff)\<^sup>*\<^sup>* s0 s"

lemma init_ok:
  "flow_ok (system_init h m f w)" "counts_ok m (system_init h m f w)" "payloads_ok P (system_init h m f w)"
  "sendings_ok (system_init h m f w)"
  by (simp_all add: flow_ok_def counts_ok_def payloads_ok_def sendings_ok_def system_init_def)

lemma init_view: "endpoint_view (system_init (NewHandler n) m f w) = webhook_init n (no_metrics\<lparr>AlertsDropped := AlertsDropped m\<rparr>)"
  by (simp add: endpoint_view_def system_init_def webhook_init_def)

lemma reachable_system_ok:
  assumes "collector_reachable u E P sendF backoff (system_init h m f w) s"
  shows "flow_ok s \<and> counts_ok m s \<and> payloads_ok P s \<and> sendings_ok s"
  using assms unfolding collector_reachable_def
  by (induction rule: rtranclp_induct) (auto simp: init_ok step_flow step_counts step_payloads step_sendings)

lemma reachable_view:
  assumes "collector_reachable u E P sendF backoff (system_init (NewHandler n) m f w) s"
  shows "webhook_reachable u n (no_metrics\<lparr>AlertsDropped := AlertsDropped m\<rparr>) (endpoint_view s)"
  using assms unfolding collector_reachable_def
proof (induction rule: rtranclp_induct)
  case base
  then show ?case by (simp add: init_view webhook_reachable_def)
next
  case (step s s')
  have "flow_ok s" using step(1) reachable_system_ok[of u E P sendF backoff "NewHandler n" m f w s]
    by (simp add: collector_reachable_def)
  then show ?case using step_refines[OF step(2)] step(3)
    by (auto simp: webhook_reachable_def intro: rtranclp.rtrancl_into_rtrancl)
qed

section \<open>Survival\<close>

text \<open>The wait between two attempts, which leaves the forwarder alone.\<close>

definition waiting :: "(int \<Rightarrow> 'w \<Rightarrow> go_error option \<times> 'w) \<Rightarrow> int \<Rightarrow> 'f \<times> 'w \<Rightarrow> go_error option \<times> 'f \<times> 'w" where
  "waiting wait n = (\<lambda>(f, w). case wait n w of (r, w') \<Rightarrow> (r, f, w'))"

definition forwarder_ok :: "('esk, 'pk, 'pool) Forwarder \<Rightarrow> bool" where
  "forwarder_ok f = (fw_signed f \<noteq> None \<longrightarrow> fw_reloader f \<noteq> None)"

lemma FreshNonce_survives:
  assumes "\<forall>n w. fst (rand n w) \<noteq> None"
  obtains nonce w' where "FreshNonce rand w = (Done nonce, w')"
  using assms[rule_format, of 16 w] by (cases "rand 16 w") (auto simp: FreshNonce_def split: option.splits)

lemma once_survives:
  assumes "\<forall>n w. fst (tr_rand T n w) \<noteq> None" "once T c path raw um cred refresh w = (r, c', w')"
  shows "r \<noteq> Panic"
proof -
  obtain r0 c0 w0 where a: "activeKey T c refresh w = (r0, c0, w0)" by (metis prod_cases3)
  obtain n w1 where n: "FreshNonce (tr_rand T) w0 = (Done n, w1)" by (rule FreshNonce_survives[OF assms(1)])
  show ?thesis using activeKey_result(1)[OF a] assms(2) a n
    by (auto simp: once_def Let_def split: prod.splits outcome.splits sum.splits)
qed

lemma call_survives:
  assumes "\<forall>n w. fst (tr_rand T n w) \<noteq> None" "call T c path m um cred w = (r, c', w')"
  shows "r \<noteq> Panic"
proof (cases m)
  case (Inr raw)
  obtain r1 c1 w1 where o: "once T c path raw um cred False w = (r1, c1, w1)" by (metis prod_cases3)
  then show ?thesis
    using assms(2) Inr once_survives[OF assms(1) o] once_survives[OF assms(1), of c1 path raw um cred True w1 r c' w']
    by (auto simp: call_def split: if_splits)
qed (use assms(2) in \<open>auto simp: call_def\<close>)

lemma send_survives:
  assumes "\<forall>n w. fst (tr_rand T n w) \<noteq> None" "forwarder_ok f" "send T K F ingest p (f, w) = (r, f', w')"
  shows "r \<noteq> Panic \<and> forwarder_ok f'"
proof (cases "fw_signed f")
  case None
  obtain n w1 where "FreshNonce (tr_rand T) w = (Done n, w1)" by (rule FreshNonce_survives[OF assms(1)])
  then show ?thesis using assms(2,3) None by (auto simp: send_def split: prod.splits)
next
  case (Some client)
  then obtain rl where rl: "fw_reloader f = Some rl" using assms(2) by (auto simp: forwarder_ok_def)
  obtain q rl' w1 where g: "GetClientCertificate F rl w = (q, rl', w1)" by (metis prod_cases3)
  show ?thesis
  proof (cases q)
    case (Inl e)
    then show ?thesis using assms(3) Some rl g by (auto simp: send_def forwarder_ok_def)
  next
    case (Inr cert)
    obtain r1 c1 w2 where i: "signed_Ingest T K client p (Some cert) w1 = (r1, c1, w2)" by (metis prod_cases3)
    then have "r1 \<noteq> Panic" using call_survives[OF assms(1)] by (simp add: signed_Ingest_def)
    then show ?thesis using assms(3) Some rl g Inr i by (auto simp: send_def forwarder_ok_def)
  qed
qed

text \<open>A property of the sender's state that sending keeps, under which it does not panic.\<close>

definition survives :: "('f \<Rightarrow> bool) \<Rightarrow> ('f \<times> 'w \<Rightarrow> unit res outcome \<times> 'f \<times> 'w) \<Rightarrow> bool" where
  "survives I sendF = (\<forall>f w r f' w'. I f \<and> sendF (f, w) = (r, f', w') \<longrightarrow> r \<noteq> Panic \<and> I f')"

lemma survivesD: "survives I sendF \<Longrightarrow> sendF (f, w) = (r, f', w') \<Longrightarrow> I f \<Longrightarrow> r \<noteq> Panic \<and> I f'"
  unfolding survives_def by blast

lemma step_survives:
  assumes "\<forall>p. survives I (sendF p)"
    and "\<forall>c. pl_loki P = Some c \<longrightarrow> 0 \<le> lk_maxLines c"
  shows "collector_step u E P sendF (waiting wait) s s' \<Longrightarrow> I (sy_forwarder s) \<Longrightarrow> \<not> wh_crashed (sy_webhook s) \<Longrightarrow>
    I (sy_forwarder s') \<and> \<not> wh_crashed (sy_webhook s')"
proof (induction rule: collector_step.induct)
  case (prepare_panic s a m w)
  then show ?case using assemble_panics[OF prepare_panic(3)] assms(2) by fastforce
next
  case (send s a p k r f w ph m)
  then show ?case using survivesD[OF assms(1)[rule_format] send(3)] by simp
next
  case (send_panic s a p k f w)
  then show ?case using survivesD[OF assms(1)[rule_format] send_panic(3)] by simp
next
  case (wait s a p k c f w ph m)
  then show ?case by (auto simp: waiting_def split: prod.splits)
qed auto

lemma reachable_forwarder:
  assumes "\<forall>p. survives I (sendF p)"
    and "\<forall>c. pl_loki P = Some c \<longrightarrow> 0 \<le> lk_maxLines c" "I f"
    and "collector_reachable u E P sendF (waiting wait) (system_init h m f w) s"
  shows "I (sy_forwarder s) \<and> \<not> wh_crashed (sy_webhook s)"
  using assms(4) unfolding collector_reachable_def
proof (induction rule: rtranclp_induct)
  case base
  then show ?case using assms(3) by (simp add: system_init_def)
next
  case (step s s')
  then show ?case using step_survives[OF assms(1,2) step(2)] by blast
qed

lemmas reachable_survives = reachable_forwarder[THEN conjunct2]

section \<open>One alert, start to end\<close>

lemma reachable_step:
  "collector_reachable u E P sendF backoff s0 s \<Longrightarrow> collector_step u E P sendF backoff s s' \<Longrightarrow>
   collector_reachable u E P sendF backoff s0 s'"
  by (auto simp: collector_reachable_def)

lemma one_alert_admitted:
  assumes "u body = Inr \<lparr>am_Alerts = [a]\<rparr>"
  shows "\<exists>s c. collector_reachable u E P sendF backoff (system_init (NewHandler n) m f w) s
    \<and> wh_handler (sy_webhook s) = \<lparr>hn_sem = c\<rparr> \<and> ch_len c = 1 \<and> wh_metrics (sy_webhook s) = m \<and> \<not> wh_crashed (sy_webhook s)
    \<and> wh_pending (sy_webhook s) = [[]] \<and> wh_accepted (sy_webhook s) = {#a#}
    \<and> wh_running (sy_webhook s) = {#a#} \<and> sy_fresh s = {#a#} \<and> sy_ready s = {#} \<and> sy_results s = {#}
    \<and> sy_sent s = [] \<and> sy_forwarder s = f \<and> sy_world s = w"
proof -
  let ?s0 = "system_init (NewHandler n) m f w"
  let ?wh1 = "(sy_webhook ?s0)\<lparr>wh_pending := [[a]], wh_accepted := {#a#}\<rparr>"
  let ?s1 = "?s0\<lparr>sy_webhook := ?wh1\<rparr>"
  let ?c = "(hn_sem (NewHandler n))\<lparr>ch_len := 1\<rparr>"
  let ?wh2 = "?wh1\<lparr>wh_handler := \<lparr>hn_sem = ?c\<rparr>, wh_metrics := m, wh_pending := [[]], wh_running := {#a#}\<rparr>"
  let ?s2 = "?s1\<lparr>sy_webhook := ?wh2, sy_fresh := {#a#}\<rparr>"
  have "webhook_step u (sy_webhook ?s0) ?wh1"
    using webhook_step.accept[of "sy_webhook ?s0" u "\<lparr>in_Method = ''POST'', in_Body = Inr body\<rparr>" "[a]"] assms
    by (simp add: ServeHTTP_body_def system_init_def)
  then have 1: "collector_step u E P sendF backoff ?s0 ?s1"
    using collector_step.endpoint[of u ?s0 ?wh1 E P sendF backoff] by (simp add: system_init_def)
  have "offer (wh_handler ?wh1) (wh_metrics ?wh1) = (True, \<lparr>hn_sem = ?c\<rparr>, m)"
    by (simp add: offer_def try_send_def NewHandler_def Let_def system_init_def)
  from handler_step.admit[of ?wh1 "[]" a "[]" "[]", OF _ this] have "handler_step ?wh1 ?wh2"
    by (simp add: system_init_def)
  then have "webhook_step u (sy_webhook ?s1) ?wh2" using webhook_step.handle[of ?wh1 ?wh2 u] by (simp add: system_init_def)
  then have 2: "collector_step u E P sendF backoff ?s1 ?s2"
    using collector_step.endpoint[of u ?s1 ?wh2 E P sendF backoff] by (simp add: system_init_def)
  have "collector_reachable u E P sendF backoff ?s0 ?s2"
    using reachable_step[OF reachable_step[OF _ 1] 2] by (simp add: collector_reachable_def)
  then show ?thesis by (intro exI[of _ ?s2] exI[of _ ?c]) (simp add: system_init_def)
qed

lemma one_alert_runs:
  assumes "\<forall>c. pl_loki P = Some c \<longrightarrow> 0 \<le> lk_maxLines c"
    and "\<forall>p w. \<exists>f' w'. sendF p (f, w) = (Done (Inr ()), f', w')" "u body = Inr \<lparr>am_Alerts = [a]\<rparr>"
  shows "\<exists>s p. collector_reachable u E P sendF backoff (system_init (NewHandler n) m f w) s
    \<and> sy_results s = {#(a, p, Ended 1 (Inr ()))#} \<and> sy_ready s = {#} \<and> sy_sent s = [p] \<and> \<not> wh_crashed (sy_webhook s)"
proof -
  obtain s c where s: "collector_reachable u E P sendF backoff (system_init (NewHandler n) m f w) s"
    "wh_handler (sy_webhook s) = \<lparr>hn_sem = c\<rparr>" "ch_len c = 1" "\<not> wh_crashed (sy_webhook s)" "sy_fresh s = {#a#}"
    "sy_ready s = {#}" "sy_results s = {#}" "sy_sent s = []" "sy_forwarder s = f" "sy_world s = w"
    using one_alert_admitted[of u body a E P sendF backoff n m f w] assms(3) by blast
  obtain p m1 w1 where a: "assemble E P a (wh_metrics (sy_webhook s)) w = (Done p, m1, w1)"
    using assemble_panics assms(1) by (metis linorder_not_le outcome.exhaust prod_cases3)
  let ?s3 = "s\<lparr>sy_webhook := (sy_webhook s)\<lparr>wh_metrics := m1\<rparr>, sy_fresh := {#}, sy_ready := {#(a, p, Sending 0)#}, sy_world := w1\<rparr>"
  have 3: "collector_step u E P sendF backoff s ?s3"
    using collector_step.prepare[of s a E P p m1 w1 u sendF backoff] s a by simp
  obtain f2 w2 where f2: "sendF p (f, w1) = (Done (Inr ()), f2, w2)" using assms(2) by blast
  let ?s4 = "?s3\<lparr>sy_webhook := (sy_webhook s)\<lparr>wh_metrics := inc_Forwards ''ok'' m1\<rparr>,
    sy_ready := {#(a, p, Ended 1 (Inr ()))#}, sy_sent := [p], sy_forwarder := f2, sy_world := w2\<rparr>"
  have 4: "collector_step u E P sendF backoff ?s3 ?s4"
    using collector_step.send[of ?s3 a p 0 sendF "Inr ()" f2 w2 "Ended 1 (Inr ())" "inc_Forwards ''ok'' m1" u E P backoff] s f2
    by (simp add: after_send_def)
  have "receive c = Some (c\<lparr>ch_len := 0\<rparr>)" using s(3) by (simp add: receive_def)
  then obtain s5 where 5: "collector_step u E P sendF backoff ?s4 s5" "sy_results s5 = {#(a, p, Ended 1 (Inr ()))#}"
    "sy_ready s5 = {#}" "sy_sent s5 = [p]" "\<not> wh_crashed (sy_webhook s5)"
    using collector_step.finish[of ?s4 a p 1 "Inr ()" "c\<lparr>ch_len := 0\<rparr>" u E P sendF backoff] s by fastforce
  show ?thesis using reachable_step[OF reachable_step[OF reachable_step[OF s(1) 3] 4] 5(1)] 5(2-5) by blast
qed

end
