(* ===== verification/Progress.thy ===== *)
theory Progress
  imports System
begin

text \<open>
  Progress of the running server. \<open>todo\<close> bounds the steps that are left for the requests and alerts at
  hand; every step that moves one of them on decreases it, no step but a new request increases it, and
  as long as it is not zero such a step is possible.
\<close>

section \<open>What is left to do\<close>

text \<open>A request still has its reply; an alert at its handler has to be offered, assembled and forwarded, an
  admitted one to be assembled and forwarded, and a worker in \<open>Forward\<close> has its phases and its end.\<close>

definition todo :: "('f, 'w) system \<Rightarrow> nat" where
  "todo s =
    sum_list (map (\<lambda>as. 10 * length as + 1) (wh_pending (sy_webhook s))) + 9 * size (sy_fresh s)
    + (\<Sum>x \<in># sy_ready s. phases_left (snd (snd x)) + 1)"

lemma todo_0: "todo s = 0 \<longleftrightarrow> wh_pending (sy_webhook s) = [] \<and> sy_fresh s = {#} \<and> sy_ready s = {#}"
  by (cases "wh_pending (sy_webhook s)"; cases "sy_ready s") (auto simp: todo_def)

text \<open>A step that takes no new request and moves a request or an alert on.\<close>

definition advances ::
    "(bytes \<Rightarrow> AlertManagerPayload res) \<Rightarrow> 'w pipeline_env \<Rightarrow> ('w, 'sel) Pipeline
     \<Rightarrow> (AlertPayload \<Rightarrow> 'f \<times> 'w \<Rightarrow> unit res outcome \<times> 'f \<times> 'w) \<Rightarrow> (int \<Rightarrow> 'f \<times> 'w \<Rightarrow> go_error option \<times> 'f \<times> 'w)
     \<Rightarrow> ('f, 'w) system \<Rightarrow> ('f, 'w) system \<Rightarrow> bool" where
  "advances u E P sendF backoff s s' =
    (collector_step u E P sendF backoff s s'
     \<and> length (wh_pending (sy_webhook s')) \<le> length (wh_pending (sy_webhook s))
     \<and> (wh_pending (sy_webhook s'), sy_fresh s', sy_ready s') \<noteq> (wh_pending (sy_webhook s), sy_fresh s, sy_ready s))"

section \<open>Steps use up what is left\<close>

lemma handler_step_todo:
  "handler_step wh wh' \<Longrightarrow>
     sum_list (map (\<lambda>as. 10 * length as + 1) (wh_pending wh')) + 9 * size (wh_running wh' - wh_running wh)
       < sum_list (map (\<lambda>as. 10 * length as + 1) (wh_pending wh))"
  by (induction rule: handler_step.induct) auto

lemma endpoint_todo:
  assumes "webhook_step u wh wh'" "wh_finished wh' = wh_finished wh" "\<not> wh_crashed wh'"
    and "length (wh_pending wh') \<le> length (wh_pending wh)"
  shows "wh_pending wh' = wh_pending wh \<and> wh_running wh' - wh_running wh = {#}
    \<or> sum_list (map (\<lambda>as. 10 * length as + 1) (wh_pending wh')) + 9 * size (wh_running wh' - wh_running wh)
       < sum_list (map (\<lambda>as. 10 * length as + 1) (wh_pending wh))"
  using assms(1)
proof (cases rule: webhook_step.cases)
  case handle
  then show ?thesis using handler_step_todo by blast
qed (use assms in auto)

lemma phase_todo:
  assumes "(a, p, ph) \<in># sy_ready s" "phases_left ph' < phases_left ph"
    and "sy_webhook s' = (sy_webhook s)\<lparr>wh_metrics := m\<rparr>" "sy_fresh s' = sy_fresh s"
    and "sy_ready s' = add_mset (a, p, ph') (sy_ready s - {#(a, p, ph)#})"
  shows "todo s' < todo s"
proof -
  obtain R where "sy_ready s = add_mset (a, p, ph) R" using assms(1) by (meson multi_member_split)
  then show ?thesis using assms by (simp add: todo_def)
qed

lemma step_todo:
  assumes "collector_step u E P sendF backoff s s'" "length (wh_pending (sy_webhook s')) \<le> length (wh_pending (sy_webhook s))"
  shows "(wh_pending (sy_webhook s'), sy_fresh s', sy_ready s') = (wh_pending (sy_webhook s), sy_fresh s, sy_ready s)
    \<or> todo s' < todo s"
  using assms
proof (induction rule: collector_step.induct)
  case (endpoint s wh)
  then show ?case using endpoint_todo[OF endpoint(1-3)] by (auto simp: todo_def)
next
  case (prepare s a p m w)
  then obtain F where "sy_fresh s = add_mset a F" by (meson multi_member_split)
  then show ?case by (simp add: todo_def)
next
  case (send s a p k r f w ph m)
  have "phases_left ph < phases_left (Sending k)"
    using after_send_left[of k r "wh_metrics (sy_webhook s)"] send(4) by simp
  show ?case by (rule disjI2, rule phase_todo[OF send(2) \<open>phases_left ph < _\<close>]) simp_all
next
  case (wait s a p k c f w ph m)
  have "phases_left ph < phases_left (Waiting k)"
    using after_wait_left[of k c "wh_metrics (sy_webhook s)"] wait(4) by simp
  show ?case by (rule disjI2, rule phase_todo[OF wait(2) \<open>phases_left ph < _\<close>]) simp_all
next
  case (finish s a p k r c)
  then obtain R where "sy_ready s = add_mset (a, p, Ended k r) R" by (meson multi_member_split)
  then show ?case by (simp add: todo_def)
qed auto

lemma advances_todo: "advances u E P sendF backoff s s' \<Longrightarrow> todo s' < todo s"
  using step_todo unfolding advances_def by blast

lemma step_todo_le:
  "collector_step u E P sendF backoff s s' \<Longrightarrow> length (wh_pending (sy_webhook s')) \<le> length (wh_pending (sy_webhook s)) \<Longrightarrow>
   todo s' \<le> todo s"
  using step_todo[of u E P sendF backoff s s'] by (auto simp: todo_def)

lemma advances_many:
  "(advances u E P sendF backoff ^^ k) s s' \<Longrightarrow> k + todo s' \<le> todo s"
proof (induction k arbitrary: s')
  case (Suc k)
  then obtain s1 where "(advances u E P sendF backoff ^^ k) s s1" "advances u E P sendF backoff s1 s'" by auto
  then show ?case using Suc(1) advances_todo by fastforce
qed simp

lemma advances_reachable:
  assumes "collector_reachable u E P sendF backoff s0 s" "(advances u E P sendF backoff ^^ k) s s'"
  shows "collector_reachable u E P sendF backoff s0 s'"
  using assms(2)
proof (induction k arbitrary: s')
  case (Suc k)
  then obtain s1 where "(advances u E P sendF backoff ^^ k) s s1" "advances u E P sendF backoff s1 s'" by auto
  then show ?case using Suc(1) reachable_step unfolding advances_def[of u E P sendF backoff s1 s'] by blast
qed (use assms(1) in simp)

section \<open>A step is possible\<close>

lemma handler_advances:
  assumes "\<not> wh_crashed (sy_webhook s)" "as \<in> set (wh_pending (sy_webhook s))"
  shows "\<exists>s'. advances u E P sendF backoff s s'"
proof -
  obtain wh where h: "handler_step (sy_webhook s) wh" using handler_step_enabled[OF assms(2)] by blast
  then have f: "wh_finished wh = wh_finished (sy_webhook s)" "\<not> wh_crashed wh"
      "length (wh_pending wh) \<le> length (wh_pending (sy_webhook s))" "wh_pending wh \<noteq> wh_pending (sy_webhook s)"
    using assms(1) handler_step_todo[OF h] by (induction rule: handler_step.induct) auto
  then show ?thesis
    using collector_step.endpoint[OF webhook_step.handle[OF assms(1) h] f(1,2), of u E P sendF backoff]
    by (intro exI) (auto simp: advances_def)
qed

lemma fresh_advances:
  assumes "\<not> wh_crashed (sy_webhook s)" "a \<in># sy_fresh s" "\<forall>c. pl_loki P = Some c \<longrightarrow> 0 \<le> lk_maxLines c"
  shows "\<exists>s'. advances u E P sendF backoff s s'"
proof -
  obtain p m w where a: "assemble E P a (wh_metrics (sy_webhook s)) (sy_world s) = (Done p, m, w)"
    using assemble_panics assms(3) by (metis linorder_not_le outcome.exhaust prod_cases3)
  obtain F where "sy_fresh s = add_mset a F" using assms(2) by (meson multi_member_split)
  then show ?thesis using collector_step.prepare[OF assms(1,2) a, of u sendF backoff]
    by (intro exI) (auto simp: advances_def)
qed

lemma ready_advances:
  assumes "\<not> wh_crashed (sy_webhook s)" "x \<in># sy_ready s" "\<forall>p. survives I (sendF p)" "I (sy_forwarder s)"
    and "ch_len (hn_sem (wh_handler (sy_webhook s))) > 0"
  shows "\<exists>s'. advances u E P sendF backoff s s'"
proof -
  obtain a p ph where x: "x = (a, p, ph)" by (cases x)
  obtain R where R: "sy_ready s = add_mset (a, p, ph) R" using assms(2) x by (metis multi_member_split)
  then have i: "(a, p, ph) \<in># sy_ready s" by simp
  show ?thesis
  proof (cases ph)
    case (Sending k)
    obtain q f w where q: "sendF p (sy_forwarder s, sy_world s) = (q, f, w)" by (metis prod_cases3)
    then obtain r where r: "q = Done r" using survivesD[OF assms(3)[rule_format] q assms(4)] by (cases q) auto
    obtain ph' m where ph: "after_send k r (wh_metrics (sy_webhook s)) = (ph', m)" by fastforce
    have "ph' \<noteq> Sending k" using after_send_left[of k r "wh_metrics (sy_webhook s)"] ph by auto
    then show ?thesis
      using collector_step.send[of s a p k sendF r f w ph' m u E P backoff] assms(1) i q r ph R Sending
      by (intro exI) (auto simp: advances_def)
  next
    case (Waiting k)
    obtain c f w where c: "backoff (2 ^ k) (sy_forwarder s, sy_world s) = (c, f, w)" by (metis prod_cases3)
    obtain ph' m where ph: "after_wait k c (wh_metrics (sy_webhook s)) = (ph', m)" by fastforce
    have "ph' \<noteq> Waiting k" using after_wait_left[of k c "wh_metrics (sy_webhook s)"] ph by auto
    then show ?thesis
      using collector_step.wait[of s a p k backoff c f w ph' m u E P sendF] assms(1) i c ph R Waiting
      by (intro exI) (auto simp: advances_def)
  next
    case (Ended k r)
    obtain c where "receive (hn_sem (wh_handler (sy_webhook s))) = Some c" using assms(5) by (simp add: receive_def)
    then show ?thesis using collector_step.finish[OF assms(1) i[unfolded Ended], of c u E P sendF backoff] R Ended
      by (intro exI) (auto simp: advances_def)
  qed
qed

text \<open>Put together: as long as something is left, the server can go on.\<close>

lemma reachable_advances:
  assumes "\<forall>p. survives I (sendF p)" "\<forall>c. pl_loki P = Some c \<longrightarrow> 0 \<le> lk_maxLines c" "I f"
    and "collector_reachable u E P sendF (waiting wait) (system_init (NewHandler n) m f w) s" "todo s \<noteq> 0"
  shows "\<exists>s'. advances u E P sendF (waiting wait) s s'"
proof -
  have live: "I (sy_forwarder s)" "\<not> wh_crashed (sy_webhook s)" using reachable_forwarder[OF assms(1-4)] by auto
  have fl: "flow_ok s" using reachable_system_ok[OF assms(4)] by blast
  have pool: "ch_len (hn_sem (wh_handler (sy_webhook s))) = size (sy_fresh s) + size (sy_ready s)"
    using reachable_ok(1)[OF reachable_view[OF assms(4)]] fl by (auto simp: pool_ok_def endpoint_view_def flow_ok_def Let_def)
  consider as where "as \<in> set (wh_pending (sy_webhook s))" | a where "a \<in># sy_fresh s" | x where "x \<in># sy_ready s"
    using assms(5) unfolding todo_0 by (metis last_in_set multiset_nonemptyE)
  then show ?thesis
  proof cases
    case 1
    then show ?thesis by (rule handler_advances[OF live(2)])
  next
    case 2
    then show ?thesis by (rule fresh_advances[OF live(2) _ assms(2)])
  next
    case 3
    then have "sy_ready s \<noteq> {#}" by auto
    then have "ch_len (hn_sem (wh_handler (sy_webhook s))) > 0" unfolding pool by (simp add: nonempty_has_size)
    then show ?thesis by (rule ready_advances[OF live(2) 3 assms(1) live(1)])
  qed
qed

section \<open>Draining\<close>

text \<open>All requests are answered, and the alerts \<open>A\<close> are finished or dropped.\<close>

definition drained :: "Alert multiset \<Rightarrow> ('f, 'w) system \<Rightarrow> bool" where
  "drained A s =
    (wh_pending (sy_webhook s) = [] \<and> sy_fresh s = {#} \<and> sy_ready s = {#}
     \<and> A = image_mset fst (sy_results s) + wh_dropped (sy_webhook s))"

lemma endpoint_accepted:
  assumes "webhook_step u wh wh'" "wh_finished wh' = wh_finished wh" "\<not> wh_crashed wh'"
    and "length (wh_pending wh') \<le> length (wh_pending wh)"
  shows "wh_accepted wh' = wh_accepted wh"
  using assms(1)
proof (cases rule: webhook_step.cases)
  case handle
  from handle(2) show ?thesis by (induction rule: handler_step.induct) auto
qed (use assms in auto)

lemma advances_accepted:
  assumes "advances u E P sendF backoff s s'"
  shows "wh_accepted (sy_webhook s') = wh_accepted (sy_webhook s)"
proof -
  have "collector_step u E P sendF backoff s s' \<Longrightarrow> length (wh_pending (sy_webhook s')) \<le> length (wh_pending (sy_webhook s)) \<Longrightarrow> ?thesis"
  proof (induction rule: collector_step.induct)
    case (endpoint s wh)
    then show ?case using endpoint_accepted[OF endpoint(1-3)] by simp
  qed auto
  then show ?thesis using assms by (simp add: advances_def)
qed

lemma advances_accepted_many:
  "(advances u E P sendF backoff ^^ k) s s' \<Longrightarrow> wh_accepted (sy_webhook s') = wh_accepted (sy_webhook s)"
proof (induction k arbitrary: s')
  case (Suc k)
  then obtain s1 where "(advances u E P sendF backoff ^^ k) s s1" "advances u E P sendF backoff s1 s'" by auto
  then show ?case using Suc(1) advances_accepted by metis
qed simp

lemma todo_0_drained:
  assumes "collector_reachable u E P sendF backoff (system_init (NewHandler n) m f w) s" "todo s = 0"
  shows "drained (wh_accepted (sy_webhook s)) s"
proof -
  have "flow_ok s" using reachable_system_ok[OF assms(1)] by blast
  then show ?thesis using assms(2) reachable_ok(2)[OF reachable_view[OF assms(1)]]
    unfolding todo_0 by (simp add: drained_def accounts_ok_def endpoint_view_def flow_ok_def)
qed

lemma drains:
  assumes "\<And>s. collector_reachable u E P sendF backoff s0 s \<Longrightarrow> todo s \<noteq> 0 \<Longrightarrow> \<exists>s'. advances u E P sendF backoff s s'"
  shows "collector_reachable u E P sendF backoff s0 s \<Longrightarrow> \<exists>k s'. (advances u E P sendF backoff ^^ k) s s' \<and> todo s' = 0"
proof (induction "todo s" arbitrary: s rule: less_induct)
  case less
  show ?case
  proof (cases "todo s = 0")
    case True
    then show ?thesis by (intro exI[of _ 0] exI[of _ s]) simp
  next
    case False
    then obtain s1 where s1: "advances u E P sendF backoff s s1" using assms less(2) by blast
    then have "collector_reachable u E P sendF backoff s0 s1" using less(2) reachable_step unfolding advances_def by blast
    then obtain k s' where "(advances u E P sendF backoff ^^ k) s1 s'" "todo s' = 0" using less(1)[OF advances_todo[OF s1]] by blast
    then show ?thesis using s1 relpowp_Suc_I2[of "advances u E P sendF backoff" s s1 k s'] by blast
  qed
qed

end
