(* ===== verification/Exchange.thy ===== *)
theory Exchange
  imports SignedClient HpkeKeys
begin

text \<open>
  One exchange over the signed transport, both ends: the collector's \<open>signed_Ingest\<close> against a brain that
  uses the checks of \<^verbatim>\<open>internal/auth\<close> (\<open>VerifyContentDigest\<close>, \<open>VerifyRequest\<close>, \<open>OpenRequest\<close>, \<open>sealer_Seal\<close>) on a
  key set it parsed from its key file. The brain's endpoint is not part of the repository:
  \<open>answering_brain\<close> states what it promises of the replies, \<open>refusing_brain\<close> and \<open>advertising_brain\<close> what it does
  about keys it no longer holds and how it lists those it has.
\<close>

section \<open>The brain\<close>

text \<open>A request that passes the digest and the signature check under the collector's public key and that
  one of the brain's keys opens is answered with status 200 and the sealed answer to its plaintext.\<close>

definition answering_brain ::
    "('esk, 'epk, 'pk, 'hsk, 'c, 'crt, 'pool, 'w) transport \<Rightarrow> 'hsk HPKEKeySet \<Rightarrow> 'epk \<Rightarrow> string \<Rightarrow> (bytes \<Rightarrow> bytes)
     \<Rightarrow> (nat \<Rightarrow> 'w \<Rightarrow> bytes res \<times> 'w) \<Rightarrow> bool" where
  "answering_brain T ks pub path answer rand_Read =
    (\<forall>req w info pt rs.
       VerifyContentDigest (tr_sigs T) (rq_Header req) (rq_Body req) = Inr ()
       \<and> VerifyRequest (tr_isPrint T) (tr_sigs T) (rq_Method req) path (rq_Header req) (Some pub) = Inr info
       \<and> OpenRequest (tr_hpke T) ks (header_Get (rq_Header req) HeaderHPKEKid) path (header_Get (rq_Header req) HeaderTimestamp)
           (header_Get (rq_Header req) HeaderNonce) (rq_Body req) = Inr (pt, rs) \<longrightarrow>
       (\<exists>rbody h w1 w2 w'. sealer_Seal (tr_hpke T) rand_Read rs (answer pt) w1 = (Inr rbody, w2)
          \<and> length rbody < maxSignedResponse
          \<and> Do (tr_http T) req w = (Inr \<lparr>rs_StatusCode = 200, rs_Header = h, rs_Body = rbody, rs_BodyErr = None\<rparr>, w')))"

lemma once_response_answered:
  assumes "hpke_correct (tr_hpke T)" "reads_full rand_Read"
    and "sealer_Seal (tr_hpke T) rand_Read \<lparr>rsl_key = ro_key opener\<rparr> resp w1 = (Inr rbody, w2)" "length rbody < maxSignedResponse"
    and "Do (tr_http T) req w = (Inr \<lparr>rs_StatusCode = 200, rs_Header = h, rs_Body = rbody, rs_BodyErr = None\<rparr>, w')"
  shows "once_response T path unmarshal req opener w
    = (case unmarshal resp of Inl e \<Rightarrow> Inl (ErrWrap ''auth: decode response'' e) | Inr a \<Rightarrow> Inr a, w')"
  using assms(4,5) opener_sealer[OF assms(1,2,3)]
  by (simp add: once_response_def read_limited_def split: sum.splits)

text \<open>An attempt with a key the brain holds, from the choice of the key on.\<close>

lemma once_completes:
  fixes T :: "('esk, 'epk, 'pk, 'hsk, 'c, 'crt, 'pool, 'w) transport"
  assumes "ecdsa_correct (tr_sigs T)" "hpke_correct (tr_hpke T)" "reads_full rand_Read"
    and "key_set_ok (sha256 (tr_sigs T)) (tr_hpke T) ks" "key \<in> set (ks_Public (tr_hpke T) ks)"
    and "answering_brain T ks (public_of (tr_sigs T) priv) path answer rand_Read"
    and "cert = \<lparr>tc_Certificate = leaf # chain, tc_PrivateKey = EcdsaKey priv\<rparr>" "unmarshal (answer raw) = Inr a"
    and "activeKey T c refresh w = (Done (Inr key), c1, w1)"
    and "created = now (tr_http T) w1 div 1000000000" "- (2 ^ 63) \<le> created" "created < 2 ^ 63"
    and "FreshNonce (tr_rand T) w1 = (Done nonce, w2)"
    and "once_request T (sc_base c1) key path raw (Some cert) created nonce w2 = (Inr (req, opener), w3)"
  shows "\<exists>w'. once T c path raw unmarshal (Some cert) refresh w = (Done (Inr a), c1, w')"
proof -
  obtain hsk where hsk: "map_of (ks_keys ks) (hk_KID key) = Some hsk" "hk_Key key = PublicKey (tr_hpke T) hsk"
    using ks_Public_key[OF assms(4,5)] by blast
  note acc = once_request_accepted[OF assms(1,2,11,12) hsk(2,1) assms(14)[unfolded assms(7)], unfolded Let_def]
  obtain rbody h v1 v2 w4 where r: "sealer_Seal (tr_hpke T) rand_Read \<lparr>rsl_key = ro_key opener\<rparr> (answer raw) v1 = (Inr rbody, v2)"
    "length rbody < maxSignedResponse"
    "Do (tr_http T) req w3 = (Inr \<lparr>rs_StatusCode = 200, rs_Header = h, rs_Body = rbody, rs_BodyErr = None\<rparr>, w4)"
    using assms(6) acc unfolding answering_brain_def by meson
  have "once T c path raw unmarshal (Some cert) refresh w = (Done (Inr a), c1, w4)"
    using assms(9,10,13,14) once_response_answered[OF assms(2,3) r, of path unmarshal] assms(8) by (simp add: once_def Let_def)
  then show ?thesis by blast
qed

section \<open>A brain that has changed its keys\<close>

text \<open>Replies to messages sealed to a key it no longer holds.\<close>

definition refusing_brain :: "('esk, 'epk, 'pk, 'hsk, 'c, 'crt, 'pool, 'w) transport \<Rightarrow> 'hsk HPKEKeySet \<Rightarrow> bool" where
  "refusing_brain T ks =
    (\<forall>req w. rq_Method req = ''POST'' \<and> map_of (ks_keys ks) (header_Get (rq_Header req) HeaderHPKEKid) = None \<longrightarrow>
       (\<exists>resp data msg w'. Do (tr_http T) req w = (Inr resp, w') \<and> read_limited resp = Inr data
          \<and> rs_StatusCode resp \<noteq> 200 \<and> json_error T data = Inr (codeHPKEKeyUnknown, msg)))"

text \<open>The entry of a key in the document, and a signed document that lists a whole key set.\<close>

definition key_entry :: "('pk, 'hsk, 'c, 'w) hpke \<Rightarrow> 'pk HPKEPublicKey \<Rightarrow> keyEntry" where
  "key_entry H key =
    \<lparr>ke_KID = hk_KID key, ke_KEM = HPKEKEMName, ke_KDF = HPKEKDFName, ke_AEAD = HPKEAEADName,
     ke_PublicKey = b64_encode (pk_Bytes H (hk_Key key))\<rparr>"

definition advertises ::
    "('esk, 'epk, 'pk, 'hsk, 'c, 'crt, 'pool, 'w) transport \<Rightarrow> 'pool \<Rightarrow> int \<Rightarrow> 'hsk HPKEKeySet \<Rightarrow> bytes \<Rightarrow> bool" where
  "advertises T vendor t ks data =
    (\<exists>payload sig der signer issued.
       json_document T data = Inr \<lparr>kd_Payload = b64_encode payload, kd_Signature = b64_encode sig, kd_Signer = b64_encode der\<rparr>
       \<and> ParseCertificate T der = Inr signer \<and> cert_Verify T signer vendor t = Inr ()
       \<and> VerifyPayload (cert_kind T signer) (CheckSignature T signer) payload sig = Inr ()
       \<and> json_payload T payload
           = Inr \<lparr>kp_IssuedAt = issued, kp_Keys = map (key_entry (tr_hpke T)) (ks_Public (tr_hpke T) ks)\<rparr>)"

definition advertising_brain ::
    "('esk, 'epk, 'pk, 'hsk, 'c, 'crt, 'pool, 'w) transport \<Rightarrow> string \<Rightarrow> 'pool \<Rightarrow> 'hsk HPKEKeySet \<Rightarrow> bool" where
  "advertising_brain T base vendor ks =
    (\<exists>req. NewRequest (tr_http T) ''GET'' (base @ SignedPathKeys) '''' = Inr req
       \<and> (\<forall>w. \<exists>h data w'. Do (tr_http T) req w = (Inr \<lparr>rs_StatusCode = 200, rs_Header = h, rs_Body = data, rs_BodyErr = None\<rparr>, w')
            \<and> length data < maxSignedResponse \<and> advertises T vendor (now (tr_http T) w') ks data))"

text \<open>\<^verbatim>\<open>NewPublicKey\<close> is documented to read what \<^verbatim>\<open>Bytes\<close> writes.\<close>

definition pk_roundtrip :: "('pk, 'hsk, 'c, 'w) hpke \<Rightarrow> bool" where
  "pk_roundtrip H = (\<forall>pk. NewPublicKey H hpkeKEM (pk_Bytes H pk) = Inr pk)"

text \<open>The collector reads back exactly the keys the brain lists.\<close>

lemma usable_keys_entries:
  assumes "pk_roundtrip H" "\<forall>key \<in> set keys. hk_KID key = HPKEKeyID sha H (hk_Key key)"
  shows "usable_keys sha H (map (key_entry H) keys) = keys"
  using assms(2)
  by (induction keys) (use assms(1) in \<open>auto simp: key_entry_def ParseHPKEPublicKey_def pk_roundtrip_def\<close>)

lemma fetchKeys_advertised:
  assumes "advertising_brain T (sc_base c) (sc_vendor c) ks" "pk_roundtrip (tr_hpke T)"
    and "key_set_ok (sha256 (tr_sigs T)) (tr_hpke T) ks" "ks_Public (tr_hpke T) ks \<noteq> []"
  shows "\<exists>w'. fetchKeysLocked T c w
    = (Inr (), c\<lparr>sc_keys := ks_Public (tr_hpke T) ks, sc_fetched := now (tr_http T) w'\<rparr>, w')"
proof -
  obtain req h data w' where d: "NewRequest (tr_http T) ''GET'' (sc_base c @ SignedPathKeys) '''' = Inr req"
    "Do (tr_http T) req w = (Inr \<lparr>rs_StatusCode = 200, rs_Header = h, rs_Body = data, rs_BodyErr = None\<rparr>, w')"
    "length data < maxSignedResponse" "advertises T (sc_vendor c) (now (tr_http T) w') ks data"
    using assms(1) unfolding advertising_brain_def by metis
  have k: "\<forall>key \<in> set (ks_Public (tr_hpke T) ks). hk_KID key = HPKEKeyID (sha256 (tr_sigs T)) (tr_hpke T) (hk_Key key)"
    using ks_Public_key[OF assms(3)] by metis
  have "verify_document T (sc_vendor c) (now (tr_http T) w') data = Inr (ks_Public (tr_hpke T) ks)"
    using d(4) usable_keys_entries[OF assms(2) k] assms(4) by (auto simp: advertises_def verify_document_def)
  then show ?thesis using d by (simp add: fetchKeysLocked_def read_limited_def)
qed

lemma once_refused:
  assumes "refusing_brain T ks" "map_of (ks_keys ks) (hk_KID key) = None"
    and "cert = \<lparr>tc_Certificate = leaf # chain, tc_PrivateKey = EcdsaKey priv\<rparr>"
    and "activeKey T c refresh w = (Done (Inr key), c1, w1)" "FreshNonce (tr_rand T) w1 = (Done nonce, w2)"
    and "once_request T (sc_base c1) key path raw (Some cert) (now (tr_http T) w1 div 1000000000) nonce w2 = (Inr (req, opener), w3)"
  shows "\<exists>e w'. once T c path raw unmarshal (Some cert) refresh w = (Done (Inl e), c1, w')
    \<and> is_key_unknown (Done (Inl e) :: 'a res outcome)"
proof -
  have q: "rq_Method req = ''POST''" "header_Get (rq_Header req) HeaderHPKEKid = hk_KID key"
    using assms(6) unfolding assms(3)
    by (auto simp: once_request_def NewRequest_def Let_def split: sum.splits prod.splits option.splits dest!: signed_headers(4))
  then obtain resp data msg w4 where "Do (tr_http T) req w3 = (Inr resp, w4)" "read_limited resp = Inr data"
    "rs_StatusCode resp \<noteq> 200" "json_error T data = Inr (codeHPKEKeyUnknown, msg)"
    using assms(1,2) unfolding refusing_brain_def by metis
  then show ?thesis using assms(4-6)
    by (simp add: once_def once_response_def Let_def decodeHTTPError_def is_key_unknown_def codeHPKEKeyUnknown_def)
qed

section \<open>One attempt\<close>

text \<open>An alert gets through. When the client's active key is one a brain with a valid key file
  advertises and the request can be built, the brain's checks accept it, and the collector reads the
  brain's answer: \<open>signed_Ingest\<close> succeeds in one attempt.\<close>

theorem ingest_completes:
  fixes T :: "('esk, 'epk, 'pk, 'hsk, 'c, 'crt, 'pool, 'w) transport"
  assumes "ecdsa_correct (tr_sigs T)" "hpke_correct (tr_hpke T)" "reads_full rand_Read"
    and "ParseHPKEKeys (sha256 (tr_sigs T)) (tr_hpke T) KE data = Some (Inr ks)" "key \<in> set (ks_Public (tr_hpke T) ks)"
    and "answering_brain T ks (public_of (tr_sigs T) priv) SignedPathIngest answer rand_Read"
    and "cert = \<lparr>tc_Certificate = leaf # chain, tc_PrivateKey = EcdsaKey priv\<rparr>"
    and "marshal_AlertPayload K payload = Inr raw" "unmarshal_IngestResponse K (answer raw) = Inr ()"
    and "activeKey T c False w = (Done (Inr key), c1, w1)"
    and "created = now (tr_http T) w1 div 1000000000" "- (2 ^ 63) \<le> created" "created < 2 ^ 63"
    and "FreshNonce (tr_rand T) w1 = (Done nonce, w2)"
    and "once_request T (sc_base c1) key SignedPathIngest raw (Some cert) created nonce w2 = (Inr (req, opener), w3)"
  shows "\<exists>w'. signed_Ingest T K c payload (Some cert) w = (Done (Inr ()), c1, w')"
proof -
  obtain w4 where "once T c SignedPathIngest raw (unmarshal_IngestResponse K) (Some cert) False w = (Done (Inr ()), c1, w4)"
    using once_completes[where unmarshal = "unmarshal_IngestResponse K" and answer = answer and raw = raw, OF assms(1-3) ParseHPKEKeys_Inr(3)[OF assms(4)] assms(5-7,9-15)] by blast
  then show ?thesis by (simp add: signed_Ingest_def call_def assms(8) is_key_unknown_def)
qed

text \<open>The brain of the demonstration answers every request with the same sealed text.\<close>

definition exchange_transport :: "(nat, nat, nat, nat, bytes, unit, unit, nat) transport" where
  "exchange_transport = demo_transport\<lparr>tr_http := (tr_http demo_transport)
     \<lparr>Do := \<lambda>rq w. (Inr \<lparr>rs_StatusCode = 200, rs_Header = [], rs_Body = SealedVersion # replicate 12 (CHR 0x00) @ ''ok'',
         rs_BodyErr = None\<rparr>, Suc w)\<rparr>\<rparr>"

definition exchange_codec :: codec where
  "exchange_codec = \<lparr>marshal_AlertPayload = \<lambda>_. Inr ''msg'', marshal_BootstrapRequest = \<lambda>_. Inr '''', marshal_SignCSRRequest = \<lambda>_. Inr '''',
     unmarshal_IngestResponse = \<lambda>b. if b = ''ok'' then Inr () else Inl (ErrExt ''bad''),
     unmarshal_BootstrapResponse = \<lambda>_. Inl (ErrExt ''bad''), unmarshal_SignCSRResponse = \<lambda>_. Inl (ErrExt ''bad'')\<rparr>"

lemma exchange_primitives [simp]:
  "tr_sigs exchange_transport = constant_sigs" "tr_hpke exchange_transport = null_hpke"
  by (simp_all add: exchange_transport_def demo_transport_def)

lemma exchange_activeKey:
  "activeKey exchange_transport demo_client False 0
   = (Done (Inr \<lparr>hk_KID = ''2a'', hk_Key = 3\<rparr>), demo_client\<lparr>sc_keys := [\<lparr>hk_KID = ''2a'', hk_Key = 3\<rparr>], sc_fetched := 0\<rparr>, 1)"
  by code_simp

lemma exchange_keys:
  "ParseHPKEKeys (sha256 constant_sigs) null_hpke toy_keys ''P+a+b+c.'' = Some (Inr \<lparr>ks_order = [''2a''], ks_keys = [(''2a'', 3)]\<rparr>)"
  by code_simp

theorem ingest_completes_witness:
  "\<forall>payload. \<exists>c1 w'. signed_Ingest exchange_transport exchange_codec demo_client payload
      (Some \<lparr>tc_Certificate = [''leaf''], tc_PrivateKey = EcdsaKey 5\<rparr>) 0 = (Done (Inr ()), c1, w')"
proof -
  let ?rand = "\<lambda>n (w::nat). (Inr (replicate n (CHR 0x00)) :: bytes res, w)"
  let ?ks = "\<lparr>ks_order = [''2a''], ks_keys = [(''2a'', 3::nat)]\<rparr>"
  let ?key = "\<lparr>hk_KID = ''2a'', hk_Key = 3::nat\<rparr>"
  let ?cert = "\<lparr>tc_Certificate = [''leaf''], tc_PrivateKey = EcdsaKey (5::nat)\<rparr>"
  have full: "reads_full ?rand" by (simp add: reads_full_def)
  have brain: "answering_brain exchange_transport ?ks (public_of (tr_sigs exchange_transport) 5) SignedPathIngest (\<lambda>_. ''ok'') ?rand"
    by (auto simp: answering_brain_def sealer_Seal_def newGCM_def null_hpke_def exchange_transport_def demo_transport_def maxSignedResponse_def
        gcmNonceLen_def)
  have key: "?key \<in> set (ks_Public (tr_hpke exchange_transport) ?ks)" by (simp add: ks_Public_def null_hpke_def)
  obtain nonce where n: "FreshNonce (tr_rand exchange_transport) 1 = (Done nonce, 1)"
    by (simp add: FreshNonce_def exchange_transport_def demo_transport_def)
  obtain req opener w3 where o: "once_request exchange_transport ''https://b'' ?key SignedPathIngest ''msg'' (Some ?cert) 0 nonce 1
      = (Inr (req, opener), w3)"
    by (simp add: once_request_def exchange_transport_def demo_transport_def SealRequest_def null_hpke_def NewRequest_def
        sign_with_def SignRequest_def constant_sigs_def Let_def)
  have "\<exists>w'. signed_Ingest exchange_transport exchange_codec demo_client payload (Some ?cert) 0
      = (Done (Inr ()), demo_client\<lparr>sc_keys := [?key], sc_fetched := 0\<rparr>, w')" for payload
    by (rule ingest_completes[where KE = toy_keys and data = "''P+a+b+c.''" and leaf = "''leaf''" and chain = "[]" and priv = 5
          and raw = "''msg''" and created = 0 and nonce = nonce and req = req and opener = opener, OF _ _ full _ key brain _ _ _ exchange_activeKey])
      (use n o in \<open>simp_all add: constant_sigs_correct null_hpke_correct exchange_keys exchange_codec_def demo_client_def\<close>,
       simp_all add: exchange_transport_def demo_transport_def)
  then show ?thesis by blast
qed

section \<open>Recovery\<close>

text \<open>Whatever the client has cached, if the brain holds its first key or says that it does not.\<close>

lemma Ingest_delivers:
  fixes T :: "('esk, 'epk, 'pk, 'hsk, 'c, 'crt, 'pool, 'w) transport"
  assumes "ecdsa_correct (tr_sigs T)" "hpke_correct (tr_hpke T)" "pk_roundtrip (tr_hpke T)" "reads_full rand_Read"
    and ok: "ks_order ks \<noteq> []" "key_set_ok (sha256 (tr_sigs T)) (tr_hpke T) ks"
    and "answering_brain T ks (public_of (tr_sigs T) priv) SignedPathIngest answer rand_Read"
    and "refusing_brain T ks" "advertising_brain T (sc_base c) (sc_vendor c) ks"
    and "cert = \<lparr>tc_Certificate = leaf # chain, tc_PrivateKey = EcdsaKey priv\<rparr>"
    and "marshal_AlertPayload K payload = Inr raw" "unmarshal_IngestResponse K (answer raw) = Inr ()"
    and cached: "sc_keys c = [] \<or> hd (sc_keys c) \<in> set (ks_Public (tr_hpke T) ks) \<or> map_of (ks_keys ks) (hk_KID (hd (sc_keys c))) = None"
    and "\<forall>n w. fst (tr_rand T n w) \<noteq> None"
    and "\<forall>w. - (2 ^ 63) \<le> now (tr_http T) w div 1000000000 \<and> now (tr_http T) w div 1000000000 < 2 ^ 63"
    and "\<forall>key nonce t w. \<exists>req opener w'. once_request T (sc_base c) key SignedPathIngest raw (Some cert) t nonce w = (Inr (req, opener), w')"
  shows "\<exists>c' w'. signed_Ingest T K c payload (Some cert) w = (Done (Inr ()), c', w')
    \<and> sc_base c' = sc_base c \<and> sc_vendor c' = sc_vendor c
    \<and> sc_keys c' \<in> {sc_keys c, ks_Public (tr_hpke T) ks} \<and> sc_keys c' \<noteq> [] \<and> hd (sc_keys c') \<in> set (ks_Public (tr_hpke T) ks)"
proof -
  let ?keys = "ks_Public (tr_hpke T) ks"
  have ne: "?keys \<noteq> []" using ok(1) by (simp add: ks_Public_def)
  have nonce: "\<exists>nonce w'. FreshNonce (tr_rand T) v = (Done nonce, w')" for v
    using assms(14)[rule_format, of 16 v] by (cases "tr_rand T 16 v") (auto simp: FreshNonce_def split: option.splits)
  have fetch: "\<exists>t w'. fetchKeysLocked T c v = (Inr (), c\<lparr>sc_keys := ?keys, sc_fetched := t\<rparr>, w')" for v
    using fetchKeys_advertised[OF assms(9,3) ok(2) ne] by blast
  have goes: "\<exists>w'. once T c SignedPathIngest raw (unmarshal_IngestResponse K) (Some cert) refresh v = (Done (Inr ()), c1, w')"
    if a: "activeKey T c refresh v = (Done (Inr key), c1, v1)" and b: "sc_base c1 = sc_base c" and k: "key \<in> set ?keys" for refresh v key c1 v1
  proof -
    obtain nn v2 where n: "FreshNonce (tr_rand T) v1 = (Done nn, v2)" using nonce by blast
    obtain rq op v3 where "once_request T (sc_base c1) key SignedPathIngest raw (Some cert) (now (tr_http T) v1 div 1000000000) nn v2
        = (Inr (rq, op), v3)" using assms(16) b by fastforce
    then show ?thesis
      using once_completes[where unmarshal = "unmarshal_IngestResponse K" and answer = answer and raw = raw,
          OF assms(1,2,4) ok(2) k assms(7,10,12) a refl _ _ n] assms(15) by blast
  qed
  have fresh: "\<exists>t w'. once T c SignedPathIngest raw (unmarshal_IngestResponse K) (Some cert) refresh v
      = (Done (Inr ()), c\<lparr>sc_keys := ?keys, sc_fetched := t\<rparr>, w')"
    if "refresh \<or> sc_keys c = [] \<or> now (tr_http T) v - sc_fetched c > signedKeysTTL" for refresh v
  proof -
    obtain t v1 where "fetchKeysLocked T c v = (Inr (), c\<lparr>sc_keys := ?keys, sc_fetched := t\<rparr>, v1)" using fetch by blast
    then have "activeKey T c refresh v = (Done (Inr (hd ?keys)), c\<lparr>sc_keys := ?keys, sc_fetched := t\<rparr>, v1)"
      using ne that by (cases ?keys) (auto simp: activeKey_def)
    from goes[OF this] show ?thesis using ne by auto
  qed
  show ?thesis
  proof (cases "sc_keys c = [] \<or> now (tr_http T) w - sc_fetched c > signedKeysTTL")
    case True
    then obtain t w' where "once T c SignedPathIngest raw (unmarshal_IngestResponse K) (Some cert) False w
      = (Done (Inr ()), c\<lparr>sc_keys := ?keys, sc_fetched := t\<rparr>, w')" using fresh[of False w] by blast
    then show ?thesis using ne by (auto simp: signed_Ingest_def call_def assms(11) is_key_unknown_def)
  next
    case False
    then have a: "activeKey T c False w = (Done (Inr (hd (sc_keys c))), c, w)" by (cases "sc_keys c") (auto simp: activeKey_def)
    show ?thesis
    proof (cases "hd (sc_keys c) \<in> set ?keys")
      case True
      obtain w' where "once T c SignedPathIngest raw (unmarshal_IngestResponse K) (Some cert) False w = (Done (Inr ()), c, w')"
        using goes[OF a refl True] by blast
      then show ?thesis using True False by (auto simp: signed_Ingest_def call_def assms(11) is_key_unknown_def)
    next
      case unknown: False
      have u: "map_of (ks_keys ks) (hk_KID (hd (sc_keys c))) = None" using cached unknown False by blast
      obtain nn w1 where n: "FreshNonce (tr_rand T) w = (Done nn, w1)" using nonce by blast
      obtain rq op v1 where o: "once_request T (sc_base c) (hd (sc_keys c)) SignedPathIngest raw (Some cert)
          (now (tr_http T) w div 1000000000) nn w1 = (Inr (rq, op), v1)" using assms(16) by blast
      obtain e w2 where "once T c SignedPathIngest raw (unmarshal_IngestResponse K) (Some cert) False w = (Done (Inl e), c, w2)"
        "is_key_unknown (Done (Inl e) :: unit res outcome)"
        using once_refused[OF assms(8) u assms(10) a n o] by blast
      moreover obtain t w' where "once T c SignedPathIngest raw (unmarshal_IngestResponse K) (Some cert) True w2
          = (Done (Inr ()), c\<lparr>sc_keys := ?keys, sc_fetched := t\<rparr>, w')" using fresh[of True w2] by blast
      ultimately show ?thesis using ne by (auto simp: signed_Ingest_def call_def assms(11))
    qed
  qed
qed


text \<open>A brain with one key, of id \<^verbatim>\<open>2a\<close>.\<close>

definition bytes_hpke :: "(nat, nat, bytes, nat) hpke" where
  "bytes_hpke = null_hpke\<lparr>pk_Bytes := \<lambda>pk. replicate pk (CHR 0x00)\<rparr>"

definition rotated_transport :: "(nat, nat, nat, nat, bytes, unit, unit, nat) transport" where
  "rotated_transport = demo_transport\<lparr>tr_hpke := bytes_hpke, tr_http := (tr_http demo_transport)
     \<lparr>Do := \<lambda>rq w.
        (if rq_Method rq = ''GET'' \<and> rq_Header rq = [] then (Inr \<lparr>rs_StatusCode = 200, rs_Header = [], rs_Body = ''doc'', rs_BodyErr = None\<rparr>, Suc w)
         else if header_Get (rq_Header rq) HeaderHPKEKid = ''2a''
         then (Inr \<lparr>rs_StatusCode = 200, rs_Header = [], rs_Body = SealedVersion # replicate 12 (CHR 0x00) @ ''ok'', rs_BodyErr = None\<rparr>, Suc w)
         else (Inr \<lparr>rs_StatusCode = 412, rs_Header = [], rs_Body = ''unknown'', rs_BodyErr = None\<rparr>, Suc w))\<rparr>,
     json_error := \<lambda>b. Inr (codeHPKEKeyUnknown, b)\<rparr>"

definition stale_client :: "(nat, unit) SignedClient" where
  "stale_client = demo_client\<lparr>sc_keys := [\<lparr>hk_KID = ''00'', hk_Key = 9\<rparr>]\<rparr>"

definition zeros :: "nat \<Rightarrow> nat \<Rightarrow> bytes res \<times> nat" where
  "zeros n w = (Inr (replicate n (CHR 0x00)), w)"

definition rotated_keys :: "nat HPKEKeySet" where
  "rotated_keys = \<lparr>ks_order = [''2a''], ks_keys = [(''2a'', 3)]\<rparr>"

lemma zeros_full: "reads_full zeros"
  by (simp add: reads_full_def zeros_def)

lemma bytes_hpke_laws: "hpke_correct bytes_hpke" "pk_roundtrip bytes_hpke"
  using null_hpke_correct by (auto simp: hpke_correct_def pk_roundtrip_def bytes_hpke_def null_hpke_def)

lemma rotated_primitives [simp]:
  "tr_sigs rotated_transport = constant_sigs" "tr_hpke rotated_transport = bytes_hpke"
  by (simp_all add: rotated_transport_def demo_transport_def)

lemma rotated_public: "ks_Public bytes_hpke rotated_keys = [\<lparr>hk_KID = ''2a'', hk_Key = 3\<rparr>]"
  by code_simp

lemma rotated_answers: "answering_brain rotated_transport rotated_keys pub path (\<lambda>_. ''ok'') zeros"
proof -
  have kid: "header_Get [] HeaderHPKEKid = ''''" by code_simp
  show ?thesis
    by (auto simp: answering_brain_def sealer_Seal_def newGCM_def bytes_hpke_def null_hpke_def rotated_transport_def demo_transport_def
        maxSignedResponse_def gcmNonceLen_def OpenRequest_def kid zeros_def rotated_keys_def split: option.splits if_splits)
qed

lemma rotated_refuses: "refusing_brain rotated_transport rotated_keys"
  by (auto simp: refusing_brain_def rotated_transport_def demo_transport_def read_limited_def maxSignedResponse_def rotated_keys_def
      split: if_splits)

lemma rotated_advertises: "advertising_brain rotated_transport base () rotated_keys"
proof -
  have b64: "b64_encode (replicate 3 (CHR 0x00)) = ''AAAA''" by code_simp
  have "advertises rotated_transport () 0 rotated_keys ''doc''" unfolding advertises_def rotated_primitives rotated_public
    by (rule exI[of _ "''''"], rule exI[of _ "''''"], rule exI[of _ "''''"])
      (simp add: rotated_transport_def demo_transport_def VerifyPayload_def key_entry_def bytes_hpke_def b64)
  then show ?thesis
    by (simp add: advertising_brain_def NewRequest_def rotated_transport_def demo_transport_def maxSignedResponse_def)
qed

lemma rotated_requests:
  "\<exists>req opener w'. once_request rotated_transport base key path raw (Some \<lparr>tc_Certificate = leaf # chain, tc_PrivateKey = EcdsaKey priv\<rparr>)
     t nonce w = (Inr (req, opener), w')"
  by (simp add: once_request_def rotated_transport_def demo_transport_def SealRequest_def bytes_hpke_def null_hpke_def NewRequest_def
      sign_with_def SignRequest_def constant_sigs_def Let_def)

lemma rotated_outside:
  "fst (tr_rand rotated_transport n w) \<noteq> None" "now (tr_http rotated_transport) w = 0"
  by (simp_all add: rotated_transport_def demo_transport_def)


end
