(* ===== verification/Delivery.thy ===== *)
theory Delivery
  imports Progress Exchange
begin

text \<open>
  From the webhook to the brain's answer: the running server of \<open>System\<close> on the signed transport of
  \<open>Exchange\<close>. \<open>signed_service\<close> is what the brain and the libraries promise, \<open>serves\<close> what the certificate
  files do. Under both, sending never fails, so no worker ever retries and each ends with its payload
  delivered by its one attempt.
\<close>

section \<open>Sending that always succeeds\<close>

definition delivers :: "('f \<Rightarrow> bool) \<Rightarrow> ('f \<times> 'w \<Rightarrow> unit res outcome \<times> 'f \<times> 'w) \<Rightarrow> bool" where
  "delivers I sendF = (\<forall>f w. I f \<longrightarrow> (\<exists>f' w'. sendF (f, w) = (Done (Inr ()), f', w') \<and> I f'))"

lemma deliversD: "delivers I sendF \<Longrightarrow> I f \<Longrightarrow> sendF (f, w) = (r, f', w') \<Longrightarrow> r = Done (Inr ()) \<and> I f'"
  unfolding delivers_def by (metis prod.inject)

lemma delivers_survives: "delivers I sendF \<Longrightarrow> survives I sendF"
  unfolding survives_def by (metis deliversD outcome.distinct(1))

definition first_try :: "('f, 'w) system \<Rightarrow> bool" where
  "first_try s =
    ((\<forall>x \<in># sy_ready s. snd (snd x) \<in> {Sending 0, Ended 1 (Inr ())}) \<and> (\<forall>x \<in># sy_results s. snd (snd x) = Ended 1 (Inr ())))"

lemma step_delivers:
  assumes "\<forall>p. delivers I (sendF p)"
  shows "collector_step u E P sendF backoff s s' \<Longrightarrow> I (sy_forwarder s) \<and> first_try s \<Longrightarrow> I (sy_forwarder s') \<and> first_try s'"
proof (induction rule: collector_step.induct)
  case (send s a p k r f w ph m)
  have k: "k = 0" using send(2,5) by (auto simp: first_try_def)
  have d: "r = Inr ()" "I f" using deliversD[OF assms[rule_format] _ send(3)] send(5) by auto
  have "ph = Ended 1 (Inr ())" using send(4) k d(1) by (auto simp: after_send_def)
  then show ?case using send(5) d(2) by (auto simp: first_try_def dest: in_diffD)
next
  case (send_panic s a p k f w)
  then show ?case using deliversD[OF assms[rule_format] _ send_panic(3)] by auto
next
  case (wait s a p k c f w ph m)
  then show ?case by (auto simp: first_try_def)
next
  case (finish s a p k r c)
  then show ?case by (auto simp: first_try_def dest: in_diffD)
qed (auto simp: first_try_def dest: in_diffD)

lemma reachable_delivers:
  assumes "\<forall>p. delivers I (sendF p)" "I f"
    and "collector_reachable u E P sendF backoff (system_init h m f w) s"
  shows "first_try s"
proof -
  have "I (sy_forwarder s) \<and> first_try s"
    using assms(3) unfolding collector_reachable_def
  proof (induction rule: rtranclp_induct)
    case base
    then show ?case using assms(2) by (simp add: system_init_def first_try_def)
  next
    case (step s s')
    then show ?case using step_delivers[OF assms(1) step(2)] by blast
  qed
  then show ?thesis by blast
qed

text \<open>What is left behind when all is done: one sending per worker, and no failure counted.\<close>

lemma first_try_sent:
  assumes "first_try s" "sendings_ok s" "sy_ready s = {#}"
  shows "mset (sy_sent s) = worker_payloads (sy_results s)"
proof -
  have "sendings W = worker_payloads W" if "\<forall>x \<in># W. snd (snd x) = Ended 1 (Inr ())" for W
    using that by (induction W) auto
  then show ?thesis using assms by (auto simp: sendings_ok_def first_try_def)
qed

lemma first_try_errors: "first_try s \<Longrightarrow> {#x \<in># sy_ready s + sy_results s. ended (Not \<circ> res_ok) x#} = {#}"
  by (fastforce simp: first_try_def ended_def)

section \<open>The signed transport\<close>

text \<open>\<open>Q\<close> are the certificates the collector may hold: each with its key, accepted by the brain, and fit to sign
  with. The brain keeps its key set \<open>ks\<close>; the codec encodes every payload, and decodes the brain's answer.\<close>

definition signed_service ::
    "('esk, 'epk, 'pk, 'hsk, 'c, 'crt, 'pool, 'w) transport \<Rightarrow> codec \<Rightarrow> string \<Rightarrow> 'pool \<Rightarrow> 'hsk HPKEKeySet \<Rightarrow> (bytes \<Rightarrow> bytes)
     \<Rightarrow> (nat \<Rightarrow> 'w \<Rightarrow> bytes res \<times> 'w) \<Rightarrow> ('esk tls_cert \<Rightarrow> bool) \<Rightarrow> bool" where
  "signed_service T K base vendor ks answer rand_Read Q =
    (ecdsa_correct (tr_sigs T) \<and> hpke_correct (tr_hpke T) \<and> pk_roundtrip (tr_hpke T) \<and> reads_full rand_Read
     \<and> ks_order ks \<noteq> [] \<and> key_set_ok (sha256 (tr_sigs T)) (tr_hpke T) ks
     \<and> refusing_brain T ks \<and> advertising_brain T base vendor ks
     \<and> (\<forall>cert. Q cert \<longrightarrow>
          (\<exists>leaf chain priv. cert = \<lparr>tc_Certificate = leaf # chain, tc_PrivateKey = EcdsaKey priv\<rparr>
             \<and> answering_brain T ks (public_of (tr_sigs T) priv) SignedPathIngest answer rand_Read)
          \<and> (\<forall>key raw nonce t w. \<exists>req opener w'.
               once_request T base key SignedPathIngest raw (Some cert) t nonce w = (Inr (req, opener), w')))
     \<and> (\<forall>p. \<exists>raw. marshal_AlertPayload K p = Inr raw \<and> unmarshal_IngestResponse K (answer raw) = Inr ())
     \<and> (\<forall>n w. fst (tr_rand T n w) \<noteq> None)
     \<and> (\<forall>w. - (2 ^ 63) \<le> now (tr_http T) w div 1000000000 \<and> now (tr_http T) w div 1000000000 < 2 ^ 63))"

text \<open>The files can be inspected, and what loads from them is one of those certificates.\<close>

definition serves :: "('esk, 'w) cert_files \<Rightarrow> ('esk tls_cert \<Rightarrow> bool) \<Rightarrow> bool" where
  "serves F Q =
    ((\<forall>p w. \<exists>t w'. os_Stat F p w = (Inr t, w')) \<and> (\<forall>c k w cert w'. LoadX509KeyPair F c k w = (Inr cert, w') \<longrightarrow> Q cert))"

definition holds_cert :: "('esk tls_cert \<Rightarrow> bool) \<Rightarrow> 'esk ClientReloader \<Rightarrow> bool" where
  "holds_cert Q rl = (\<exists>st. rl_cached rl = Some st \<and> Q (cs_cert st))"

lemma GetClientCertificate_holds:
  assumes "serves F Q" "holds_cert Q rl"
  obtains cert rl' w' where "GetClientCertificate F rl w = (Inr cert, rl', w')" "Q cert" "holds_cert Q rl'"
proof -
  obtain st where st: "rl_cached rl = Some st" "Q (cs_cert st)" using assms(2) by (auto simp: holds_cert_def)
  obtain t w1 where 1: "os_Stat F (rl_certFile rl) w = (Inr t, w1)" using assms(1) unfolding serves_def by blast
  obtain t' w2 where 2: "os_Stat F (rl_certFile rl) w1 = (Inr t', w2)" using assms(1) unfolding serves_def by blast
  obtain r w3 where 3: "LoadX509KeyPair F (rl_certFile rl) (rl_keyFile rl) w2 = (r, w3)" by fastforce
  have q: "r = Inr cert \<Longrightarrow> Q cert" for cert using assms(1) 3 unfolding serves_def by blast
  show thesis
  proof (cases "t > cs_mtime st")
    case False
    then show thesis using that 1 st assms(2) by (simp add: GetClientCertificate_def)
  next
    case True
    then show thesis using that 1 2 3 st assms(2) q
      by (cases r) (auto simp: GetClientCertificate_def load_def holds_cert_def)
  qed
qed

text \<open>The forwarder: the signed client with nothing cached but keys the brain holds or knows it does not.\<close>

definition signed_forwarder ::
    "('esk, 'epk, 'pk, 'hsk, 'c, 'crt, 'pool, 'w) transport \<Rightarrow> string \<Rightarrow> 'pool \<Rightarrow> 'hsk HPKEKeySet \<Rightarrow> ('esk tls_cert \<Rightarrow> bool)
     \<Rightarrow> ('esk, 'pk, 'pool) Forwarder \<Rightarrow> bool" where
  "signed_forwarder T base vendor ks Q f =
    (\<exists>c rl. fw_signed f = Some c \<and> fw_reloader f = Some rl \<and> holds_cert Q rl \<and> sc_base c = base \<and> sc_vendor c = vendor
       \<and> (sc_keys c = [] \<or> hd (sc_keys c) \<in> set (ks_Public (tr_hpke T) ks) \<or> map_of (ks_keys ks) (hk_KID (hd (sc_keys c))) = None))"

lemma signed_serviceD:
  fixes T :: "('esk, 'epk, 'pk, 'hsk, 'c, 'crt, 'pool, 'w) transport"
  assumes "signed_service T K base vendor ks answer rand_Read Q"
  shows "ecdsa_correct (tr_sigs T)" "hpke_correct (tr_hpke T)" "pk_roundtrip (tr_hpke T)" "reads_full rand_Read" "ks_order ks \<noteq> []"
    "key_set_ok (sha256 (tr_sigs T)) (tr_hpke T) ks" "refusing_brain T ks" "advertising_brain T base vendor ks"
    "\<forall>n w. fst (tr_rand T n w) \<noteq> None"
    "\<forall>w. - (2 ^ 63) \<le> now (tr_http T) w div 1000000000 \<and> now (tr_http T) w div 1000000000 < 2 ^ 63"
    "Q cert \<Longrightarrow> \<exists>leaf chain priv. cert = \<lparr>tc_Certificate = leaf # chain, tc_PrivateKey = EcdsaKey priv\<rparr>
       \<and> answering_brain T ks (public_of (tr_sigs T) priv) SignedPathIngest answer rand_Read"
    "Q cert \<Longrightarrow> \<forall>key raw nonce t w. \<exists>req opener w'.
       once_request T base key SignedPathIngest raw (Some cert) t nonce w = (Inr (req, opener), w')"
    "\<exists>raw. marshal_AlertPayload K p = Inr raw \<and> unmarshal_IngestResponse K (answer raw) = Inr ()"
  using assms unfolding signed_service_def by (elim conjE; simp)+

lemma send_delivers:
  assumes "signed_service T K base vendor ks answer rand_Read Q" "serves F Q"
  shows "delivers (signed_forwarder T base vendor ks Q) (send T K F ingest p)"
  unfolding delivers_def
proof (intro allI impI)
  fix f w assume "signed_forwarder T base vendor ks Q f"
  then obtain c rl where f: "fw_signed f = Some c" "fw_reloader f = Some rl" "holds_cert Q rl" "sc_base c = base" "sc_vendor c = vendor"
    "sc_keys c = [] \<or> hd (sc_keys c) \<in> set (ks_Public (tr_hpke T) ks) \<or> map_of (ks_keys ks) (hk_KID (hd (sc_keys c))) = None"
    by (auto simp: signed_forwarder_def)
  obtain cert rl' w1 where g: "GetClientCertificate F rl w = (Inr cert, rl', w1)" "Q cert" "holds_cert Q rl'"
    by (rule GetClientCertificate_holds[OF assms(2) f(3)])
  note S = signed_serviceD[OF assms(1)]
  obtain leaf chain priv where cert: "cert = \<lparr>tc_Certificate = leaf # chain, tc_PrivateKey = EcdsaKey priv\<rparr>"
    "answering_brain T ks (public_of (tr_sigs T) priv) SignedPathIngest answer rand_Read"
    using S(11)[OF g(2)] by blast
  obtain raw where raw: "marshal_AlertPayload K p = Inr raw" "unmarshal_IngestResponse K (answer raw) = Inr ()" using S(13) by blast
  have req: "\<forall>key nonce t w. \<exists>req opener w'. once_request T (sc_base c) key SignedPathIngest raw (Some cert) t nonce w = (Inr (req, opener), w')"
    using S(12)[OF g(2)] unfolding f(4) by blast
  obtain c' w2 where c': "signed_Ingest T K c p (Some cert) w1 = (Done (Inr ()), c', w2)" "sc_base c' = base" "sc_vendor c' = vendor"
    "hd (sc_keys c') \<in> set (ks_Public (tr_hpke T) ks)"
    using Ingest_delivers[where payload = p and w = w1, OF S(1-6) cert(2) S(7) S(8)[folded f(4,5)] cert(1) raw f(6) S(9,10) req] unfolding f(4,5) by blast
  have "send T K F ingest p (f, w) = (Done (Inr ()), f\<lparr>fw_reloader := Some rl', fw_signed := Some c'\<rparr>, w2)"
    using f(1,2) g(1) c'(1) by (simp add: send_def)
  moreover have "signed_forwarder T base vendor ks Q (f\<lparr>fw_reloader := Some rl', fw_signed := Some c'\<rparr>)"
    using g(3) c'(2-4) by (simp add: signed_forwarder_def)
  ultimately show "\<exists>f' w'. send T K F ingest p (f, w) = (Done (Inr ()), f', w') \<and> signed_forwarder T base vendor ks Q f'" by blast
qed

lemma NewSignedClient_keys: "NewSignedClient ip up rd pool b v e = Inr c \<Longrightarrow> sc_keys c = []"
  by (auto simp: NewSignedClient_def Let_def split: if_splits sum.splits option.splits)

lemma new_forwarder_signed:
  "new_forwarder V cfg rl w = Inr f \<Longrightarrow> fw_signed f = Some c \<Longrightarrow> fw_reloader f = Some rl \<and> sc_keys c = []"
  by (auto simp: new_forwarder_def Forwarder_NewSigned_def Forwarder_New_def Let_def NewSignedClient_keys split: if_splits sum.splits option.splits)

text \<open>A server that has just started on the signed transport.\<close>

lemma start_server_signed:
  fixes V :: "('esk, 'pool, 'sel, 'w) server_env" and sv :: "('esk, 'pk, 'pool, 'sel, 'w) server"
  assumes "start_server V env w = (Inr sv, w')" "fw_signed (sr_forwarder sv) = Some c" "serves (sv_files V) Q"
  shows "signed_forwarder T (sc_base c) (sc_vendor c) ks Q (sr_forwarder sv)"
proof (rule start_server_wired[OF assms(1)], goal_cases)
  case (1 cfg rl)
  have "LoadX509KeyPair (sv_files V) a b v = (Inr cert, v') \<Longrightarrow> Q cert" for a b v cert v' using assms(3) unfolding serves_def by blast
  then have "holds_cert Q rl" using 1(2)
    by (auto simp: NewClientReloader_def load_def holds_cert_def split: if_splits prod.splits sum.splits)
  moreover have "fw_reloader (sr_forwarder sv) = Some rl \<and> sc_keys c = []" by (rule new_forwarder_signed[OF 1(3) assms(2)])
  ultimately show ?case using assms(2) by (simp add: signed_forwarder_def)
qed

end
