(* ===== verification/Lifecycle.thy ===== *)
theory Lifecycle
  imports Flows
begin

text \<open>
  The life of a deployment: any sequence of enrolment and renewal runs (init containers restarted,
  cron jobs fired) against one certificate store, with the outside world free to change between the
  runs. \<open>lifecycle\<close> is the step relation, its history the list of the runs with their outcomes, newest first; the
  invariants are proved by rule induction from the contract \<open>reliable_persister\<close> and reach the
  Secret store by its interpretation.
\<close>

section \<open>Runs\<close>

text \<open>A run with its outcome and the states of the world before and after it.\<close>

datatype 'w run = Bootstrapped "unit res outcome" 'w 'w | Renewed "unit res outcome" 'w 'w

inductive lifecycle ::
    "('esk, 'epk, 'pk, 'hsk, 'c, 'crt, 'pool, 'w) enrol_env \<Rightarrow> 'd Persister \<Rightarrow> 'd \<Rightarrow> 'w run list \<Rightarrow> 'd \<Rightarrow> bool"
  for E P d0 where
  start: "lifecycle E P d0 [] d0"
| bootstrap: "lifecycle E P d0 h d \<Longrightarrow> bf_Persister b = Some P \<Longrightarrow> Bootstrap_Run E b d w = (x, d', w') \<Longrightarrow>
     lifecycle E P d0 (Bootstrapped x w w' # h) d'"
| renew: "lifecycle E P d0 h d \<Longrightarrow> rf_Persister r = Some P \<Longrightarrow> Renew_Run E r d w = (x, d', w') \<Longrightarrow>
     lifecycle E P d0 (Renewed x w w' # h) d'"

text \<open>A run that reported success.\<close>

fun succeeded :: "'w run \<Rightarrow> bool" where
  "succeeded (Bootstrapped x w w') = (x = Done (Inr ()))"
| "succeeded (Renewed x w w') = (x = Done (Inr ()))"

text \<open>A pair that belongs together: the certificate is the brain's answer to a request that was
  generated together with the key.\<close>

definition issued ::
    "('esk, 'epk, 'pk, 'hsk, 'c, 'crt, 'pool, 'w) enrol_env \<Rightarrow> bytes \<Rightarrow> bytes \<Rightarrow> bool" where
  "issued E cert key =
    (\<exists>csr client ca. (\<exists>tenant cluster w w'. GenerateCSR (ee_csr E) tenant cluster w = (Inr (csr, key), w'))
       \<and> (\<exists>w transport url caFile edge. newEnrolmentClient E w transport url caFile edge = Inr client)
       \<and> ((\<exists>cluster token w w'. en_Bootstrap client cluster token csr w = (Done (Inr (cert, ca)), w'))
          \<or> (\<exists>old w w'. en_Renew client old csr w = (Done (Inr (cert, ca)), w'))))"

section \<open>One run\<close>

text \<open>The last thing a run does to the store is the write, if it gets that far.\<close>

lemma Bootstrap_Run_write:
  assumes "Bootstrap_Run E b d w = (x, d', w')" "bf_Persister b = Some P"
  shows "(d' = d \<or> d' = snd (ps_Exists P d))
    \<or> (\<exists>d1 cert key ca q. ps_Exists P d = (Inr False, d1) \<and> ps_Write P cert key ca d1 = (q, d') \<and> issued E cert key)"
  using assms
  by (auto simp: Bootstrap_Run_def issued_def split: if_splits sum.splits prod.splits outcome.splits) blast+

lemma Renew_Run_write:
  assumes "Renew_Run E r d w = (x, d', w')" "rf_Persister r = Some P"
  shows "(d' = d \<or> d' = snd (ps_Exists P d) \<or> d' = snd (ps_Read P (snd (ps_Exists P d))))
    \<or> (\<exists>d1 d2 y cert key ca q. ps_Exists P d = (Inr True, d1) \<and> ps_Read P d1 = (y, d2)
        \<and> ps_Write P cert key ca d2 = (q, d') \<and> issued E cert key)"
  using assms
  by (auto simp: Renew_Run_def issued_def split: if_splits sum.splits prod.splits outcome.splits) blast+

section \<open>Invariants of every store that keeps its contract\<close>

context reliable_persister
begin

text \<open>A run changes the stored pair only to one that belongs together.\<close>

lemma bootstrap_stores:
  assumes "trusted" "bf_Persister b = Some P" "Bootstrap_Run E b d w = (x, d', w')"
  shows "stored d' = stored d \<or> (\<exists>cert key. stored d' = Some (cert, key) \<and> issued E cert key)"
proof -
  note e = exists_keeps[OF assms(1), of d "fst (ps_Exists P d)" "snd (ps_Exists P d)"]
  from Bootstrap_Run_write[OF assms(3,2)] consider (kept) "d' = d \<or> d' = snd (ps_Exists P d)"
    | (written) d1 cert key ca q where "ps_Exists P d = (Inr False, d1)" "ps_Write P cert key ca d1 = (q, d')" "issued E cert key"
    by blast
  then show ?thesis
  proof cases
    case kept
    then show ?thesis using e by auto
  next
    case written
    then show ?thesis using e write_ok[OF assms(1)] write_err[OF assms(1)] by (cases q) auto
  qed
qed

lemma renew_stores:
  assumes "trusted" "rf_Persister r = Some P" "Renew_Run E r d w = (x, d', w')"
  shows "stored d' = stored d \<or> (\<exists>cert key. stored d' = Some (cert, key) \<and> issued E cert key)"
proof -
  let ?d1 = "snd (ps_Exists P d)"
  note e = exists_keeps[OF assms(1), of d "fst (ps_Exists P d)" ?d1]
    read_keeps[OF assms(1), of ?d1 "fst (ps_Read P ?d1)" "snd (ps_Read P ?d1)"]
  from Renew_Run_write[OF assms(3,2)] consider (kept) "d' = d \<or> d' = ?d1 \<or> d' = snd (ps_Read P ?d1)"
    | (written) d1 d2 y cert key ca q where "ps_Exists P d = (Inr True, d1)" "ps_Read P d1 = (y, d2)"
        "ps_Write P cert key ca d2 = (q, d')" "issued E cert key"
    by blast
  then show ?thesis
  proof cases
    case kept
    then show ?thesis using e by auto
  next
    case written
    then show ?thesis using e write_ok[OF assms(1)] write_err[OF assms(1)] by (cases q) auto
  qed
qed

lemma lifecycle_stored:
  assumes "lifecycle E P d0 h d" "trusted" "stored d0 \<noteq> None \<or> (\<exists>r\<in>set h. succeeded r)"
  shows "stored d \<noteq> None"
  using assms
proof (induction rule: lifecycle.induct)
  case (bootstrap h d b w x d' w')
  then show ?case
    using bootstrap_installs[OF bootstrap(5,2), of E d w d' w'] bootstrap_stores[OF bootstrap(5,2,3)] by fastforce
next
  case (renew h d r w x d' w')
  then show ?case
    using renew_outcome[OF renew(5,2), of E d w d' w'] renew_stores[OF renew(5,2,3)] by fastforce
qed auto

lemma lifecycle_issued:
  assumes "lifecycle E P d0 h d" "trusted" "\<forall>cert key. stored d0 = Some (cert, key) \<longrightarrow> issued E cert key"
  shows "\<forall>cert key. stored d = Some (cert, key) \<longrightarrow> issued E cert key"
  using assms
proof (induction rule: lifecycle.induct)
  case (bootstrap h d b w x d' w')
  then show ?case using bootstrap_stores[OF bootstrap(5,2,3)] by auto
next
  case (renew h d r w x d' w')
  then show ?case using renew_stores[OF renew(5,2,3)] by auto
qed auto

text \<open>After a success, enrolment runs leave the world alone.\<close>

lemma lifecycle_quiet:
  assumes "lifecycle E P d0 h d" "trusted" "h = h2 @ r # h1" "succeeded r" "Bootstrapped x w w' \<in> set h2"
  shows "w' = w"
  using assms
proof (induction arbitrary: h2 rule: lifecycle.induct)
  case (bootstrap h d b v y d' v')
  then obtain h3 where h3: "h2 = Bootstrapped y v v' # h3" "h = h3 @ r # h1"
    by (cases h2) auto
  have "stored d \<noteq> None" using lifecycle_stored[OF bootstrap(1,5)] h3(2) bootstrap(7) by auto
  then have "v' = v" using bootstrap_idempotent[OF bootstrap(5,2) _ bootstrap(3)] by simp
  then show ?case using bootstrap(4)[OF bootstrap(5) h3(2) bootstrap(7)] bootstrap(8) h3(1) by auto
next
  case (renew h d rf v y d' v')
  then obtain h3 where h3: "h2 = Renewed y v v' # h3" "h = h3 @ r # h1"
    by (cases h2) auto
  then show ?case using renew(4)[OF renew(5) h3(2) renew(7)] renew(8) by auto
qed simp

end

section \<open>Properties\<close>

text \<open>A brain that answers the enrolment call.\<close>

definition answering_enrol :: "(nat, nat, nat, nat, bytes, unit, unit, nat) enrol_env" where
  "answering_enrol = demo_enrol\<lparr>ee_grpc := (ee_grpc demo_enrol)
     \<lparr>gr_BootstrapCert := \<lambda>_ _ _ _ w. (Inr \<lparr>brs_Certificate = ''C'', brs_Ca = ''A''\<rparr>, Suc w)\<rparr>\<rparr>"

lemma answering_bootstrap:
  "\<exists>d'. Bootstrap_Run answering_enrol demo_bootstrap None 5 = (Done (Inr ()), d', 6)"
proof -
  have "TrimSpace ''token'' = ''token''" by code_simp
  then show ?thesis
    by (simp add: Bootstrap_Run_def demo_bootstrap_def SecretPersister_def Secret_Exists_def Secret_Write_def demo_api_def
        answering_enrol_def demo_enrol_def GenerateCSR_def newEnrolmentClient_def NewBrainClient_def brain_enrolment_def
        brain_Bootstrap_def stampReplay_def FreshNonce_def)
qed

text \<open>C16: the certificate store over the whole life of a deployment. Starting from an empty Secret, after any
  sequence of enrolment and renewal runs, each failing or succeeding in any way against any brain:
  once a run has succeeded a pair is stored for good; whatever pair is stored belongs together, its
  certificate being the brain's answer to a request made with exactly the stored key; and once a run
  has succeeded, no later enrolment run touches the world outside, so a bootstrap token is never used
  again.\<close>

theorem lifecycle_safe:
  assumes "lawful_api A s view" "lifecycle E (SecretPersister A s) d0 h d" "secret_pair view d0 = None"
  shows "((\<exists>r\<in>set h. succeeded r) \<longrightarrow> secret_pair view d \<noteq> None)
    \<and> (\<forall>cert key. secret_pair view d = Some (cert, key) \<longrightarrow> issued E cert key)
    \<and> (\<forall>h1 r h2 x w w'. h = h2 @ r # h1 \<and> succeeded r \<and> Bootstrapped x w w' \<in> set h2 \<longrightarrow> w' = w)"
proof (intro conjI allI impI, goal_cases)
  case 1
  then show ?case using sp.lifecycle_stored[OF assms(2,1)] by blast
next
  case (2 cert key)
  then show ?case using sp.lifecycle_issued[OF assms(2,1)] assms(3) by simp
next
  case (3 h1 r h2 x w w')
  then show ?case using sp.lifecycle_quiet[OF assms(2,1)] by blast
qed

theorem lifecycle_safe_witness:
  "\<exists>d. lifecycle answering_enrol (SecretPersister demo_api demo_store) None [Bootstrapped (Done (Inr ())) 5 6] d
     \<and> secret_pair id d \<noteq> None"
proof -
  obtain d where "Bootstrap_Run answering_enrol demo_bootstrap None 5 = (Done (Inr ()), d, 6)"
    using answering_bootstrap by blast
  then have l: "lifecycle answering_enrol (SecretPersister demo_api demo_store) None [Bootstrapped (Done (Inr ())) 5 6] d"
    using lifecycle.bootstrap[OF lifecycle.start, of demo_bootstrap "SecretPersister demo_api demo_store" answering_enrol None 5]
    by (simp add: demo_bootstrap_def)
  have "secret_pair id (None :: secret option) = None" by (simp add: secret_pair_def)
  then show ?thesis using l lifecycle_safe[OF demo_api_lawful l] by auto
qed

text \<open>An API server that is up: it answers every read with the object or with "not found", and accepts
  every write.\<close>

definition available_api :: "'w secrets_api \<Rightarrow> SecretStore \<Rightarrow> bool" where
  "available_api A s =
    ((\<forall>w e. fst (sa_Get A (ss_namespace s) (ss_secretName s) w) = Inl e \<longrightarrow> IsNotFound A e)
     \<and> (\<forall>x w. fst (sa_Update A (ss_namespace s) (ss_secretName s) x w) = Inr ())
     \<and> (\<forall>x w. fst (sa_Create A (ss_namespace s) (ss_secretName s) x w) = Inr ()))"

lemma available_Exists:
  assumes "available_api A s" "lawful_api A s view"
  shows "\<exists>d'. Secret_Exists A s d = (Inr (secret_pair view d \<noteq> None), d')"
proof -
  obtain x d' where e: "Secret_Exists A s d = (x, d')" by fastforce
  moreover obtain b where "x = Inr b"
    using e assms(1) by (auto simp: Secret_Exists_def available_api_def split: prod.splits sum.splits if_splits) (metis fst_conv)
  ultimately show ?thesis using Secret_Exists_spec[OF assms(2) e] by auto
qed

lemma available_Write:
  assumes "available_api A s" "cert \<noteq> ''''" "key \<noteq> ''''"
  shows "\<exists>d'. Secret_Write A s cert key ca d = (Inr (), d')"
  using assms unfolding available_api_def Secret_Write_def Let_def
  by (auto split: prod.splits sum.splits) (metis fst_conv old.sum.exhaust sum.distinct(1))+



end
