(* ===== verification/Rotation.thy ===== *)
theory Rotation
  imports Reloader Keypair
begin

text \<open>
  Two components over one disk: \<open>WriteMaterial\<close> replaces the certificate material while the server's
  \<open>ClientReloader\<close> keeps reading it. The files change between any two system calls of the reader, the two
  reads of \<^verbatim>\<open>tls.LoadX509KeyPair\<close> included; \<open>at k\<close> is the state of the disk the reader's system call number \<open>k\<close>
  falls on.
\<close>

section \<open>The disk over time\<close>

text \<open>The states a run from \<open>d\<close> to \<open>d'\<close> goes through, oldest first; it stays in the last.\<close>

definition disk_states :: "disk \<Rightarrow> disk \<Rightarrow> files list" where
  "disk_states d d' = dk_files d # rev (take (length (dk_history d') - length (dk_history d)) (dk_history d'))"

definition snapshot :: "files list \<Rightarrow> nat \<Rightarrow> files" where
  "snapshot S i = S ! min i (length S - 1)"

lemma snapshot_in: "S \<noteq> [] \<Longrightarrow> snapshot S i \<in> set S"
  unfolding snapshot_def by (rule nth_mem) (metis length_greater_0_conv diff_less less_one min.strict_coboundedI2)

lemma disk_states_history: "dk_history d' = hs @ dk_history d \<Longrightarrow> disk_states d d' = dk_files d # rev hs"
  by (simp add: disk_states_def)

section \<open>The reader\<close>

text \<open>\<^verbatim>\<open>os.Stat\<close> is one system call, \<^verbatim>\<open>tls.LoadX509KeyPair\<close> reads the certificate and then the key.
  \<open>mtime\<close> is the modification time of a file and \<open>x509\<close> is \<^verbatim>\<open>tls.X509KeyPair\<close>.\<close>

definition watched_files ::
    "(bytes \<Rightarrow> bytes \<Rightarrow> 'esk tls_cert res) \<Rightarrow> (dfile \<Rightarrow> int) \<Rightarrow> (nat \<Rightarrow> files) \<Rightarrow> ('esk, nat) cert_files" where
  "watched_files x509 mtime fs =
    \<lparr>os_Stat = \<lambda>p k. (case fs k p of None \<Rightarrow> Inl (ErrExt ''stat'') | Some f \<Rightarrow> Inr (mtime f), Suc k),
     LoadX509KeyPair = \<lambda>c p k.
       (case fs k c of
          None \<Rightarrow> (Inl (ErrExt ''open''), Suc k)
        | Some f \<Rightarrow>
           (case fs (Suc k) p of
              None \<Rightarrow> (Inl (ErrExt ''open''), Suc (Suc k))
            | Some g \<Rightarrow> (x509 (fl_bytes f) (fl_bytes g), Suc (Suc k))))\<rparr>"

text \<open>\<open>n\<close> calls of \<open>GetClientCertificate\<close> in a row, with their results.\<close>

fun serve ::
    "('esk, 'w) cert_files \<Rightarrow> nat \<Rightarrow> 'esk ClientReloader \<Rightarrow> 'w \<Rightarrow> 'esk tls_cert res list \<times> 'esk ClientReloader \<times> 'w" where
  "serve F 0 r w = ([], r, w)"
| "serve F (Suc n) r w =
    (case GetClientCertificate F r w of
       (res, r1, w1) \<Rightarrow> (case serve F n r1 w1 of (rest, r2, w2) \<Rightarrow> (res # rest, r2, w2)))"

section \<open>Order of the writes\<close>

text \<open>Outside its temporary files, a write changes nothing before its rename and nothing after it.\<close>

definition agrees :: "files \<Rightarrow> files \<Rightarrow> bool" where
  "agrees F fs = (\<forall>q. \<not> is_temp q \<longrightarrow> fs q = F q)"

lemma agrees_temp: "is_temp t \<Longrightarrow> agrees F (fs(t := x)) = agrees F fs"
  by (auto simp: agrees_def)

lemma agrees_refl [simp]: "agrees F F"
  by (simp add: agrees_def)

lemma writeAtomic_order:
  assumes "writeAtomic p data 384 d = (r, d')" "\<not> is_temp p"
  shows "\<exists>hs. list_all (agrees (dk_files d)) hs
    \<and> dk_history d' = (if r = Inr () then [dk_files d'] else []) @ hs @ dk_history d"
  using assms
  by (auto simp: writeAtomic_def cleanup_def os_defs Let_def agrees_temp split: if_splits)

text \<open>The file \<open>p\<close> is as it was at first and then has the contents \<open>b\<close> for good.\<close>

definition settles :: "string \<Rightarrow> bytes \<Rightarrow> disk \<Rightarrow> disk \<Rightarrow> bool" where
  "settles p b d d' =
    (\<exists>late early. dk_history d' = late @ early @ dk_history d
       \<and> list_all (\<lambda>fs. fs p = dk_files d p) early \<and> list_all (\<lambda>fs. fs p = Some \<lparr>fl_bytes = b, fl_mode = 384\<rparr>) late
       \<and> dk_files d' p = (if late = [] then dk_files d p else Some \<lparr>fl_bytes = b, fl_mode = 384\<rparr>))"

lemma settles_refl: "settles p b d d"
  unfolding settles_def by (intro exI[of _ "[]"]) simp

lemma settles_write:
  assumes "writeAtomic p b 384 d = (r, d')" "\<not> is_temp p"
  shows "settles p b d d'"
proof -
  obtain hs where hs: "list_all (agrees (dk_files d)) hs"
    "dk_history d' = (if r = Inr () then [dk_files d'] else []) @ hs @ dk_history d"
    using writeAtomic_order[OF assms] by blast
  have "list_all (\<lambda>fs. fs p = dk_files d p) hs" using hs(1) assms(2) by (auto simp: list_all_iff agrees_def)
  then show ?thesis using hs(2) writeAtomic_spec[OF assms] assms(2)
    unfolding settles_def by (intro exI[of _ "if r = Inr () then [dk_files d'] else []"] exI[of _ hs]) auto
qed

lemma settles_then:
  assumes "settles p b d d1" "writeAtomic q b' 384 d1 = (r, d')" "\<not> is_temp p" "\<not> is_temp q" "p \<noteq> q"
  shows "settles p b d d'"
proof -
  obtain hs where hs: "list_all (agrees (dk_files d1)) hs"
    "dk_history d' = (if r = Inr () then [dk_files d'] else []) @ hs @ dk_history d1"
    using writeAtomic_order[OF assms(2,4)] by blast
  have p: "dk_files d' p = dk_files d1 p" using writeAtomic_spec[OF assms(2,4)] assms(3,5) by (auto split: if_splits)
  let ?hs = "(if r = Inr () then [dk_files d'] else []) @ hs"
  have k: "list_all (\<lambda>fs. fs p = dk_files d1 p) ?hs" using hs(1) p assms(3) by (auto simp: list_all_iff agrees_def)
  obtain late early where s: "dk_history d1 = late @ early @ dk_history d"
    "list_all (\<lambda>fs. fs p = dk_files d p) early" "list_all (\<lambda>fs. fs p = Some \<lparr>fl_bytes = b, fl_mode = 384\<rparr>) late"
    "dk_files d1 p = (if late = [] then dk_files d p else Some \<lparr>fl_bytes = b, fl_mode = 384\<rparr>)"
    using assms(1) unfolding settles_def by blast
  show ?thesis
  proof (cases "late = []")
    case True
    then show ?thesis using s hs(2) k p unfolding settles_def
      by (intro exI[of _ "[]"] exI[of _ "?hs @ early"]) simp
  next
    case False
    then show ?thesis using s hs(2) k p unfolding settles_def
      by (intro exI[of _ "?hs @ late"] exI[of _ early]) simp
  qed
qed

lemma WriteMaterial_settles:
  assumes "WriteMaterial (NewMaterial dir) cert key ca d = (r, d')"
  shows "settles (mt_CertFile (NewMaterial dir)) cert d d'"
proof -
  let ?c = "mt_CertFile (NewMaterial dir)" and ?d1 = "did (dk_files d) d"
  have did: "settles ?c cert d d''" if "settles ?c cert ?d1 d''" for d''
  proof -
    from that obtain late early where "dk_history d'' = late @ early @ dk_history ?d1"
      "list_all (\<lambda>fs. fs ?c = dk_files ?d1 ?c) early" "list_all (\<lambda>fs. fs ?c = Some \<lparr>fl_bytes = cert, fl_mode = 384\<rparr>) late"
      "dk_files d'' ?c = (if late = [] then dk_files ?d1 ?c else Some \<lparr>fl_bytes = cert, fl_mode = 384\<rparr>)"
      unfolding settles_def by blast
    then show ?thesis unfolding settles_def by (intro exI[of _ late] exI[of _ "early @ [dk_files d]"]) simp
  qed
  show ?thesis using assms
  proof (cases rule: WriteMaterial_cases)
    case refused
    then show ?thesis by (simp add: settles_refl)
  next
    case mkdir
    then show ?thesis using did settles_refl by simp
  next
    case (cert d1)
    then show ?thesis using did settles_write by simp
  next
    case (key d1 d2)
    then show ?thesis using did settles_then[OF settles_write[of ?c]] by simp
  next
    case (ca d1 d2 d3)
    have "settles ?c cert d1 d3" using ca settles_then[OF settles_write[of ?c]] by simp
    then show ?thesis using did settles_then[of ?c cert d1 d3 "mt_CAFile (NewMaterial dir)"] ca(3,6)
      by (auto split: if_splits)
  qed
qed

section \<open>What the reader sees of a rotation\<close>

text \<open>The old files \<open>fc\<close>, \<open>fk\<close> or the new ones \<open>gc\<close>, \<open>gk\<close>, the certificate going from old to new once.\<close>

definition rotating :: "string \<Rightarrow> string \<Rightarrow> dfile \<Rightarrow> dfile \<Rightarrow> dfile \<Rightarrow> dfile \<Rightarrow> (nat \<Rightarrow> files) \<Rightarrow> bool" where
  "rotating c p fc fk gc gk fs =
    (\<forall>i. fs i c \<in> {Some fc, Some gc} \<and> fs i p \<in> {Some fk, Some gk}
       \<and> (fs i c = Some gc \<longrightarrow> (\<forall>j \<ge> i. fs j c = Some gc)))"

lemma snapshot_settled:
  assumes "\<forall>fs \<in> set A. fs c = x" "\<forall>fs \<in> set B. fs c = y" "snapshot (A @ B) i c = y" "i \<le> j" "A \<noteq> []"
  shows "snapshot (A @ B) j c = y"
proof (cases "min i (length (A @ B) - 1) < length A")
  case True
  then have "x = y" using assms(1,3) by (metis nth_append nth_mem snapshot_def)
  then show ?thesis using assms(1,2,5) snapshot_in[of "A @ B" j] by auto
next
  case False
  then have "\<not> min j (length (A @ B) - 1) < length A" using assms(4) by linarith
  moreover have "0 < length A" using assms(5) by simp
  ultimately have "min j (length (A @ B) - 1) - length A < length B" by (simp only: length_append)
  then have "snapshot (A @ B) j \<in> set B" using \<open>\<not> min j (length (A @ B) - 1) < length A\<close>
    by (simp only: snapshot_def nth_append if_False nth_mem)
  then show ?thesis using assms(2) by blast
qed

lemma WriteMaterial_rotating:
  fixes dir :: string
  defines "m \<equiv> NewMaterial dir"
  assumes "WriteMaterial m cert key ca d = (r, d')" "mono at"
    and "dk_files d (mt_CertFile m) = Some fc" "dk_files d (mt_KeyFile m) = Some fk"
  shows "rotating (mt_CertFile m) (mt_KeyFile m) fc fk \<lparr>fl_bytes = cert, fl_mode = 384\<rparr> \<lparr>fl_bytes = key, fl_mode = 384\<rparr>
    (\<lambda>k. snapshot (disk_states d d') (at k))"
proof -
  let ?c = "mt_CertFile m" and ?gc = "\<lparr>fl_bytes = cert, fl_mode = 384\<rparr>" and ?gk = "\<lparr>fl_bytes = key, fl_mode = 384\<rparr>"
  obtain late early where s: "dk_history d' = late @ early @ dk_history d"
    "list_all (\<lambda>fs. fs ?c = dk_files d ?c) early" "list_all (\<lambda>fs. fs ?c = Some ?gc) late"
    using WriteMaterial_settles[OF assms(2)[unfolded m_def]] unfolding settles_def m_def by blast
  have S: "disk_states d d' = (dk_files d # rev early) @ rev late" using disk_states_history[of d' "late @ early" d] s(1) by simp
  obtain hs where h: "dk_history d' = hs @ dk_history d" "list_all (touches (dk_files d) (new_files m cert key ca)) hs"
    using WriteMaterial_passes[OF assms(2)[unfolded m_def]] unfolding passes_def m_def by blast
  have t: "touches (dk_files d) (new_files m cert key ca) fs" if "fs \<in> set (disk_states d d')" for fs
    using that h(2) disk_states_history[OF h(1)] by (auto simp: list_all_iff)
  have T: "touches (dk_files d) (new_files m cert key ca) (snapshot (disk_states d d') i)" for i
    using t snapshot_in[of "disk_states d d'" i] by (simp add: disk_states_def)
  have keys: "snapshot (disk_states d d') i (mt_KeyFile m) \<in> {Some fk, Some ?gk}" for i
    using T[of i, unfolded touches_def, rule_format, of "mt_KeyFile m"] assms(5) unfolding m_def by auto
  have certs: "snapshot (disk_states d d') i ?c \<in> {Some fc, Some ?gc}" for i
    using T[of i, unfolded touches_def, rule_format, of ?c] assms(4) unfolding m_def by auto
  have A: "\<forall>fs \<in> set (dk_files d # rev early). fs ?c = dk_files d ?c" using s(2) by (simp add: list_all_iff)
  have B: "\<forall>fs \<in> set (rev late). fs ?c = Some ?gc" using s(3) by (simp add: list_all_iff)
  have "snapshot (disk_states d d') (at j) ?c = Some ?gc" if "snapshot (disk_states d d') (at i) ?c = Some ?gc" "i \<le> j" for i j
    using snapshot_settled[OF A B that(1)[unfolded S] monoD[OF assms(3) that(2)]] unfolding S by blast
  then show ?thesis using keys certs by (auto simp: rotating_def)
qed

text \<open>The cache during the rotation: the old pair under its old time or the new one under its new time.\<close>

definition reader_at ::
    "CertMaterial \<Rightarrow> (dfile \<Rightarrow> int) \<Rightarrow> 'esk tls_cert \<Rightarrow> dfile \<Rightarrow> 'esk ClientReloader \<Rightarrow> bool" where
  "reader_at m mtime crt f r =
    (rl_certFile r = mt_CertFile m \<and> rl_keyFile r = mt_KeyFile m \<and> rl_cached r = Some \<lparr>cs_cert = crt, cs_mtime = mtime f\<rparr>)"

lemma rotating_call:
  assumes rot: "rotating (mt_CertFile m) (mt_KeyFile m) fc fk gc gk fs" and t: "mtime fc < mtime gc"
    and x: "x509 (fl_bytes gc) (fl_bytes gk) = Inr new" "x509 (fl_bytes gc) (fl_bytes fk) = Inl e"
    and g: "GetClientCertificate (watched_files x509 mtime fs) r k = (res, r', k')"
  shows "reader_at m mtime old fc r \<Longrightarrow>
      k < k' \<and> (res = Inr old \<and> reader_at m mtime old fc r' \<or> res = Inr new \<and> reader_at m mtime new gc r')"
    and "reader_at m mtime new gc r \<Longrightarrow> k < k' \<and> res = Inr new \<and> reader_at m mtime new gc r'"
    and "reader_at m mtime old fc r \<Longrightarrow> fs k (mt_CertFile m) = Some gc \<Longrightarrow> fs (k + 3) (mt_KeyFile m) = Some gk \<Longrightarrow> fk \<noteq> gk \<Longrightarrow>
      res = Inr new \<and> reader_at m mtime new gc r'"
proof -
  let ?c = "mt_CertFile m"
  have c: "fs k ?c = Some fc \<or> fs k ?c = Some gc \<and> fs (Suc k) ?c = Some gc \<and> fs (Suc (Suc k)) ?c = Some gc"
    using rot unfolding rotating_def by (metis insert_iff le_Suc_eq order_refl singletonD)
  have p: "fs (Suc (Suc (Suc k))) (mt_KeyFile m) = Some fk \<or> fs (Suc (Suc (Suc k))) (mt_KeyFile m) = Some gk"
    using rot unfolding rotating_def by blast
  note defs = GetClientCertificate_def load_def watched_files_def reader_at_def
  {
    assume r: "reader_at m mtime old fc r"
    show "k < k' \<and> (res = Inr old \<and> reader_at m mtime old fc r' \<or> res = Inr new \<and> reader_at m mtime new gc r')"
      using c p r g t x by (auto simp: defs split: if_splits)
    assume "fs k ?c = Some gc" "fs (k + 3) (mt_KeyFile m) = Some gk"
    then show "res = Inr new \<and> reader_at m mtime new gc r'"
      using c r g t x by (auto simp: defs numeral_3_eq_3 split: if_splits)
  next
    assume r: "reader_at m mtime new gc r"
    then show "k < k' \<and> res = Inr new \<and> reader_at m mtime new gc r'"
      using c g t by (auto simp: defs split: if_splits)
  }
qed

lemma serve_rotating:
  assumes "rotating (mt_CertFile m) (mt_KeyFile m) fc fk gc gk fs" "mtime fc < mtime gc"
    and "x509 (fl_bytes gc) (fl_bytes gk) = Inr new" "x509 (fl_bytes gc) (fl_bytes fk) = Inl e"
  shows "serve (watched_files x509 mtime fs) n r k = (rs, r', k') \<Longrightarrow>
      (reader_at m mtime new gc r \<longrightarrow> rs = replicate n (Inr new) \<and> reader_at m mtime new gc r')
      \<and> (reader_at m mtime old fc r \<longrightarrow> (\<exists>i \<le> n. rs = replicate i (Inr old) @ replicate (n - i) (Inr new)
          \<and> (if i = n then reader_at m mtime old fc r' else reader_at m mtime new gc r')))"
proof (induction n arbitrary: r k rs)
  case (Suc n)
  obtain res r1 k1 rest where g: "GetClientCertificate (watched_files x509 mtime fs) r k = (res, r1, k1)"
    "serve (watched_files x509 mtime fs) n r1 k1 = (rest, r', k')" "rs = res # rest"
    using Suc(2) by (auto split: prod.splits)
  note IH = Suc(1)[OF g(2)] and step = rotating_call[OF assms g(1)]
  show ?case
  proof (intro conjI impI)
    assume r: "reader_at m mtime new gc r"
    then show "rs = replicate (Suc n) (Inr new)" "reader_at m mtime new gc r'" using step(2) IH g(3) by auto
  next
    assume r: "reader_at m mtime old fc r"
    then consider "res = Inr old" "reader_at m mtime old fc r1" | "res = Inr new" "reader_at m mtime new gc r1"
      using step(1) by blast
    then show "\<exists>i \<le> Suc n. rs = replicate i (Inr old) @ replicate (Suc n - i) (Inr new)
        \<and> (if i = Suc n then reader_at m mtime old fc r' else reader_at m mtime new gc r')"
    proof cases
      case 1
      then obtain i where "i \<le> n" "rest = replicate i (Inr old) @ replicate (n - i) (Inr new)"
        "if i = n then reader_at m mtime old fc r' else reader_at m mtime new gc r'" using IH by blast
      then show ?thesis using 1(1) g(3) by (intro exI[of _ "Suc i"]) auto
    next
      case 2
      then show ?thesis using IH g(3) by (intro exI[of _ 0]) auto
    qed
  qed
qed auto

lemma WriteMaterial_last:
  assumes "WriteMaterial (NewMaterial dir) cert key ca d = (Inr (), d')"
  shows "snapshot (disk_states d d') i = dk_files d' \<or> Suc i < length (disk_states d d')"
proof -
  have "\<exists>hs. dk_history d' = dk_files d' # hs @ dk_history d"
    using assms
  proof (cases rule: WriteMaterial_cases)
    case (ca d1 d2 d3)
    obtain h2 h3 where h: "dk_history d2 = dk_files d2 # h2 @ dk_history d1" "dk_history d3 = dk_files d3 # h3 @ dk_history d2"
      using writeAtomic_last[OF ca(4)] writeAtomic_last[OF ca(5)] by blast
    have d1: "dk_history d1 = [dk_files d] @ dk_history d" using ca(3) by simp
    show ?thesis
    proof (cases "d' = d3")
      case True
      then have "dk_history d' = dk_files d' # (h3 @ dk_files d2 # h2 @ [dk_files d]) @ dk_history d" using h d1 by simp
      then show ?thesis by blast
    next
      case False
      then obtain h4 where "dk_history d' = dk_files d' # h4 @ dk_history d3"
        using ca(6) writeAtomic_last[of "mt_CAFile (NewMaterial dir)" "ca" d3 d'] by (auto split: if_splits)
      then have "dk_history d' = dk_files d' # (h4 @ dk_files d3 # h3 @ dk_files d2 # h2 @ [dk_files d]) @ dk_history d"
        using h d1 by simp
      then show ?thesis by blast
    qed
  qed auto
  then obtain hs where "dk_history d' = (dk_files d' # hs) @ dk_history d" by auto
  then have S: "disk_states d d' = (dk_files d # rev hs) @ [dk_files d']" using disk_states_history[of d' "dk_files d' # hs" d] by simp
  show ?thesis
  proof (cases "Suc i < length (disk_states d d')")
    case False
    then have "min i (length (disk_states d d') - 1) = length (dk_files d # rev hs)" using S by simp
    then show ?thesis by (intro disjI1) (simp only: snapshot_def S nth_append_length)
  qed simp
qed

section \<open>Property\<close>

text \<open>C19: a running server survives the rotation of its certificate. Whenever the calls of the reader fall
  into the run of \<open>WriteMaterial\<close>, whether that succeeds, fails at any operation or dies, every call hands
  out the old pair or the new one and never an error or a mixture of both, and after the first new one
  only new ones; once a successful rotation is complete, the next call hands out the new pair. What it
  takes is that the new certificate does not go with the old key and has a later modification time.\<close>

theorem rotation_served:
  assumes "WriteMaterial (NewMaterial dir) cert key ca d = (r, d')" "mono at"
    and "dk_files d (mt_CertFile (NewMaterial dir)) = Some fc" "dk_files d (mt_KeyFile (NewMaterial dir)) = Some fk"
    and "mtime fc < mtime \<lparr>fl_bytes = cert, fl_mode = 384\<rparr>"
    and "x509 cert key = Inr new" "x509 cert (fl_bytes fk) = Inl e"
    and "F = watched_files x509 mtime (\<lambda>k. snapshot (disk_states d d') (at k))"
    and "reader_at (NewMaterial dir) mtime old fc rl" "serve F n rl k = (rs, rl', k')"
  shows "(\<exists>i \<le> n. rs = replicate i (Inr old) @ replicate (n - i) (Inr new))
    \<and> (r = Inr () \<and> length (disk_states d d') \<le> Suc (at k') \<longrightarrow> fst (GetClientCertificate F rl' k') = Inr new)"
proof -
  let ?m = "NewMaterial dir" and ?gc = "\<lparr>fl_bytes = cert, fl_mode = 384\<rparr>" and ?gk = "\<lparr>fl_bytes = key, fl_mode = 384\<rparr>"
    and ?fs = "\<lambda>k. snapshot (disk_states d d') (at k)"
  have x: "x509 (fl_bytes ?gc) (fl_bytes ?gk) = Inr new" "x509 (fl_bytes ?gc) (fl_bytes fk) = Inl e" using assms(6,7) by simp_all
  note rot = WriteMaterial_rotating[OF assms(1-4)]
  note sv = serve_rotating[OF rot assms(5) x assms(10)[unfolded assms(8)]]
  obtain i where i: "i \<le> n" "rs = replicate i (Inr old) @ replicate (n - i) (Inr new)"
    and rl': "if i = n then reader_at ?m mtime old fc rl' else reader_at ?m mtime new ?gc rl'"
    using sv assms(9) by blast
  obtain res r2 k2 where g: "GetClientCertificate (watched_files x509 mtime ?fs) rl' k' = (res, r2, k2)" by (metis prod_cases3)
  note call = rotating_call[OF rot assms(5) x g]
  have "res = Inr new" if fin: "r = Inr ()" "length (disk_states d d') \<le> Suc (at k')"
  proof -
    have "at k' \<le> at (k' + 3)" using assms(2) by (simp add: monoD)
    then have "?fs k' = dk_files d'" "?fs (k' + 3) = dk_files d'"
      using WriteMaterial_last[of dir cert key ca d d'] assms(1) fin by (metis le_trans not_less_eq_eq order_trans Suc_le_mono not_less)+
    then have "?fs k' (mt_CertFile ?m) = Some ?gc" "?fs (k' + 3) (mt_KeyFile ?m) = Some ?gk"
      using WriteMaterial_ok[of dir cert key ca d d'] assms(1) fin(1) by (auto simp: installed_def Let_def)
    moreover have "fk \<noteq> ?gk" using x by auto
    ultimately show ?thesis using call(2,3) rl' by (auto split: if_splits)
  qed
  then show ?thesis using i g assms(8) by auto
qed

text \<open>A pair goes together when the names end alike; the old pair has the earlier time.\<close>

definition toy_x509 :: "bytes \<Rightarrow> bytes \<Rightarrow> nat tls_cert res" where
  "toy_x509 c p = (if tl c = tl p then Inr \<lparr>tc_Certificate = [c], tc_PrivateKey = EcdsaKey 0\<rparr> else Inl (ErrExt ''mismatch''))"

definition toy_mtime :: "dfile \<Rightarrow> int" where
  "toy_mtime f = (if fl_bytes f = ''C0'' then 1 else 2)"

definition toy_reader :: "nat ClientReloader" where
  "toy_reader = \<lparr>rl_certFile = ''d/tls.crt'', rl_keyFile = ''d/tls.key'',
     rl_cached = Some \<lparr>cs_cert = \<lparr>tc_Certificate = [''C0''], tc_PrivateKey = EcdsaKey 0\<rparr>, cs_mtime = 1\<rparr>\<rparr>"

theorem rotation_served_witness:
  "let d' = snd (WriteMaterial (NewMaterial ''d'') ''C1'' ''K1'' '''' (old_pair None));
       F = watched_files toy_x509 toy_mtime (\<lambda>k. snapshot (disk_states (old_pair None) d') k);
       old = \<lparr>tc_Certificate = [''C0''], tc_PrivateKey = EcdsaKey 0\<rparr>; new = \<lparr>tc_Certificate = [''C1''], tc_PrivateKey = EcdsaKey 0\<rparr>
   in \<exists>i \<le> 9. fst (serve F 9 toy_reader 0) = replicate i (Inr old) @ replicate (9 - i) (Inr new)"
proof -
  obtain d' where w: "WriteMaterial (NewMaterial ''d'') ''C1'' ''K1'' '''' (old_pair None) = (Inr (), d')"
    using old_pair_ok by (metis prod.collapse)
  let ?F = "watched_files toy_x509 toy_mtime (\<lambda>k. snapshot (disk_states (old_pair None) d') (id k))"
  obtain rs rl' k' where s: "serve ?F 9 toy_reader 0 = (rs, rl', k')" by (metis prod_cases3)
  have m: "mt_CertFile (NewMaterial ''d'') = ''d/tls.crt''" "mt_KeyFile (NewMaterial ''d'') = ''d/tls.key''" by code_simp+
  have "\<exists>i \<le> 9. rs = replicate i (Inr \<lparr>tc_Certificate = [''C0''], tc_PrivateKey = EcdsaKey 0\<rparr>)
      @ replicate (9 - i) (Inr \<lparr>tc_Certificate = [''C1''], tc_PrivateKey = EcdsaKey 0\<rparr>)"
    by (rule rotation_served[where fc = "\<lparr>fl_bytes = ''C0'', fl_mode = 384\<rparr>" and fk = "\<lparr>fl_bytes = ''K0'', fl_mode = 384\<rparr>"
          and e = "ErrExt ''mismatch''", OF w _ _ _ _ _ _ refl _ s, THEN conjunct1])
      (simp_all add: m old_pair_def toy_mtime_def toy_x509_def reader_at_def toy_reader_def mono_def)
  then show ?thesis using w s by simp
qed

end
