(* ===== verification/Spec2Isabelle.thy ===== *)
theory Spec2Isabelle
  imports Delivery Lifecycle Rotation
begin

text \<open>
  The muthur collector receives AlertManager webhooks in a Kubernetes cluster, enriches each alert with
  logs, metrics, pod metadata and events, removes secrets and personal data from every free text, and
  forwards one payload per alert to the brain over gRPC with mTLS or over signed and sealed HTTP. Two
  one-shot commands of the same binary enrol the collector and renew its certificate.

  \<^bold>\<open>Parts and theories.\<close> A theory models the file or package it names, with the names of the source.

  \<^item> \<open>Prelude\<close>: errors as values (\<open>go_error\<close>, \<open>'a res\<close>), panics (\<open>outcome\<close>), maps as association lists.
    \<open>GoUtf8\<close>, \<open>GoRegexp\<close>, \<open>GoStrings\<close>, \<open>GoFormat\<close>, \<open>GoEncoding\<close>, \<open>GoHttp\<close>, \<open>GoFiles\<close>: what the code uses of the Go
    standard library: UTF-8 decoding, leftmost-first regular-expression matching, strings and numbers,
    quoting and URL encoding, base64 and hex, HTTP messages, paths and a disk on which any operation can
    fail and whose history holds every state a crash could leave.
  \<^item> \<open>Metrics\<close> (\<^verbatim>\<open>internal/metrics\<close>): the instruments as a record of counters.
  \<^item> \<open>Patterns\<close>, \<open>Redact\<close>, \<open>RedactSafety\<close> (\<^verbatim>\<open>internal/redact\<close>): the twenty built-in expressions, \<open>Redactor_New\<close>,
    \<open>RedactString\<close>, \<open>Redact\<close>. \<open>Redact\<close> relates the log loop to one decision per line and proves its
    accounting and budget; \<open>RedactSafety\<close> proves, through the locale \<open>rewriting_passes\<close>, that no protected
    expression matches in an output, and exhibits two leaks.
  \<^item> \<open>Proto\<close> (\<^verbatim>\<open>proto/alert.pb.go\<close>): the messages. \<open>K8s\<close>, \<open>Resolver\<close>, \<open>Loki\<close>, \<open>Prometheus\<close> (the packages of those
    names under \<^verbatim>\<open>internal\<close>): pod lookup, metadata and events; target resolution against a table of label
    precedence; log and metric queries, their bounds, and whether operands are closed literals.
  \<^item> \<open>Webhook\<close> (\<^verbatim>\<open>internal/webhook\<close>): handlers and workers as an interleaved step relation over the semaphore
    channel, which implements the interface locale \<open>semaphore\<close>; accounting of every alert, and that
    handlers never wait.
  \<^item> \<open>Pipeline\<close>, \<open>PipelineSafety\<close> (\<^verbatim>\<open>internal/pipeline\<close>): \<open>ProcessAlert\<close> by stages; one hand-over per run, clean free
    texts, bounded sizes, resolved alerts not enriched, and which fields are forwarded verbatim.
    \<open>PipelineCounters\<close> adds that a run counts its alert exactly once and that payloads are well typed.
  \<^item> \<open>Httpsig\<close>, \<open>Sealed\<close>, \<open>HpkeKeys\<close>, \<open>SignedClient\<close> (\<^verbatim>\<open>internal/auth/httpsig.go\<close>, \<^verbatim>\<open>replay.go\<close>, \<^verbatim>\<open>sealed.go\<close>, \<^verbatim>\<open>signedclient.go\<close>):
    message signatures, the HPKE envelope and the client with its key cache: round trips, what a
    signature binds, no downgrade, trusted keys only, bounded requests. \<open>HpkeKeys\<close> has the brain's key
    files: the loop over their blocks returns and decides the file, rotation keeps the old keys. \<open>Exchange\<close>
    puts both ends together: an alert sent over the signed transport gets through, also when the brain has
    changed its keys since the client fetched them.
  \<^item> \<open>Reloader\<close>, \<open>Forwarder\<close> (\<^verbatim>\<open>internal/auth/reloader.go\<close>, \<^verbatim>\<open>internal/forwarder\<close>): the certificate cache and the retry
    loop, stated over the history of attempts and waits. \<open>ForwardSteps\<close> cuts the loop at its sendings and
    waits and shows that the pieces, run without interruption, are \<open>Forward\<close>. \<open>Rotation\<close> runs the reloader of
    a server against the \<open>WriteMaterial\<close> of a renewal on one disk.
  \<^item> \<open>Keypair\<close>, \<open>Client\<close>, \<open>Flows\<close> (\<^verbatim>\<open>internal/auth/keypair.go\<close>, \<^verbatim>\<open>client.go\<close>, \<^verbatim>\<open>secret_store.go\<close>, \<^verbatim>\<open>flows.go\<close>): material on disk
    and in a Secret, enrolment and renewal. The locales \<open>persister\<close> and \<open>reliable_persister\<close> are the contract
    of the stores: \<open>FilePersister\<close> meets the first, \<open>SecretStore\<close> both, and the flows are proved once against
    them. \<open>Lifecycle\<close> is the step relation of any sequence of such runs; its invariants, by rule induction in
    the second locale, say that a pair is never lost, always belongs together and a token is not reused.
  \<^item> \<open>Config\<close>, \<open>Collector\<close> (\<^verbatim>\<open>internal/config\<close>, \<^verbatim>\<open>cmd/collector/main.go\<close>, \<^verbatim>\<open>internal/k8s/client.go\<close>): the environment
    variables, the three commands, the wiring of the server with its routes, and the exit status.
  \<^item> \<open>System\<close>: the running server as one state machine over webhook, pipeline and forwarder. A worker
    assembles its payload, then takes a step per sending and per wait, so a worker that waits for its
    backoff lets the others run; \<open>ProcessAlert_assemble\<close> and \<open>Forward_steps\<close> show that the steps make up
    \<open>ProcessAlert\<close>. The machine refines that of \<open>Webhook\<close>. \<open>Progress\<close> bounds the steps that are left and shows
    that one is always possible; \<open>Delivery\<close> joins the machine with \<open>Exchange\<close>. This theory states what holds
    of every server that starts: everything it sends is clean, every alert is accounted for and dealt
    with, it does not die, and in signed mode it delivers.

  \<^bold>\<open>State and effects.\<close> Whatever is outside the process is a type variable \<open>'w\<close> that calls thread through,
  so answers may differ from call to call. Calls into third-party code (client-go, gRPC, HPKE, X.509,
  JSON, protobuf) are fields of records (\<open>clientset\<close>, \<open>http_env\<close>, \<open>transport\<close>, \<open>hpke\<close>, \<open>sigs\<close>, \<open>codec\<close>, \<open>grpc_env\<close>,
  \<open>secrets_api\<close>, \<open>csr_lib\<close>, \<open>enrol_env\<close>, \<open>server_env\<close>). What a theorem needs of them is a named hypothesis:
  \<open>ecdsa_correct\<close>, \<open>hpke_correct\<close>, \<open>pem_consumes\<close>, \<open>keys_correct\<close>, \<open>answering_brain\<close>, \<open>sorts\<close>, \<open>lawful_api\<close>,
  \<open>available_api\<close>, \<open>pk_roundtrip\<close>, \<open>signed_service\<close>, \<open>serves\<close>, each met by a concrete instance in the witness.
  \<^verbatim>\<open>lawful_api\<close> takes an error of an API write to mean that nothing was written.

  \<^bold>\<open>Loops and bounds.\<close> Loops over slices are structural recursions and need no fuel; the expression matcher
  and the scanners have termination measures; the retry loop runs over the list of its three attempts. The loop
  of \<^verbatim>\<open>ParseHPKEKeys\<close> has no bound of its own and is a partial function whose \<open>None\<close> means not returning. A
  \<^verbatim>\<open>float64\<close> is only carried, as its bit pattern; conversions to \<^verbatim>\<open>int32\<close> and \<^verbatim>\<open>int64\<close> wrap explicitly, durations
  saturate. Deadlines and cancellation appear as errors of the calls made under them.

  \<^bold>\<open>Not modelled.\<close> Log output; the observed durations (a histogram counts its observations); the generated
  protobuf and gRPC code except the message structs; TLS handshakes and connection handling; how the
  router matches a request to the registered routes, its middleware and the contents of the metrics
  endpoint; \<^verbatim>\<open>NewClientFromClientset\<close>, which only tests use; the Helm chart. Two workers that run at once
  interleave at the hand-over of the payload and around every sending and wait, not inside the enrichment
  of an alert or inside one call of \<^verbatim>\<open>send\<close>: what they share there are counters, which only add up,
  the certificate cache, an atomic pointer, and the key cache, behind its mutex.
\<close>

section \<open>Properties of the assembled collector\<close>

lemma start_server_checked:
  fixes V :: "('esk, 'pool, 'sel, 'w) server_env" and sv :: "('esk, 'pk, 'pool, 'sel, 'w) server"
  assumes "start_server V env w = (Inr sv, w')"
  shows "fw_signed (sr_forwarder sv) \<noteq> None \<longleftrightarrow> env ''AUTH_MODE'' = ''signed''"
    "\<forall>c. pl_loki (sr_pipeline sv) = Some c \<and> lk_maxLines c < 0 \<longrightarrow> (\<exists>t. env ''LOKI_MAX_LOG_LINES'' = CHR ''-'' # t)"
    "\<exists>n. sr_handler sv = NewHandler n"
    "\<exists>rl. client_reloader (sr_forwarder sv) = Some rl \<and> rl_cached rl \<noteq> None"
    "forwarder_ok (sr_forwarder sv)"
proof -
  obtain cfg rl where cfg: "Load (st_isPrint (sv_start V)) (st_parseDuration (sv_start V)) env = Inr cfg"
    and rl: "NewClientReloader (sv_files V) (CertFile cfg) (KeyFile cfg) w = (Inr rl, w')"
    and fwd: "new_forwarder V cfg rl w' = Inr (sr_forwarder sv)" and pipe: "sr_pipeline sv = new_pipeline V cfg"
    and handler: "sr_handler sv = NewHandler (cf_WebhookMaxConcurrent cfg)"
    by (rule start_server_wired[OF assms])
  have "cf_AuthMode cfg = envOr env ''AUTH_MODE'' AuthModeMTLS"
    using cfg by (auto simp: Load_def Let_def split: sum.splits if_splits)
  then show "fw_signed (sr_forwarder sv) \<noteq> None \<longleftrightarrow> env ''AUTH_MODE'' = ''signed''"
    using new_forwarder_ok[OF fwd] by (auto simp: envOr_def AuthModeMTLS_def AuthModeSigned_def)
  have "\<exists>t. env ''LOKI_MAX_LOG_LINES'' = CHR ''-'' # t" if "cf_LokiMaxLogLines cfg < 0"
    using Atoi_value_negative[of "envOr env ''LOKI_MAX_LOG_LINES'' ''200''"] that Load_ok(4)[OF cfg]
    by (auto simp: envOr_def split: if_splits)
  then show "\<forall>c. pl_loki (sr_pipeline sv) = Some c \<and> lk_maxLines c < 0 \<longrightarrow> (\<exists>t. env ''LOKI_MAX_LOG_LINES'' = CHR ''-'' # t)"
    using new_pipeline_redactor(2)[of V cfg] pipe by auto
  show "\<exists>n. sr_handler sv = NewHandler n" using handler by blast
  show "\<exists>rl. client_reloader (sr_forwarder sv) = Some rl \<and> rl_cached rl \<noteq> None"
    using NewClientReloader_cached[OF rl] new_forwarder_ok[OF fwd] by simp
  show "forwarder_ok (sr_forwarder sv)"
    using new_forwarder_ok[OF fwd] by (auto simp: forwarder_ok_def client_reloader_def)
qed

text \<open>C21: whatever the environment variables are, a server that starts has at least one and at most as many
  worker slots as the semaphore holds, positive limits in its redactor, a certificate in memory, and the
  transport that was asked for. Malformed numbers cannot disable a guard; the only number that can make
  a worker panic is an explicitly negative \<^verbatim>\<open>LOKI_MAX_LOG_LINES\<close>.\<close>

theorem runServer_safe:
  fixes V :: "('esk, 'pool, 'sel, 'w) server_env" and sv :: "('esk, 'pk, 'pool, 'sel, 'w) server"
  assumes "start_server V env w = (Inr sv, w')"
  shows "ch_cap (hn_sem (sr_handler sv)) \<ge> 1 \<and> ch_len (hn_sem (sr_handler sv)) = 0
    \<and> maxLineBytes (pl_redactor (sr_pipeline sv)) > 0 \<and> maxTotalBytes (pl_redactor (sr_pipeline sv)) > 0
    \<and> maxStringBytes (pl_redactor (sr_pipeline sv)) > 0
    \<and> (\<exists>rl. client_reloader (sr_forwarder sv) = Some rl \<and> rl_cached rl \<noteq> None)
    \<and> (fw_signed (sr_forwarder sv) \<noteq> None \<longleftrightarrow> env ''AUTH_MODE'' = ''signed'')
    \<and> (\<forall>c. pl_loki (sr_pipeline sv) = Some c \<and> lk_maxLines c < 0 \<longrightarrow> (\<exists>t. env ''LOKI_MAX_LOG_LINES'' = CHR ''-'' # t))"
proof (rule start_server_wired[OF assms], goal_cases)
  case (1 cfg rl)
  have "ch_cap (hn_sem (NewHandler n)) \<ge> 1 \<and> ch_len (hn_sem (NewHandler n)) = 0" for n
    by (auto simp: NewHandler_def Let_def)
  then show ?thesis using start_server_checked(1,2,4)[OF assms] unfolding 1(4,5) new_pipeline_redactor(1)
    by (simp add: Redactor_New_def Let_def defaultMaxLineBytes_def defaultMaxTotalBytes_def
        defaultMaxStringBytes_def)
qed

text \<open>A pod without cluster access whose certificate loads, on the gRPC transport.\<close>

definition demo_server_env :: "(nat, unit, unit, nat) server_env" where
  "demo_server_env =
    \<lparr>sv_start = \<lparr>st_isPrint = \<lambda>_. True, st_parseDuration = \<lambda>_. Inr 0, st_UnmarshalText = \<lambda>_. Inl (ErrExt ''unknown level''),
       st_Build = \<lambda>_. Inr ()\<rparr>,
     sv_InClusterConfig = Inl (ErrExt ''not in a cluster''), sv_NewForConfig = Inl (ErrExt ''unused''),
     sv_compile = \<lambda>_. None,
     sv_files = \<lparr>os_Stat = \<lambda>p w. (Inr 1, w), LoadX509KeyPair = \<lambda>c k w. (Inr \<lparr>tc_Certificate = [''der''], tc_PrivateKey = EcdsaKey 1\<rparr>, w)\<rparr>,
     sv_ReadFile = \<lambda>_ _. Inr ''pem'', sv_pool_of = \<lambda>_. Some (), sv_urlParse = \<lambda>_. Inl (ErrExt ''bad''), sv_dial = \<lambda>_. Inr ()\<rparr>"

definition demo_vars :: "string \<Rightarrow> string" where
  "demo_vars k = (if k = ''CLUSTER_ID'' then ''c1'' else if k = ''CENTRAL_AGENT_URL'' then ''brain:443''
     else if k = ''WEBHOOK_MAX_CONCURRENT'' then ''many'' else '''')"

lemma demo_server_starts:
  "\<exists>sv :: (nat, nat, unit, unit, nat) server. start_server demo_server_env demo_vars 0 = (Inr sv, 0)"
  by (simp add: start_server_def Load_def Let_def demo_server_env_def demo_vars_def envOr_def newLogger_def AuthModeMTLS_def AuthModeSigned_def
      NewClientReloader_def load_def CertFile_def KeyFile_def CACertFile_def new_forwarder_def Forwarder_New_def loadCAPool_def)

theorem runServer_safe_witness:
  "\<exists>sv :: (nat, nat, unit, unit, nat) server. start_server demo_server_env demo_vars 0 = (Inr sv, 0)
     \<and> ch_cap (hn_sem (sr_handler sv)) \<ge> 1 \<and> (\<exists>rl. client_reloader (sr_forwarder sv) = Some rl \<and> rl_cached rl \<noteq> None)"
proof -
  obtain sv :: "(nat, nat, unit, unit, nat) server" where sv: "start_server demo_server_env demo_vars 0 = (Inr sv, 0)"
    using demo_server_starts by blast
  then show ?thesis using runServer_safe[OF sv] by blast
qed

definition quiet_world :: "nat pipeline_env" where
  "quiet_world = \<lparr>pe_isPrint = \<lambda>_. True, pe_decodeLoki = \<lambda>_. Inl (ErrExt ''bad''),
     pe_decodeProm = \<lparr>decodeProm = \<lambda>_. Inl (ErrExt ''bad''), unmarshalMatrix = \<lambda>_. Inl (ErrExt ''bad''),
       parseFloat64 = \<lambda>_. None, toInt64 = \<lambda>_. 0\<rparr>,
     pe_http = \<lparr>Do = \<lambda>_ w. (Inl (ErrExt ''refused''), w), now = \<lambda>_. 0, parse_url = \<lambda>_. None\<rparr>,
     pe_sortSlice = insertion_sort\<rparr>"

text \<open>The transport of the demonstration: gRPC to a brain that accepts everything.\<close>

definition demo_send ::
    "AlertPayload \<Rightarrow> (nat, nat, unit) Forwarder \<times> nat \<Rightarrow> unit res outcome \<times> (nat, nat, unit) Forwarder \<times> nat" where
  "demo_send = send demo_transport (ee_codec demo_enrol) (sv_files demo_server_env) (\<lambda>meta p w. (Inr (), Suc w))"

lemma demo_send_ok: "fw_signed f = None \<Longrightarrow> \<exists>f' w'. demo_send p (f, w) = (Done (Inr ()), f', w')"
  by (simp add: demo_send_def send_def FreshNonce_def demo_transport_def)

text \<open>The demonstration server takes one alert from the webhook to the brain.\<close>

lemma demo_server_runs:
  fixes sv :: "(nat, nat, unit, unit, nat) server"
  assumes "start_server demo_server_env demo_vars 0 = (Inr sv, 0)"
  shows "\<exists>s p. collector_reachable (\<lambda>_. Inr \<lparr>am_Alerts = [mail_alert ''firing'']\<rparr>) quiet_world (sr_pipeline sv) demo_send
      (waiting (\<lambda>d w. (None, w))) (system_init (sr_handler sv) no_metrics (sr_forwarder sv) 0) s
    \<and> sy_results s = {#(mail_alert ''firing'', p, Ended 1 (Inr ()))#} \<and> sy_sent s = [p]"
proof -
  have d: "fw_signed (sr_forwarder sv) = None"
    "\<forall>c. pl_loki (sr_pipeline sv) = Some c \<longrightarrow> 0 \<le> lk_maxLines c" "\<exists>n. sr_handler sv = NewHandler n"
    using start_server_checked[OF assms] by (auto simp: demo_vars_def not_less[symmetric])
  then obtain n where n: "sr_handler sv = NewHandler n" by blast
  show ?thesis unfolding n
    using one_alert_runs[of "sr_pipeline sv" demo_send "sr_forwarder sv" "\<lambda>_. Inr \<lparr>am_Alerts = [mail_alert ''firing'']\<rparr>" "''''"]
      d(2) demo_send_ok[OF d(1)] by blast
qed

text \<open>C1: end to end. Whatever requests arrive at a server that started from any environment, in whatever
  order its handlers and workers run, and whatever the cluster and the brain do: no payload it ever
  hands to the transport contains a protected secret in any of its free texts, and each worker's
  payload is sent at most three times, and at least once before the worker ends.\<close>

theorem system_sends_clean:
  fixes V :: "('esk, 'pool, 'sel, 'w) server_env" and sv :: "('esk, 'pk, 'pool, 'sel, 'w) server"
  assumes "start_server V env w0 = (Inr sv, w1)"
    and "collector_reachable unmarshal E (sr_pipeline sv) (send T K F ingest) backoff
           (system_init (sr_handler sv) m (sr_forwarder sv) w) s"
  shows "(\<forall>p \<in> set (sy_sent s). \<forall>x \<in> set (free_texts p). \<forall>re \<in> set protected_regexes. \<not> MatchString re x)
    \<and> worker_payloads (sy_results s) \<subseteq># mset (sy_sent s)
    \<and> mset (sy_sent s) \<subseteq># repeat_mset 3 (worker_payloads (sy_ready s + sy_results s))"
proof -
  have ok: "payloads_ok (sr_pipeline sv) s" "sendings_ok s" using reachable_system_ok[OF assms(2)] by blast+
  have "list_all clean (free_texts p)" if "p \<in> set (sy_sent s)" for p
  proof (rule start_server_wired[OF assms(1)], goal_cases)
    case (1 cfg rl)
    have "sanitised (sr_pipeline sv) p" using ok(1) that by (simp add: payloads_ok_def sound_payload_def)
    then show ?case using sanitisedD new_pipeline_redactor(1)[of V cfg] 1(4) by metis
  qed
  then show ?thesis using sendings_bounds[OF ok(2)] cleanD by (auto simp: list_all_iff)
qed

theorem system_sends_clean_witness:
  "\<exists>(sv :: (nat, nat, unit, unit, nat) server) s p. start_server demo_server_env demo_vars 0 = (Inr sv, 0)
     \<and> sy_sent (s :: ((nat, nat, unit) Forwarder, nat) system) = [p] \<and> (\<forall>x \<in> set (free_texts p). \<not> MatchString re_email x)"
proof -
  obtain sv :: "(nat, nat, unit, unit, nat) server" where sv: "start_server demo_server_env demo_vars 0 = (Inr sv, 0)"
    using demo_server_starts by blast
  obtain s p where s: "collector_reachable (\<lambda>_. Inr \<lparr>am_Alerts = [mail_alert ''firing'']\<rparr>) quiet_world (sr_pipeline sv) demo_send
      (waiting (\<lambda>d w. (None, w))) (system_init (sr_handler sv) no_metrics (sr_forwarder sv) 0) s" "sy_sent s = [p]"
    using demo_server_runs[OF sv] by blast
  have "\<forall>x \<in> set (free_texts p). \<not> MatchString re_email x"
    using system_sends_clean[OF sv s(1)[unfolded demo_send_def]] s(2) by (simp add: protected_regexes_def)
  then show ?thesis using sv s(2) by blast
qed

text \<open>C5: no alert is lost between the webhook and the brain, and the counters tell the truth. In every
  reachable state each accepted alert is in exactly one place: waiting to be offered, admitted, being
  forwarded, finished or dropped; at most the configured number (50 when it is not positive) is in the
  hands of workers. The received counter of a status has grown by the alerts of that status whose
  payload is assembled, and the forwarding counters by exactly those whose forwarding ended with
  delivery and those whose forwarding ended without.\<close>

theorem alerts_accounted:
  assumes "collector_reachable unmarshal E P sendF backoff (system_init (NewHandler n) m f w) s"
  shows "wh_accepted (sy_webhook s) = mset (concat (wh_pending (sy_webhook s))) + sy_fresh s
      + image_mset fst (sy_ready s) + image_mset fst (sy_results s) + wh_dropped (sy_webhook s)
    \<and> size (sy_fresh s) + size (sy_ready s) \<le> (if n \<le> 0 then 50 else nat n)
    \<and> AlertsDropped (wh_metrics (sy_webhook s)) = AlertsDropped m + size (wh_dropped (sy_webhook s))
    \<and> (\<forall>st. AlertsReceived (wh_metrics (sy_webhook s)) st = AlertsReceived m st
         + size {#x \<in># sy_ready s + sy_results s. alert_status (fst x) = st#})
    \<and> Forwards (wh_metrics (sy_webhook s)) ''ok'' = Forwards m ''ok'' + size {#x \<in># sy_ready s + sy_results s. ended res_ok x#}
    \<and> Forwards (wh_metrics (sy_webhook s)) ''error''
        = Forwards m ''error'' + size {#x \<in># sy_ready s + sy_results s. ended (Not \<circ> res_ok) x#}"
proof -
  have ok: "flow_ok s" "counts_ok m s" using reachable_system_ok[OF assms] by blast+
  have v: "pool_ok (if n \<le> 0 then 50 else nat n) (endpoint_view s)" "accounts_ok (AlertsDropped m) (endpoint_view s)"
    using reachable_ok[OF reachable_view[OF assms]] by simp_all
  have "size (sy_fresh s) + size (sy_ready s) \<le> (if n \<le> 0 then 50 else nat n)"
    using v(1) ok(1) by (auto simp: pool_ok_def endpoint_view_def flow_ok_def Let_def)
  moreover have "wh_accepted (sy_webhook s) = mset (concat (wh_pending (sy_webhook s))) + sy_fresh s
      + image_mset fst (sy_ready s) + image_mset fst (sy_results s) + wh_dropped (sy_webhook s)"
    "AlertsDropped (wh_metrics (sy_webhook s)) = AlertsDropped m + size (wh_dropped (sy_webhook s))"
    using v(2) ok(1) by (auto simp: accounts_ok_def endpoint_view_def flow_ok_def)
  ultimately show ?thesis using ok(2) by (simp add: counts_ok_def Let_def)
qed

definition accepting :: "AlertPayload \<Rightarrow> unit \<times> unit \<Rightarrow> unit res outcome \<times> unit \<times> unit" where
  "accepting p s = (Done (Inr ()), s)"

lemma demo_system_runs:
  "\<exists>s p. collector_reachable (\<lambda>_. Inr \<lparr>am_Alerts = [mail_alert ''firing'']\<rparr>) demo_env demo_pipeline accepting (\<lambda>d s. (None, s))
      (system_init (NewHandler 1) no_metrics () ()) s
    \<and> sy_results s = {#(mail_alert ''firing'', p, Ended 1 (Inr ()))#} \<and> sy_ready s = {#} \<and> sy_sent s = [p] \<and> \<not> wh_crashed (sy_webhook s)"
proof (rule one_alert_runs[of _ _ _ _ "''''"])
  show "\<forall>c. pl_loki demo_pipeline = Some c \<longrightarrow> 0 \<le> lk_maxLines c" by (simp add: demo_pipeline_def Pipeline_New_def)
qed (simp_all add: accepting_def)

theorem alerts_accounted_witness:
  "\<exists>s. collector_reachable (\<lambda>_. Inr \<lparr>am_Alerts = [mail_alert ''firing'']\<rparr>) demo_env demo_pipeline accepting (\<lambda>d s. (None, s))
      (system_init (NewHandler 1) no_metrics () ()) s
    \<and> Forwards (wh_metrics (sy_webhook s)) ''ok'' = 1 \<and> AlertsReceived (wh_metrics (sy_webhook s)) ''firing'' = 1"
proof -
  obtain s p where s: "collector_reachable (\<lambda>_. Inr \<lparr>am_Alerts = [mail_alert ''firing'']\<rparr>) demo_env demo_pipeline accepting (\<lambda>d s. (None, s))
      (system_init (NewHandler 1) no_metrics () ()) s" "sy_results s = {#(mail_alert ''firing'', p, Ended 1 (Inr ()))#}" "sy_ready s = {#}"
    using demo_system_runs by blast
  have "alert_status (mail_alert ''firing'') = ''firing''" by (simp add: alert_status_def mail_alert_def)
  then show ?thesis using s alerts_accounted[OF s(1)] by (auto simp: no_metrics_def)
qed



text \<open>C6: nothing an alert, the cluster or the brain can do brings the server down. As long as the system
  supplies randomness, a server that started, unless \<^verbatim>\<open>LOKI_MAX_LOG_LINES\<close> was set to a negative number,
  never dies of a panic, whatever requests it is sent and however its workers interleave.\<close>

theorem server_survives:
  fixes V :: "('esk, 'pool, 'sel, 'w) server_env" and sv :: "('esk, 'pk, 'pool, 'sel, 'w) server"
  assumes "start_server V env w0 = (Inr sv, w1)" "\<nexists>t. env ''LOKI_MAX_LOG_LINES'' = CHR ''-'' # t"
    and "\<forall>n w. fst (tr_rand T n w) \<noteq> None"
    and "collector_reachable unmarshal E (sr_pipeline sv) (send T K F ingest) (waiting wait)
           (system_init (sr_handler sv) m (sr_forwarder sv) w) s"
  shows "\<not> wh_crashed (sy_webhook s)"
proof (rule reachable_survives[OF _ _ _ assms(4), where I = forwarder_ok])
  show "\<forall>p. survives forwarder_ok (send T K F ingest p)"
    using send_survives[OF assms(3)] unfolding survives_def by blast
  show "\<forall>c. pl_loki (sr_pipeline sv) = Some c \<longrightarrow> 0 \<le> lk_maxLines c"
    using start_server_checked(2)[OF assms(1)] assms(2) by (meson not_less)
  show "forwarder_ok (sr_forwarder sv)" by (rule start_server_checked(5)[OF assms(1)])
qed

theorem server_survives_witness:
  "\<exists>(sv :: (nat, nat, unit, unit, nat) server) s p. start_server demo_server_env demo_vars 0 = (Inr sv, 0)
     \<and> sy_results (s :: ((nat, nat, unit) Forwarder, nat) system) = {#(mail_alert ''firing'', p, Ended 1 (Inr ()))#} \<and> \<not> wh_crashed (sy_webhook s)"
proof -
  obtain sv :: "(nat, nat, unit, unit, nat) server" where sv: "start_server demo_server_env demo_vars 0 = (Inr sv, 0)"
    using demo_server_starts by blast
  obtain s p where s: "collector_reachable (\<lambda>_. Inr \<lparr>am_Alerts = [mail_alert ''firing'']\<rparr>) quiet_world (sr_pipeline sv) demo_send
      (waiting (\<lambda>d w. (None, w))) (system_init (sr_handler sv) no_metrics (sr_forwarder sv) 0) s"
    "sy_results s = {#(mail_alert ''firing'', p, Ended 1 (Inr ()))#}"
    using demo_server_runs[OF sv] by blast
  have "\<not> wh_crashed (sy_webhook s)"
    by (rule server_survives[OF sv _ _ s(1)[unfolded demo_send_def]]) (simp_all add: demo_vars_def demo_transport_def)
  then show ?thesis using sv s(2) by blast
qed

lemma server_advances:
  fixes V :: "('esk, 'pool, 'sel, 'w) server_env" and sv :: "('esk, 'pk, 'pool, 'sel, 'w) server"
  assumes "start_server V env w0 = (Inr sv, w1)" "\<nexists>t. env ''LOKI_MAX_LOG_LINES'' = CHR ''-'' # t"
    and "\<forall>n w. fst (tr_rand T n w) \<noteq> None"
    and "collector_reachable unmarshal E (sr_pipeline sv) (send T K F ingest) (waiting wait)
           (system_init (NewHandler n) m (sr_forwarder sv) w) s" "todo s \<noteq> 0"
  shows "\<exists>s'. advances unmarshal E (sr_pipeline sv) (send T K F ingest) (waiting wait) s s'"
proof (rule reachable_advances[OF _ _ _ assms(4,5), where I = forwarder_ok])
  show "\<forall>p. survives forwarder_ok (send T K F ingest p)" using send_survives[OF assms(3)] unfolding survives_def by blast
  show "\<forall>c. pl_loki (sr_pipeline sv) = Some c \<longrightarrow> 0 \<le> lk_maxLines c"
    using start_server_checked(2)[OF assms(1)] assms(2) by (meson not_less)
  show "forwarder_ok (sr_forwarder sv)" by (rule start_server_checked(5)[OF assms(1)])
qed

text \<open>C3: every alert is dealt with. From every state a started server reaches, with randomness available
  and no negative line limit, at most \<open>todo\<close> steps of the handlers and workers answer all requests and
  finish or drop every accepted alert. It does not matter which steps are taken: every run of them is at
  most that long and can go on until all is done, and no other step but a new request adds to it.\<close>

theorem alerts_drain:
  fixes V :: "('esk, 'pool, 'sel, 'w) server_env" and sv :: "('esk, 'pk, 'pool, 'sel, 'w) server"
  assumes "start_server V env w0 = (Inr sv, w1)" "\<nexists>t. env ''LOKI_MAX_LOG_LINES'' = CHR ''-'' # t"
    and "\<forall>n w. fst (tr_rand T n w) \<noteq> None"
    and "step = advances unmarshal E (sr_pipeline sv) (send T K F ingest) (waiting wait)"
    and "collector_reachable unmarshal E (sr_pipeline sv) (send T K F ingest) (waiting wait)
           (system_init (sr_handler sv) m (sr_forwarder sv) w) s"
  shows "(\<exists>k s'. (step ^^ k) s s' \<and> drained (wh_accepted (sy_webhook s)) s')
    \<and> (\<forall>k s'. (step ^^ k) s s' \<longrightarrow>
         k + todo s' \<le> todo s \<and> ((\<exists>s''. step s' s'') \<or> drained (wh_accepted (sy_webhook s)) s'))
    \<and> (\<forall>s'. collector_step unmarshal E (sr_pipeline sv) (send T K F ingest) (waiting wait) s s'
         \<and> length (wh_pending (sy_webhook s')) \<le> length (wh_pending (sy_webhook s)) \<longrightarrow> todo s' \<le> todo s)"
proof -
  obtain n where n: "sr_handler sv = NewHandler n" using start_server_wired[OF assms(1)] by metis
  note reach = assms(5)[unfolded n]
  have go: "\<exists>s'. step s s'" if "collector_reachable unmarshal E (sr_pipeline sv) (send T K F ingest) (waiting wait)
      (system_init (NewHandler n) m (sr_forwarder sv) w) s" "todo s \<noteq> 0" for s
    unfolding assms(4) by (rule server_advances[OF assms(1-3) that])
  have end_ok: "drained (wh_accepted (sy_webhook s)) s'" if "(step ^^ k) s s'" "todo s' = 0" for k s'
    using todo_0_drained[OF advances_reachable[OF reach that(1)[unfolded assms(4)]] that(2)]
      advances_accepted_many[OF that(1)[unfolded assms(4)]] by simp
  have "\<exists>k s'. (step ^^ k) s s' \<and> todo s' = 0" using drains[OF go[unfolded assms(4)] reach] unfolding assms(4) .
  moreover have "(\<exists>s''. step s' s'') \<or> todo s' = 0" if "(step ^^ k) s s'" for k s'
    using go[OF advances_reachable[OF reach that[unfolded assms(4)]]] by blast
  ultimately show ?thesis using end_ok advances_many step_todo_le unfolding assms(4) by metis
qed

theorem alerts_drain_witness:
  "\<exists>(sv :: (nat, nat, unit, unit, nat) server) (s :: ((nat, nat, unit) Forwarder, nat) system).
     start_server demo_server_env demo_vars 0 = (Inr sv, 0)
     \<and> collector_reachable (\<lambda>_. Inr \<lparr>am_Alerts = [mail_alert ''firing'']\<rparr>) quiet_world (sr_pipeline sv) demo_send
         (waiting (\<lambda>d w. (None, w))) (system_init (sr_handler sv) no_metrics (sr_forwarder sv) 0) s
     \<and> todo s = 10
     \<and> (\<exists>k s'. k \<le> 10 \<and> (advances (\<lambda>_. Inr \<lparr>am_Alerts = [mail_alert ''firing'']\<rparr>) quiet_world (sr_pipeline sv) demo_send
           (waiting (\<lambda>d w. (None, w))) ^^ k) s s' \<and> drained (wh_accepted (sy_webhook s)) s')"
proof -
  let ?u = "\<lambda>_. Inr \<lparr>am_Alerts = [mail_alert ''firing'']\<rparr>" and ?wait = "waiting (\<lambda>d w. (None, w))"
  obtain sv :: "(nat, nat, unit, unit, nat) server" where sv: "start_server demo_server_env demo_vars 0 = (Inr sv, 0)"
    using demo_server_starts by blast
  obtain n where n: "sr_handler sv = NewHandler n" using start_server_wired[OF sv] by metis
  obtain s where s: "collector_reachable ?u quiet_world (sr_pipeline sv) demo_send ?wait (system_init (sr_handler sv) no_metrics (sr_forwarder sv) 0) s"
    "wh_pending (sy_webhook s) = [[]]" "sy_fresh s = {#mail_alert ''firing''#}" "sy_ready s = {#}"
    using one_alert_admitted[of ?u "''''" "mail_alert ''firing''" quiet_world "sr_pipeline sv" demo_send ?wait n no_metrics
      "sr_forwarder sv" "0 :: nat", OF refl] unfolding n by metis
  have t: "todo s = 10" by (simp add: todo_def s)
  have "\<nexists>t. demo_vars ''LOKI_MAX_LOG_LINES'' = CHR ''-'' # t" "\<forall>n w. fst (tr_rand demo_transport n w) \<noteq> None"
    by (simp_all add: demo_vars_def demo_transport_def)
  note drain = alerts_drain[OF sv this refl s(1)[unfolded demo_send_def]]
  then obtain k s' where k: "(advances ?u quiet_world (sr_pipeline sv) demo_send ?wait ^^ k) s s'" "drained (wh_accepted (sy_webhook s)) s'"
    unfolding demo_send_def by blast
  have "k \<le> 10" using drain k(1) t unfolding demo_send_def by fastforce
  then show ?thesis using sv s(1) t k by blast
qed


text \<open>The demonstration server on the signed transport, and its brain.\<close>

definition signed_vars :: "string \<Rightarrow> string" where
  "signed_vars k = (if k = ''AUTH_MODE'' then ''signed'' else if k = ''CENTRAL_AGENT_URL'' then ''https://b'' else demo_vars k)"

definition signed_server_env :: "(nat, unit, unit, nat) server_env" where
  "signed_server_env = demo_server_env\<lparr>sv_urlParse := \<lambda>_. Inr \<lparr>u_Scheme = ''https'', u_Host = ''b'', u_Path = '''', u_RawQuery = ''''\<rparr>\<rparr>"

lemma signed_server_starts:
  "\<exists>sv :: (nat, nat, unit, unit, nat) server. start_server signed_server_env signed_vars 0 = (Inr sv, 0)"
  by (simp add: start_server_def Load_def Let_def signed_server_env_def demo_server_env_def signed_vars_def demo_vars_def envOr_def newLogger_def
      AuthModeMTLS_def AuthModeSigned_def NewClientReloader_def load_def CertFile_def KeyFile_def CACertFile_def new_forwarder_def
      Forwarder_NewSigned_def NewSignedClient_def Trim_slash_def)

lemma signed_demo_service:
  "signed_service rotated_transport exchange_codec base () rotated_keys (\<lambda>_. ''ok'') zeros
     (\<lambda>crt. \<exists>l k. crt = \<lparr>tc_Certificate = [l], tc_PrivateKey = EcdsaKey k\<rparr>)"
proof -
  have k: "rotated_keys = \<lparr>ks_order = [''2a''], ks_keys = [(''2a'', 3)]\<rparr>" by (simp add: rotated_keys_def)
  have ok: "key_set_ok (sha256 constant_sigs) bytes_hpke rotated_keys" "ks_order rotated_keys \<noteq> []"
    unfolding k by (simp_all add: key_set_ok_def) code_simp
  show ?thesis
    using ok by (auto simp: signed_service_def constant_sigs_correct bytes_hpke_laws zeros_full rotated_refuses rotated_advertises
        rotated_answers rotated_requests rotated_outside exchange_codec_def)
qed


end
